(* ===== verification/Prelude.thy ===== *)
theory Prelude
  imports Main "HOL-Library.Char_ord" "HOL-Library.List_Lexorder" "HOL-Library.Sublist"
begin

text \<open>
  Shared vocabulary of the development: Go errors as values, state-passing operations that
  can fail, and the generic facts about lists and strings that the component theories use.

  A Go function \<^verbatim>\<open>func (s *S) F(args) (T, error)\<close> that reads or writes some state is
  a HOL function \<open>args \<Rightarrow> ('s, 't) op\<close>: it takes the state and returns either the error
  (\<open>Inl\<close>) or the value (\<open>Inr\<close>), with the new state in both cases, because a Go function that
  returns an error may already have written something.
\<close>

named_theorems op_simps \<open>unfolding of the operation combinators\<close>
named_theorems preserves_intros \<open>rules that show an operation keeps a state predicate\<close>

section \<open>Go errors\<close>

text \<open>
  The error values the code distinguishes. \<open>StoreErrNotFound\<close> and \<open>ActorErrNotFound\<close> are the
  sentinel variables of the packages \<^verbatim>\<open>store\<close> and \<^verbatim>\<open>actorstore\<close>; \<open>ErrConstraint\<close> and
  \<open>ErrDB\<close> are what the SQLite driver returns for a violated PRIMARY KEY or UNIQUE
  constraint and for any other failure; \<open>ErrMsg\<close> is \<^verbatim>\<open>fmt.Errorf\<close> without
  \<^verbatim>\<open>%w\<close>, and \<open>Wrapf\<close> is \<^verbatim>\<open>fmt.Errorf("...: %w", err)\<close>.
\<close>

datatype go_error =
    StoreErrNotFound
  | ActorErrNotFound
  | ErrRepoNotHosted
  | ErrNotExist
  | ErrConstraint
  | ErrDB
  | ErrMsg string
  | Wrapf string go_error

text \<open>\<^verbatim>\<open>errors.Is\<close> looks through the chain of wrapped errors; Go's \<^verbatim>\<open>==\<close> does not.\<close>

fun errors_is :: "go_error \<Rightarrow> go_error \<Rightarrow> bool" where
  "errors_is (Wrapf m e) t = (Wrapf m e = t \<or> errors_is e t)"
| "errors_is e t = (e = t)"

fun error_text :: "go_error \<Rightarrow> string" where
  "error_text StoreErrNotFound = ''not found''"
| "error_text ActorErrNotFound = ''not found''"
| "error_text ErrRepoNotHosted = ''repo not hosted here''"
| "error_text ErrNotExist = ''file does not exist''"
| "error_text ErrConstraint = ''constraint failed''"
| "error_text ErrDB = ''database error''"
| "error_text (ErrMsg m) = m"
| "error_text (Wrapf m e) = m @ '': '' @ error_text e"

section \<open>Operations that pass a state and may fail\<close>

type_synonym ('s, 'a) op = "'s \<Rightarrow> (go_error + 'a) \<times> 's"

definition goret :: "'a \<Rightarrow> ('s, 'a) op" where
  "goret x s = (Inr x, s)"

definition gofail :: "go_error \<Rightarrow> ('s, 'a) op" where
  "gofail e s = (Inl e, s)"

definition gobind :: "('s, 'a) op \<Rightarrow> ('a \<Rightarrow> ('s, 'b) op) \<Rightarrow> ('s, 'b) op" where
  "gobind m k s = (case m s of (Inl e, s') \<Rightarrow> (Inl e, s') | (Inr x, s') \<Rightarrow> k x s')"

text \<open>\<open>if err != nil \<^bold>{ return fmt.Errorf(msg, err) \<^bold>}\<close>.\<close>

definition wrapf :: "string \<Rightarrow> ('s, 'a) op \<Rightarrow> ('s, 'a) op" where
  "wrapf msg m s = (case m s of (Inl e, s') \<Rightarrow> (Inl (Wrapf msg e), s') | (Inr x, s') \<Rightarrow> (Inr x, s'))"

text \<open>A Go loop over a slice that stops at the first error.\<close>

fun goeach :: "('a \<Rightarrow> ('s, unit) op) \<Rightarrow> 'a list \<Rightarrow> ('s, unit) op" where
  "goeach f [] = goret ()"
| "goeach f (x # xs) = gobind (f x) (\<lambda>_. goeach f xs)"

lemma goret_apply [simp, op_simps]: "goret x s = (Inr x, s)"
  by (simp add: goret_def)

lemma gofail_apply [simp, op_simps]: "gofail e s = (Inl e, s)"
  by (simp add: gofail_def)

lemma gobind_Inl [simp]: "m s = (Inl e, s') \<Longrightarrow> gobind m k s = (Inl e, s')"
  by (simp add: gobind_def)

lemma gobind_Inr [simp]: "m s = (Inr x, s') \<Longrightarrow> gobind m k s = k x s'"
  by (simp add: gobind_def)

lemma wrapf_Inl [simp]: "m s = (Inl e, s') \<Longrightarrow> wrapf msg m s = (Inl (Wrapf msg e), s')"
  by (simp add: wrapf_def)

lemma wrapf_Inr [simp]: "m s = (Inr x, s') \<Longrightarrow> wrapf msg m s = (Inr x, s')"
  by (simp add: wrapf_def)

lemma gobind_Inr_iff:
  "gobind m k s = (Inr y, t) \<longleftrightarrow> (\<exists>x s'. m s = (Inr x, s') \<and> k x s' = (Inr y, t))"
  by (auto simp: gobind_def split: prod.splits sum.splits)

lemma gobind_Inl_iff:
  "gobind m k s = (Inl e, t) \<longleftrightarrow>
     m s = (Inl e, t) \<or> (\<exists>x s'. m s = (Inr x, s') \<and> k x s' = (Inl e, t))"
  by (auto simp: gobind_def split: prod.splits sum.splits)

lemma wrapf_Inr_iff [simp]: "wrapf msg m s = (Inr y, t) \<longleftrightarrow> m s = (Inr y, t)"
  by (auto simp: wrapf_def split: prod.splits sum.splits)

lemma wrapf_Inl_iff:
  "wrapf msg m s = (Inl e, t) \<longleftrightarrow> (\<exists>e'. e = Wrapf msg e' \<and> m s = (Inl e', t))"
  by (auto simp: wrapf_def split: prod.splits sum.splits)

lemma snd_wrapf [simp]: "snd (wrapf msg m s) = snd (m s)"
  by (auto simp: wrapf_def split: prod.splits sum.splits)

lemma fst_wrapf_Inr [simp]: "fst (wrapf msg m s) = Inr y \<longleftrightarrow> fst (m s) = Inr y"
  by (auto simp: wrapf_def split: prod.splits sum.splits)

subsection \<open>Operations that keep a predicate of the state\<close>

definition preserves :: "('s \<Rightarrow> bool) \<Rightarrow> ('s, 'a) op \<Rightarrow> bool" where
  "preserves P m \<longleftrightarrow> (\<forall>s. P s \<longrightarrow> P (snd (m s)))"

lemma preservesI: "(\<And>s r s'. P s \<Longrightarrow> m s = (r, s') \<Longrightarrow> P s') \<Longrightarrow> preserves P m"
  by (metis preserves_def prod.collapse)

lemma preservesD: "preserves P m \<Longrightarrow> P s \<Longrightarrow> P (snd (m s))"
  by (simp add: preserves_def)

lemma preservesE: "preserves P m \<Longrightarrow> m s = (r, s') \<Longrightarrow> P s \<Longrightarrow> P s'"
  by (metis preserves_def snd_conv)

lemma preserves_goret [preserves_intros]: "preserves P (goret x)"
  by (simp add: preserves_def)

lemma preserves_gofail [preserves_intros]: "preserves P (gofail e)"
  by (simp add: preserves_def)

lemma preserves_gobind [preserves_intros]:
  "preserves P m \<Longrightarrow> (\<And>x. preserves P (k x)) \<Longrightarrow> preserves P (gobind m k)"
  by (auto simp: preserves_def gobind_def split: prod.splits sum.splits)

lemma preserves_wrapf [preserves_intros]: "preserves P m \<Longrightarrow> preserves P (wrapf msg m)"
  by (simp add: preserves_def)

lemma preserves_if [preserves_intros]:
  "(b \<Longrightarrow> preserves P m) \<Longrightarrow> (\<not> b \<Longrightarrow> preserves P n) \<Longrightarrow> preserves P (if b then m else n)"
  by simp

lemma preserves_goeach [preserves_intros]:
  "(\<And>x. x \<in> set xs \<Longrightarrow> preserves P (f x)) \<Longrightarrow> preserves P (goeach f xs)"
  by (induction xs) (auto intro!: preserves_intros)

section \<open>Strings\<close>

text \<open>Go compares strings bytewise and SQLite's BINARY collation does too: lexicographic order
  on the character codes, which is the order of the library theory \<open>List_Lexorder\<close>.\<close>

definition has_prefix :: "string \<Rightarrow> string \<Rightarrow> bool" where
  "has_prefix s p \<longleftrightarrow> take (length p) s = p"

definition trim_prefix :: "string \<Rightarrow> string \<Rightarrow> string" where
  "trim_prefix s p = (if has_prefix s p then drop (length p) s else s)"

definition trim_right :: "char \<Rightarrow> string \<Rightarrow> string" where
  "trim_right c s = rev (dropWhile (\<lambda>x. x = c) (rev s))"

text \<open>\<^verbatim>\<open>strings.Cut\<close> around the first separator character.\<close>

fun cut :: "char \<Rightarrow> string \<Rightarrow> string \<times> string \<times> bool" where
  "cut c [] = ([], [], False)"
| "cut c (x # xs) = (if x = c then ([], xs, True)
     else (case cut c xs of (a, b, ok) \<Rightarrow> (x # a, b, ok)))"

lemma trim_prefix_append [simp]: "trim_prefix (p @ s) p = s"
  by (simp add: trim_prefix_def has_prefix_def)

lemma has_prefix_append [simp]: "has_prefix (p @ s) p"
  by (simp add: has_prefix_def)

lemma has_prefix_iff: "has_prefix s p \<longleftrightarrow> (\<exists>t. s = p @ t)"
  by (metis append_take_drop_id has_prefix_append has_prefix_def)

lemma cut_append [simp]: "c \<notin> set a \<Longrightarrow> cut c (a @ c # b) = (a, b, True)"
  by (induction a) auto

lemma cut_notin: "c \<notin> set a \<Longrightarrow> cut c a = (a, [], False)"
  by (induction a) auto

lemma cut_True: "cut c s = (a, b, True) \<Longrightarrow> s = a @ c # b \<and> c \<notin> set a"
proof (induction s arbitrary: a)
  case Nil
  then show ?case by simp
next
  case (Cons x xs)
  then show ?case by (cases "x = c"; cases "cut c xs") auto
qed

end
