(* ===== verification/Sql.thy ===== *)
theory Sql
  imports Prelude
begin

text \<open>
  The SQL the code sends to SQLite, as operations on tables. A table is the list of its rows
  in insertion order; a statement of the source is one of the combinators below applied to a
  predicate that is its WHERE clause. Every database connection carries a tape of booleans:
  each statement takes one, and when it is \<open>True\<close> the statement fails with \<open>ErrDB\<close>
  and writes nothing. A tape is arbitrary in every theorem unless it says otherwise, so the
  theorems cover every way the driver can fail; an empty tape means no more failures.
\<close>

section \<open>Connections and statements\<close>

record dbconn =
  tape :: "bool list"

fun next_fault :: "bool list \<Rightarrow> bool" where
  "next_fault [] = False"
| "next_fault (b # bs) = b"

definition stmt :: "('a dbconn_scheme, 'r) op \<Rightarrow> ('a dbconn_scheme, 'r) op" where
  "stmt m s = (let s' = s\<lparr>tape := tl (tape s)\<rparr>
     in if next_fault (tape s) then (Inl ErrDB, s') else m s')"

text \<open>
  \<^verbatim>\<open>BeginTx\<close>, a body, \<^verbatim>\<open>Commit\<close>, with a deferred \<^verbatim>\<open>Rollback\<close>: an error in the
  body or in the commit leaves the tables as they were (the consumed part of the tape stays
  consumed). \<open>on_begin\<close> and \<open>on_commit\<close> are the wrapping of those two errors.
\<close>

definition with_tx :: "(go_error \<Rightarrow> go_error) \<Rightarrow> (go_error \<Rightarrow> go_error) \<Rightarrow>
    ('a dbconn_scheme, 'r) op \<Rightarrow> ('a dbconn_scheme, 'r) op" where
  "with_tx on_begin on_commit m s =
     (case stmt (goret ()) s of
        (Inl e, s1) \<Rightarrow> (Inl (on_begin e), s1)
      | (Inr _, s1) \<Rightarrow>
          (case m s1 of
             (Inl e, s2) \<Rightarrow> (Inl e, s1\<lparr>tape := tape s2\<rparr>)
           | (Inr x, s2) \<Rightarrow>
               (case stmt (goret ()) s2 of
                  (Inl e, s3) \<Rightarrow> (Inl (on_commit e), s1\<lparr>tape := tape s3\<rparr>)
                | (Inr _, s3) \<Rightarrow> (Inr x, s3))))"

text \<open>A predicate that does not look at the tape.\<close>

definition tapefree :: "('a dbconn_scheme \<Rightarrow> bool) \<Rightarrow> bool" where
  "tapefree P \<longleftrightarrow> (\<forall>s t. P (s\<lparr>tape := t\<rparr>) = P s)"

lemma tapefreeI: "(\<And>s t. P (s\<lparr>tape := t\<rparr>) = P s) \<Longrightarrow> tapefree P"
  by (simp add: tapefree_def)

lemma preserves_stmt:
  assumes "tapefree P" "preserves P m"
  shows "preserves P (stmt m)"
  using assms by (auto simp: preserves_def stmt_def tapefree_def Let_def)

lemma preserves_with_tx:
  assumes "tapefree P" "preserves P m"
  shows "preserves P (with_tx f g m)"
proof (rule preservesI)
  fix s r s'
  assume P: "P s" and run: "with_tx f g m s = (r, s')"
  have st: "preserves P (stmt (goret ()))"
    using assms(1) by (intro preserves_stmt preserves_goret)
  obtain r1 s1 where 1: "stmt (goret ()) s = (r1, s1)" by fastforce
  obtain r2 s2 where 2: "m s1 = (r2, s2)" by fastforce
  obtain r3 s3 where 3: "stmt (goret ()) s2 = (r3, s3)" by fastforce
  have "P s1" "P s2" "P s3"
    using P preservesE [OF st 1] preservesE [OF assms(2) 2] preservesE [OF st 3] by auto
  with run assms(1) show "P s'"
    by (auto simp: with_tx_def 1 2 3 tapefree_def split: sum.splits)
qed

text \<open>Atomicity: a transaction that returns an error changed nothing but the tape.\<close>

lemma with_tx_atomic: "with_tx f g m s = (Inl e, s') \<Longrightarrow> \<exists>t. s' = s\<lparr>tape := t\<rparr>"
  by (auto simp: with_tx_def stmt_def Let_def split: prod.splits sum.splits if_splits)

lemma with_tx_Inr:
  assumes "with_tx f g m s = (Inr x, s')"
  obtains s2 t where "m (s\<lparr>tape := tl (tape s)\<rparr>) = (Inr x, s2)" "s' = s2\<lparr>tape := t\<rparr>"
  using assms
  by (auto simp: with_tx_def stmt_def Let_def split: prod.splits sum.splits if_splits)

lemma stmt_Inr_iff:
  "stmt m s = (Inr x, s') \<longleftrightarrow> \<not> next_fault (tape s) \<and> m (s\<lparr>tape := tl (tape s)\<rparr>) = (Inr x, s')"
  by (auto simp: stmt_def Let_def)

lemma stmt_no_fault [simp]: "\<not> next_fault (tape s) \<Longrightarrow> stmt m s = m (s\<lparr>tape := tl (tape s)\<rparr>)"
  by (simp add: stmt_def)

lemma stmt_fault [simp]: "next_fault (tape s) \<Longrightarrow> stmt m s = (Inl ErrDB, s\<lparr>tape := tl (tape s)\<rparr>)"
  by (simp add: stmt_def)

section \<open>Rows and constraints\<close>

text \<open>
  \<open>clash r r'\<close> says that the rows \<open>r\<close> and \<open>r'\<close> cannot both be in the table: they agree on
  the primary key or on a UNIQUE column. \<open>no_clash\<close> is the integrity of a table.
\<close>

fun no_clash :: "('r \<Rightarrow> 'r \<Rightarrow> bool) \<Rightarrow> 'r list \<Rightarrow> bool" where
  "no_clash clash [] = True"
| "no_clash clash (r # rs) = (list_all (\<lambda>r'. \<not> clash r r') rs \<and> no_clash clash rs)"

definition sql_insert :: "('r \<Rightarrow> 'r \<Rightarrow> bool) \<Rightarrow> 'r \<Rightarrow> 'r list \<Rightarrow> go_error + 'r list" where
  "sql_insert clash r t = (if list_ex (\<lambda>r'. clash r' r) t then Inl ErrConstraint else Inr (t @ [r]))"

text \<open>INSERT ... ON CONFLICT DO NOTHING.\<close>

definition sql_insert_ignore :: "('r \<Rightarrow> 'r \<Rightarrow> bool) \<Rightarrow> 'r \<Rightarrow> 'r list \<Rightarrow> 'r list" where
  "sql_insert_ignore clash r t = (if list_ex (\<lambda>r'. clash r' r) t then t else t @ [r])"

text \<open>INSERT ... ON CONFLICT DO UPDATE SET ...: \<open>upd old\<close> is the conflicting row updated.\<close>

definition sql_upsert :: "('r \<Rightarrow> 'r \<Rightarrow> bool) \<Rightarrow> ('r \<Rightarrow> 'r) \<Rightarrow> 'r \<Rightarrow> 'r list \<Rightarrow> 'r list" where
  "sql_upsert clash upd r t =
     (if list_ex (\<lambda>r'. clash r' r) t then map (\<lambda>r'. if clash r' r then upd r' else r') t
      else t @ [r])"

text \<open>UPDATE ... SET ... WHERE, refused when it would break a constraint; the result has the
  number of affected rows.\<close>

definition sql_update :: "('r \<Rightarrow> 'r \<Rightarrow> bool) \<Rightarrow> ('r \<Rightarrow> bool) \<Rightarrow> ('r \<Rightarrow> 'r) \<Rightarrow> 'r list \<Rightarrow>
    go_error + nat \<times> 'r list" where
  "sql_update clash p f t =
     (let t' = map (\<lambda>r. if p r then f r else r) t
      in if no_clash clash t' then Inr (length (filter p t), t') else Inl ErrConstraint)"

definition sql_delete :: "('r \<Rightarrow> bool) \<Rightarrow> 'r list \<Rightarrow> nat \<times> 'r list" where
  "sql_delete p t = (length (filter p t), filter (\<lambda>r. \<not> p r) t)"

subsection \<open>Constraints are kept\<close>

lemma no_clash_append:
  "no_clash c (xs @ ys) \<longleftrightarrow> no_clash c xs \<and> no_clash c ys \<and> (\<forall>x\<in>set xs. \<forall>y\<in>set ys. \<not> c x y)"
  by (induction xs) (auto simp: list_all_iff)

lemma no_clash_filter [simp]: "no_clash c t \<Longrightarrow> no_clash c (filter p t)"
  by (induction t) (auto simp: list_all_iff)

lemma no_clash_map:
  "(\<And>r r'. c (f r) (f r') \<Longrightarrow> c r r') \<Longrightarrow> no_clash c t \<Longrightarrow> no_clash c (map f t)"
  by (induction t) (auto simp: list_all_iff)

lemma no_clash_key: "no_clash (\<lambda>r r'. k r = k r') t \<longleftrightarrow> distinct (map k t)"
  by (induction t) (auto simp: list_all_iff)

lemma no_clash_insert:
  "sql_insert c r t = Inr t' \<Longrightarrow> no_clash c t \<Longrightarrow> no_clash c t'"
  by (auto simp: sql_insert_def no_clash_append list_ex_iff split: if_splits)

lemma no_clash_insert_ignore [simp]: "no_clash c t \<Longrightarrow> no_clash c (sql_insert_ignore c r t)"
  by (auto simp: sql_insert_ignore_def no_clash_append list_ex_iff)

lemma no_clash_update: "sql_update c p f t = Inr (n, t') \<Longrightarrow> no_clash c t'"
  by (auto simp: sql_update_def Let_def split: if_splits)

lemma no_clash_upsert_key:
  assumes "distinct (map k t)" "\<And>r'. k r' = k r \<Longrightarrow> k (upd r') = k r"
  shows "distinct (map k (sql_upsert (\<lambda>a b. k a = k b) upd r t))"
proof -
  have "map k (map (\<lambda>r'. if k r' = k r then upd r' else r') t) = map k t"
    using assms(2) by simp
  then show ?thesis
    using assms(1) by (auto simp: sql_upsert_def list_ex_iff simp del: map_map)
qed

section \<open>Lookups by key\<close>

lemma find_filter_eq: "find q (filter p t) = find (\<lambda>r. p r \<and> q r) t"
  by (induction t) auto

lemma find_append: "find p (xs @ ys) = (case find p xs of None \<Rightarrow> find p ys | Some x \<Rightarrow> Some x)"
  by (induction xs) auto

lemma find_cong: "(\<And>r. r \<in> set t \<Longrightarrow> p r = q r) \<Longrightarrow> find p t = find q t"
  by (induction t) auto

lemma find_SomeD: "find p t = Some r \<Longrightarrow> r \<in> set t \<and> p r"
  by (induction t) (auto split: if_splits)

lemma find_NoneD: "find p t = None \<Longrightarrow> r \<in> set t \<Longrightarrow> \<not> p r"
  by (induction t) (auto split: if_splits)

lemma find_key_unique:
  assumes "distinct (map k t)" "r \<in> set t"
  shows "find (\<lambda>x. k x = k r) t = Some r"
  using assms by (induction t) (auto simp: image_iff)

lemma find_map_update:
  assumes "\<And>r. r \<in> set t \<Longrightarrow> q (if p r then f r else r) = q r"
  shows "find q (map (\<lambda>r. if p r then f r else r) t) =
    map_option (\<lambda>r. if p r then f r else r) (find q t)"
  using assms by (induction t) auto

section \<open>Statements on one table of a connection\<close>

text \<open>
  \<open>get\<close> and \<open>upd\<close> are the selector and the update of the table's record field.
\<close>

definition exec_insert where
  "exec_insert get upd clash r = stmt (\<lambda>s. case sql_insert clash r (get s) of
     Inl e \<Rightarrow> (Inl e, s) | Inr t \<Rightarrow> (Inr (1::nat), upd (\<lambda>_. t) s))"

definition exec_insert_ignore where
  "exec_insert_ignore upd clash r = stmt (\<lambda>s. (Inr (), upd (sql_insert_ignore clash r) s))"

definition exec_upsert where
  "exec_upsert upd clash f r = stmt (\<lambda>s. (Inr (), upd (sql_upsert clash f r) s))"

definition exec_update where
  "exec_update get upd clash p f = stmt (\<lambda>s. case sql_update clash p f (get s) of
     Inl e \<Rightarrow> (Inl e, s) | Inr (n, t) \<Rightarrow> (Inr n, upd (\<lambda>_. t) s))"

definition exec_delete where
  "exec_delete get upd p = stmt (\<lambda>s. (Inr (fst (sql_delete p (get s))),
     upd (\<lambda>_. snd (sql_delete p (get s))) s))"

definition query_row where
  "query_row f = stmt (\<lambda>s. (Inr (f s), s))"

lemma preserves_query_row [preserves_intros]: "tapefree P \<Longrightarrow> preserves P (query_row f)"
  unfolding query_row_def by (rule preserves_stmt) (simp_all add: preserves_def)

lemmas exec_defs = exec_insert_def exec_insert_ignore_def exec_upsert_def exec_update_def
  exec_delete_def query_row_def

end
