(* ===== verification/GoStd.thy ===== *)
theory GoStd
  imports Prelude "HOL-Library.Word"
begin

text \<open>
  The parts of Go's standard library whose results the code's behaviour depends on: decimal
  numbers (\<^verbatim>\<open>fmt "%d"\<close>, \<^verbatim>\<open>fmt.Sscanf "%d"\<close>, \<^verbatim>\<open>strconv\<close>), \<^verbatim>\<open>strings.Split\<close> and
  \<^verbatim>\<open>strings.Join\<close>, and the encodings base64 (\<^verbatim>\<open>RawStdEncoding\<close>), base32 and hex, which are one
  function here: the bits of the input, most significant first, cut into groups that index an
  alphabet. The round trip of the encodings is proved once, for every group size and alphabet.
\<close>

type_synonym bytes = "8 word list"

definition bytes_of :: "string \<Rightarrow> bytes" where
  "bytes_of s = map of_char s"

definition string_of :: "bytes \<Rightarrow> string" where
  "string_of b = map (\<lambda>w. char_of (unat w)) b"

section \<open>Splitting and joining\<close>

fun split_on :: "char \<Rightarrow> string \<Rightarrow> string list" where
  "split_on c [] = [[]]"
| "split_on c (x # xs) =
     (if x = c then [] # split_on c xs
      else (case split_on c xs of [] \<Rightarrow> [[x]] | p # ps \<Rightarrow> (x # p) # ps))"

fun join_with :: "string \<Rightarrow> string list \<Rightarrow> string" where
  "join_with sep [] = []"
| "join_with sep [s] = s"
| "join_with sep (s # ss) = s @ sep @ join_with sep ss"

lemma split_on_notin: "c \<notin> set s \<Longrightarrow> split_on c s = [s]"
  by (induction s) auto

lemma split_on_append: "c \<notin> set s \<Longrightarrow> split_on c (s @ c # t) = s # split_on c t"
  by (induction s) auto

section \<open>Decimal numbers\<close>

definition digit :: "nat \<Rightarrow> char" where
  "digit d = char_of (48 + d)"

fun dec_string :: "nat \<Rightarrow> string" where
  "dec_string n = (if n < 10 then [digit n] else dec_string (n div 10) @ [digit (n mod 10)])"

declare dec_string.simps [simp del]

definition is_digit :: "char \<Rightarrow> bool" where
  "is_digit c \<longleftrightarrow> 48 \<le> (of_char c :: nat) \<and> (of_char c :: nat) \<le> 57"

definition digits_value :: "string \<Rightarrow> nat" where
  "digits_value s = foldl (\<lambda>v c. 10 * v + (of_char c - 48)) 0 s"

definition int64 :: "int \<Rightarrow> int option" where
  "int64 v = (if - (2 ^ 63) \<le> v \<and> v < 2 ^ 63 then Some v else None)"

text \<open>\<^verbatim>\<open>strconv.ParseInt(s, 10, 64)\<close> and \<^verbatim>\<open>strconv.Atoi\<close>: an optional sign, at least one digit, nothing
  else, in range.\<close>

definition parse_digits :: "bool \<Rightarrow> string \<Rightarrow> int option" where
  "parse_digits neg ds = (if ds = [] \<or> \<not> list_all is_digit ds then None
     else int64 (if neg then - int (digits_value ds) else int (digits_value ds)))"

definition ParseInt :: "string \<Rightarrow> int option" where
  "ParseInt s = (case s of
     [] \<Rightarrow> None
   | c # cs \<Rightarrow> if c = CHR ''-'' then parse_digits True cs
       else if c = CHR ''+'' then parse_digits False cs else parse_digits False s)"

text \<open>\<^verbatim>\<open>fmt.Sscanf(s, "%d", &n)\<close>: leading spaces and an optional sign, then the longest run of
  digits; whatever follows is not looked at.\<close>

definition Sscanf_d :: "string \<Rightarrow> int option" where
  "Sscanf_d s = (let t = dropWhile (\<lambda>c. c = CHR '' '') s in case t of
     [] \<Rightarrow> None
   | c # cs \<Rightarrow> if c = CHR ''-'' then parse_digits True (takeWhile is_digit cs)
       else if c = CHR ''+'' then parse_digits False (takeWhile is_digit cs)
       else parse_digits False (takeWhile is_digit t))"

lemma of_char_digit [simp]: "d < 10 \<Longrightarrow> of_char (digit d) = (48 + d :: nat)"
  by (simp add: digit_def of_char_of)

lemma is_digit_digit [simp]: "d < 10 \<Longrightarrow> is_digit (digit d)"
  by (simp add: is_digit_def)

lemma dec_string_digits: "list_all is_digit (dec_string n) \<and> dec_string n \<noteq> []"
proof (induction n rule: dec_string.induct)
  case (1 n)
  then show ?case by (subst (1 2) dec_string.simps) auto
qed

lemma digits_value_snoc: "digits_value (s @ [c]) = 10 * digits_value s + (of_char c - 48)"
  by (simp add: digits_value_def)

lemma digits_value_dec_string [simp]: "digits_value (dec_string n) = n"
proof (induction n rule: dec_string.induct)
  case (1 n)
  show ?case
  proof (cases "n < 10")
    case True
    then show ?thesis by (subst dec_string.simps) (simp add: digits_value_def)
  next
    case False
    with "1.IH" have "digits_value (dec_string (n div 10)) = n div 10" by simp
    with False show ?thesis by (subst dec_string.simps) (simp add: digits_value_snoc)
  qed
qed

lemma Sscanf_dec_string:
  assumes "n < 2 ^ 63"
  shows "Sscanf_d (dec_string n) = Some (int n)"
proof -
  have all: "list_all is_digit (dec_string n)" and ne: "dec_string n \<noteq> []"
    using dec_string_digits by auto
  obtain c cs where d: "dec_string n = c # cs" using ne by (cases "dec_string n") auto
  have c: "is_digit c" using all d by simp
  have c': "c \<noteq> CHR '' ''" "c \<noteq> CHR ''-''" "c \<noteq> CHR ''+''"
    using c by (auto simp: is_digit_def)
  have tw: "takeWhile is_digit (dec_string n) = dec_string n"
    using all by (simp add: takeWhile_eq_all_conv list_all_iff)
  have "Sscanf_d (dec_string n) = parse_digits False (dec_string n)"
    using c' tw by (simp add: Sscanf_d_def d)
  also have "\<dots> = int64 (int n)"
    using all ne by (simp add: parse_digits_def)
  finally show ?thesis using assms by (simp add: int64_def)
qed

section \<open>Bits\<close>

definition bits_of :: "nat \<Rightarrow> 'a::semiring_bits \<Rightarrow> bool list" where
  "bits_of n v = map (bit v) (rev [0..<n])"

definition of_bits :: "bool list \<Rightarrow> 'a::semiring_bit_operations" where
  "of_bits bs = horner_sum of_bool 2 (rev bs)"

lemma length_bits_of [simp]: "length (bits_of n v) = n"
  by (simp add: bits_of_def)

lemma of_bits_bits_of [simp]: "of_bits (bits_of n v) = take_bit n v"
  by (simp add: of_bits_def bits_of_def rev_map horner_sum_bit_eq_take_bit)

lemma of_bits_byte [simp]: "of_bits (bits_of 8 (w :: 8 word)) = w"
  by (simp add: take_bit_word_eq_self)

lemma bits_of_of_bits: "length bs = n \<Longrightarrow> bits_of n (of_bits bs :: nat) = bs"
  by (rule nth_equalityI)
     (auto simp: bits_of_def of_bits_def rev_nth bit_horner_sum_bit_iff)

lemma of_bits_less: "(of_bits bs :: nat) < 2 ^ length bs"
  using horner_sum_of_bool_2_less [of "rev bs"] by (simp add: of_bits_def)

section \<open>Cutting a list into groups\<close>

fun chunks :: "nat \<Rightarrow> 'a list \<Rightarrow> 'a list list" where
  "chunks n [] = []"
| "chunks n (x # xs) = take (max 1 n) (x # xs) # chunks n (drop (max 1 n) (x # xs))"

declare chunks.simps(2) [simp del]

lemma chunks_nonempty: "xs \<noteq> [] \<Longrightarrow> 0 < n \<Longrightarrow> chunks n xs = take n xs # chunks n (drop n xs)"
  by (cases xs) (simp_all add: chunks.simps max_def)

lemma concat_chunks [simp]: "concat (chunks n xs) = xs"
proof (induction n xs rule: chunks.induct)
  case (2 n x xs)
  then show ?case by (simp add: chunks.simps)
qed simp

lemma chunks_append:
  assumes "length g = n" "0 < n"
  shows "chunks n (g @ xs) = g # chunks n xs"
proof -
  have "g @ xs \<noteq> []" using assms by auto
  then show ?thesis using assms by (simp add: chunks_nonempty)
qed

lemma chunks_concat:
  assumes "\<forall>g\<in>set gs. length g = n" "0 < n"
  shows "chunks n (concat gs) = gs"
  using assms by (induction gs) (simp_all add: chunks_append)

lemma chunks_length: "0 < n \<Longrightarrow> g \<in> set (chunks n xs) \<Longrightarrow> 0 < length g \<and> length g \<le> n"
proof (induction n xs rule: chunks.induct)
  case (2 n x xs)
  then show ?case by (auto simp: chunks.simps max_def split: if_splits)
qed simp

lemma length_chunks:
  assumes "0 < n"
  shows "length (chunks n xs) = (length xs + n - 1) div n"
proof (induction xs rule: length_induct)
  case (1 xs)
  consider "xs = []" | "xs \<noteq> []" "length xs \<le> n" | "xs \<noteq> []" "n < length xs" by linarith
  then show ?case
  proof cases
    case 1
    then show ?thesis using assms by simp
  next
    case 2
    have "chunks n xs = [xs]" using 2 assms by (simp add: chunks_nonempty)
    moreover have "(length xs + n - 1) div n = 1"
    proof -
      have e: "length xs + n - 1 = n + (length xs - 1)" and l: "length xs - 1 < n"
        using 2 by (cases xs; simp)+
      show ?thesis unfolding e using l assms by (simp only: div_add_self1 div_less)
    qed
    ultimately show ?thesis by simp
  next
    case 3
    have l: "length (chunks n (drop n xs)) = (length (drop n xs) + n - 1) div n"
      using 1 3 assms by simp
    have e: "length xs + n - 1 = n + (length (drop n xs) + n - 1)" using 3 by simp
    have "length (chunks n xs) = Suc (length (chunks n (drop n xs)))"
      using 3 assms by (simp add: chunks_nonempty [of xs])
    then show ?thesis unfolding e l using assms by (simp only: div_add_self1)
  qed
qed

section \<open>Encodings\<close>

text \<open>\<open>w\<close> bits per character; the last group is filled with zero bits.\<close>

definition pad_to :: "nat \<Rightarrow> bool list \<Rightarrow> bool list" where
  "pad_to w g = g @ replicate (w - length g) False"

definition base_encode :: "nat \<Rightarrow> string \<Rightarrow> bytes \<Rightarrow> string" where
  "base_encode w alphabet bs =
     map (\<lambda>g. alphabet ! of_bits (pad_to w g)) (chunks w (concat (map (bits_of 8) bs)))"

fun index_of :: "char \<Rightarrow> string \<Rightarrow> nat option" where
  "index_of c [] = None"
| "index_of c (x # xs) = (if x = c then Some 0 else map_option Suc (index_of c xs))"

definition base64_alphabet :: string where
  "base64_alphabet = ''ABCDEFGHIJKLMNOPQRSTUVWXYZabcdefghijklmnopqrstuvwxyz0123456789+/''"

definition base32_lower :: string where
  "base32_lower = ''abcdefghijklmnopqrstuvwxyz234567''"

definition hex_alphabet :: string where
  "hex_alphabet = ''0123456789abcdef''"

definition base64_encode :: "bytes \<Rightarrow> string" where
  "base64_encode = base_encode 6 base64_alphabet"

text \<open>\<^verbatim>\<open>strings.ToLower\<close> of the unpadded base32 encoding.\<close>

definition base32_encode_lower :: "bytes \<Rightarrow> string" where
  "base32_encode_lower = base_encode 5 base32_lower"

definition hex_encode :: "bytes \<Rightarrow> string" where
  "hex_encode = base_encode 4 hex_alphabet"

text \<open>\<^verbatim>\<open>RawStdEncoding.DecodeString\<close>: carriage returns and line feeds are skipped, any other character
  outside the alphabet is an error, so is a last group of one character, and the bits that do not
  fill a byte are dropped (the encoding is not strict).\<close>

definition base64_decode :: "string \<Rightarrow> bytes option" where
  "base64_decode s =
     (let t = filter (\<lambda>c. c \<noteq> CHR 0x0A \<and> c \<noteq> CHR 0x0D) s in
      if list_ex (\<lambda>c. index_of c base64_alphabet = None) t \<or> length t mod 4 = 1 then None
      else let bs = concat (map (\<lambda>c. bits_of 6 (the (index_of c base64_alphabet))) t)
           in Some (map of_bits (chunks 8 (take (8 * (length bs div 8)) bs))))"

text \<open>\<^verbatim>\<open>StdEncoding.DecodeString\<close>: the same with padding to a multiple of four.\<close>

definition base64_std_decode :: "string \<Rightarrow> bytes option" where
  "base64_std_decode s =
     (let t = filter (\<lambda>c. c \<noteq> CHR 0x0A \<and> c \<noteq> CHR 0x0D) s;
          n = length (takeWhile (\<lambda>c. c = CHR ''='') (rev t))
      in if length t mod 4 \<noteq> 0 \<or> 2 < n then None else base64_decode (take (length t - n) t))"

text \<open>\<^verbatim>\<open>RawURLEncoding.EncodeToString\<close>.\<close>

definition base64url_encode :: "bytes \<Rightarrow> string" where
  "base64url_encode = base_encode 6 (take 62 base64_alphabet @ ''-_'')"

lemma index_of_nth:
  "distinct xs \<Longrightarrow> i < length xs \<Longrightarrow> index_of (xs ! i) xs = Some i"
proof (induction xs arbitrary: i)
  case Nil
  then show ?case by simp
next
  case (Cons x xs)
  then show ?case by (cases i) auto
qed

lemma base64_alphabet_facts: "distinct base64_alphabet" "length base64_alphabet = 64"
  "CHR ''$'' \<notin> set base64_alphabet" "CHR 0x0A \<notin> set base64_alphabet" "CHR 0x0D \<notin> set base64_alphabet"
  by (simp_all add: base64_alphabet_def)

lemma length_bits_bytes [simp]: "length (concat (map (bits_of 8) bs)) = 8 * length bs"
  by (induction bs) auto

lemma base_encode_chars:
  assumes "length alphabet = 2 ^ w" "0 < w"
  shows "set (base_encode w alphabet bs) \<subseteq> set alphabet"
proof -
  have "alphabet ! of_bits (pad_to w g) \<in> set alphabet"
    if "g \<in> set (chunks w (concat (map (bits_of 8) bs)))" for g
  proof -
    have "length (pad_to w g) = w"
      using chunks_length [OF assms(2) that] by (simp add: pad_to_def)
    then have "(of_bits (pad_to w g) :: nat) < 2 ^ w"
      using of_bits_less [of "pad_to w g"] by simp
    then show ?thesis using assms(1) by simp
  qed
  then show ?thesis by (auto simp: base_encode_def)
qed

lemma length_base_encode:
  "0 < w \<Longrightarrow> length (base_encode w alphabet bs) = (8 * length bs + w - 1) div w"
  by (simp add: base_encode_def length_chunks)

text \<open>Padding the last group of \<open>chunks\<close> appends fewer than \<open>w\<close> zero bits to the whole.\<close>

lemma concat_padded_chunks:
  assumes "0 < w"
  shows "\<exists>k<w. concat (map (pad_to w) (chunks w xs)) = xs @ replicate k False"
proof (induction xs rule: length_induct)
  case (1 xs)
  consider "xs = []" | "xs \<noteq> []" "length xs \<le> w" | "xs \<noteq> []" "w < length xs" by linarith
  then show ?case
  proof cases
    case 1
    then show ?thesis using assms by auto
  next
    case 2
    then have "chunks w xs = [xs]" using assms by (simp add: chunks_nonempty)
    then show ?thesis using 2 assms by (auto simp: pad_to_def)
  next
    case 3
    then have "length (drop w xs) < length xs" using assms by simp
    then obtain k where "k < w" "concat (map (pad_to w) (chunks w (drop w xs))) = drop w xs @ replicate k False"
      using "1.IH" by blast
    moreover have "pad_to w (take w xs) = take w xs" using 3 by (simp add: pad_to_def)
    moreover have "take w xs @ drop w xs @ replicate k False = xs @ replicate k False"
      by (metis append.assoc append_take_drop_id)
    ultimately show ?thesis using 3 assms by (auto simp: chunks_nonempty)
  qed
qed

text \<open>Decoding what was encoded gives the bytes back, and nothing else decodes badly.\<close>

lemma base64_roundtrip: "base64_decode (base64_encode bs) = Some bs"
proof -
  let ?bits = "concat (map (bits_of 8) bs)" and ?gs = "chunks 6 (concat (map (bits_of 8) bs))"
  let ?s = "base64_encode bs"
  have chars: "set ?s \<subseteq> set base64_alphabet"
    unfolding base64_encode_def by (rule base_encode_chars) (simp_all add: base64_alphabet_facts)
  then have filt: "filter (\<lambda>c. c \<noteq> CHR 0x0A \<and> c \<noteq> CHR 0x0D) ?s = ?s"
    using base64_alphabet_facts(4,5) by (intro filter_True) auto
  have less: "(of_bits (pad_to 6 g) :: nat) < 64" and len: "length (pad_to 6 g) = 6"
    if "g \<in> set ?gs" for g
  proof -
    show "length (pad_to 6 g) = 6" using chunks_length [OF _ that] by (simp add: pad_to_def)
    then show "(of_bits (pad_to 6 g) :: nat) < 64" using of_bits_less [of "pad_to 6 g"] by simp
  qed
  have idx: "index_of (base64_alphabet ! of_bits (pad_to 6 g)) base64_alphabet = Some (of_bits (pad_to 6 g))"
    if "g \<in> set ?gs" for g
    using less [OF that] by (intro index_of_nth) (simp_all add: base64_alphabet_facts)
  have "map (\<lambda>c. bits_of 6 (the (index_of c base64_alphabet))) ?s = map (pad_to 6) ?gs"
    unfolding base64_encode_def base_encode_def using idx len
    by (simp add: comp_def bits_of_of_bits cong: map_cong)
  then obtain k where k: "k < 6"
    "concat (map (\<lambda>c. bits_of 6 (the (index_of c base64_alphabet))) ?s) = ?bits @ replicate k False"
    using concat_padded_chunks [of 6 ?bits] by auto
  have "length ?s = (8 * length bs + 5) div 6"
    by (simp add: base64_encode_def length_base_encode)
  then have mod4: "length ?s mod 4 \<noteq> 1" by presburger
  have ex: "\<not> list_ex (\<lambda>c. index_of c base64_alphabet = None) ?s"
    using idx by (auto simp: base64_encode_def base_encode_def list_ex_iff)
  have "8 * ((8 * length bs + k) div 8) = 8 * length bs" using k(1) by simp
  then have "take (8 * (length (?bits @ replicate k False) div 8)) (?bits @ replicate k False) = ?bits"
    by simp
  moreover have "chunks 8 ?bits = map (bits_of 8) bs"
    by (rule chunks_concat) auto
  ultimately show ?thesis
    using filt ex mod4 k(2) by (simp add: base64_decode_def Let_def comp_def take_bit_word_eq_self)
qed

lemma string_of_bytes_of [simp]: "string_of (bytes_of s) = s"
proof -
  have "char_of (unat (of_char c :: 8 word)) = c" for c :: char
  proof -
    have "(of_char c :: nat) < 256" by (rule nat_of_char_less_256)
    then have "unat (of_nat (of_char c) :: 8 word) = of_char c"
      by (simp add: unsigned_of_nat take_bit_nat_eq_self)
    then show ?thesis by (simp add: of_nat_of_char)
  qed
  then show ?thesis by (simp add: bytes_of_def string_of_def comp_def)
qed

lemma base64_no_dollar: "CHR ''$'' \<notin> set (base64_encode bs)"
  using base_encode_chars [of base64_alphabet 6 bs] base64_alphabet_facts
  by (auto simp: base64_encode_def)

lemma dec_string_no_dollar: "CHR ''$'' \<notin> set (dec_string n)"
  using dec_string_digits [of n] by (auto simp: list_all_iff is_digit_def)

end
