(* ===== verification/ActorStore.thy ===== *)
theory ActorStore
  imports Sql GoStd
begin

text \<open>
  \<^verbatim>\<open>internal/actorstore\<close>: the per-actor database (\<^verbatim>\<open>store.go\<close>, \<^verbatim>\<open>blockstore.go\<close>), the blob files
  beside it, and the manager that opens and caches these stores (\<^verbatim>\<open>manager.go\<close>).

  A \<^verbatim>\<open>cid.Cid\<close> is its canonical text (\<^verbatim>\<open>c.String()\<close>), which is what every table holds, so
  decoding a CID read from a table is the identity. Opening files and directories takes from the
  same failure tape as the statements do.
\<close>

type_synonym cid = string
type_synonym block = "cid \<times> bytes"

record repo_root_row =
  rrCommitCID :: cid
  rrRev :: string

record record_row =
  recCollection :: string
  recRKey :: string
  recCID :: cid

record blob_row =
  blCID :: cid
  blMime :: string
  blSize :: int

record blob_ref_row =
  brCID :: cid
  brCollection :: string
  brRKey :: string

record actordb = dbconn +
  blocks :: "block list"
  repo_root :: "repo_root_row option"
  records :: "record_row list"
  blobs :: "blob_row list"
  blob_refs :: "blob_ref_row list"
  preferences :: "string option"
  blob_files :: "(string \<times> bytes) list"

definition empty_actordb :: "bool list \<Rightarrow> actordb" where
  "empty_actordb t = \<lparr>tape = t, blocks = [], repo_root = None, records = [], blobs = [],
     blob_refs = [], preferences = None, blob_files = []\<rparr>"

text \<open>Primary keys.\<close>

definition block_clash :: "block \<Rightarrow> block \<Rightarrow> bool" where
  "block_clash a b \<longleftrightarrow> fst a = fst b"

definition rec_key :: "record_row \<Rightarrow> string \<times> string" where
  "rec_key r = (recCollection r, recRKey r)"

definition record_clash :: "record_row \<Rightarrow> record_row \<Rightarrow> bool" where
  "record_clash a b \<longleftrightarrow> rec_key a = rec_key b"

definition blob_clash :: "blob_row \<Rightarrow> blob_row \<Rightarrow> bool" where
  "blob_clash a b \<longleftrightarrow> blCID a = blCID b"

definition blob_ref_clash :: "blob_ref_row \<Rightarrow> blob_ref_row \<Rightarrow> bool" where
  "blob_ref_clash a b \<longleftrightarrow> a = b"

lemmas actor_clash_defs = block_clash_def record_clash_def blob_clash_def blob_ref_clash_def

section \<open>The block store\<close>

text \<open>\<^verbatim>\<open>sqlBlockstore\<close> over the connection or the transaction, which see the same tables.\<close>

definition bs_Get :: "cid \<Rightarrow> (actordb, bytes) op" where
  "bs_Get c s = (case query_row (\<lambda>d. map_of (blocks d) c) s of
     (Inl e, s') \<Rightarrow> (Inl (Wrapf (''reading block '' @ c) e), s')
   | (Inr None, s') \<Rightarrow> (Inl ActorErrNotFound, s')
   | (Inr (Some b), s') \<Rightarrow> (Inr b, s'))"

definition bs_Has :: "cid \<Rightarrow> (actordb, bool) op" where
  "bs_Has c = query_row (\<lambda>d. map_of (blocks d) c \<noteq> None)"

definition bs_GetSize :: "cid \<Rightarrow> (actordb, nat) op" where
  "bs_GetSize c = gobind (bs_Get c) (\<lambda>b. goret (length b))"

definition bs_Put :: "block \<Rightarrow> (actordb, unit) op" where
  "bs_Put blk = wrapf (''writing block '' @ fst blk) (exec_insert_ignore blocks_update block_clash blk)"

definition bs_PutMany :: "block list \<Rightarrow> (actordb, unit) op" where
  "bs_PutMany = goeach bs_Put"

definition bs_DeleteBlock :: "cid \<Rightarrow> (actordb, unit) op" where
  "bs_DeleteBlock c = gobind (exec_delete blocks blocks_update (\<lambda>b. fst b = c)) (\<lambda>_. goret ())"

section \<open>Repo root, record index and blob tables\<close>

definition GetRepoRoot :: "(actordb, repo_root_row) op" where
  "GetRepoRoot s = (case query_row repo_root s of
     (Inl e, s') \<Rightarrow> (Inl (Wrapf ''getting repo root'' e), s')
   | (Inr None, s') \<Rightarrow> (Inl ActorErrNotFound, s')
   | (Inr (Some r), s') \<Rightarrow> (Inr r, s'))"

definition SetRepoRoot :: "cid \<Rightarrow> string \<Rightarrow> (actordb, unit) op" where
  "SetRepoRoot c rv = wrapf ''setting repo root''
     (stmt (\<lambda>d. (Inr (), d\<lparr>repo_root := Some \<lparr>rrCommitCID = c, rrRev = rv\<rparr>\<rparr>)))"

definition PutRecordIndex :: "string \<Rightarrow> string \<Rightarrow> cid \<Rightarrow> (actordb, unit) op" where
  "PutRecordIndex collection rkey c = wrapf ''indexing record''
     (exec_upsert records_update record_clash (\<lambda>r. r\<lparr>recCID := c\<rparr>)
        \<lparr>recCollection = collection, recRKey = rkey, recCID = c\<rparr>)"

definition DeleteRecordIndex :: "string \<Rightarrow> string \<Rightarrow> (actordb, unit) op" where
  "DeleteRecordIndex collection rkey = gobind (wrapf ''deleting record index''
     (exec_delete records records_update (\<lambda>r. recCollection r = collection \<and> recRKey r = rkey)))
     (\<lambda>_. goret ())"

definition GetRecordCID :: "string \<Rightarrow> string \<Rightarrow> (actordb, cid) op" where
  "GetRecordCID collection rkey s =
     (case query_row (\<lambda>d. find (\<lambda>r. recCollection r = collection \<and> recRKey r = rkey) (records d)) s of
        (Inl e, s') \<Rightarrow> (Inl (Wrapf ''getting record'' e), s')
      | (Inr None, s') \<Rightarrow> (Inl ActorErrNotFound, s')
      | (Inr (Some r), s') \<Rightarrow> (Inr (recCID r), s'))"

text \<open>LIMIT of SQLite: a negative limit is no limit.\<close>

definition sql_limit :: "int \<Rightarrow> 'r list \<Rightarrow> 'r list" where
  "sql_limit n rs = (if n < 0 then rs else take (nat n) rs)"

definition ListRecords :: "string \<Rightarrow> string \<Rightarrow> int \<Rightarrow> bool \<Rightarrow> (actordb, record_row list) op" where
  "ListRecords collection cursor limit reverse = wrapf ''listing records'' (query_row (\<lambda>d.
     let rs = filter (\<lambda>r. recCollection r = collection \<and>
                (cursor = '''' \<or> (if reverse then recRKey r < cursor else cursor < recRKey r))) (records d);
         sorted = sort_key recRKey rs
     in sql_limit limit (if reverse then rev sorted else sorted)))"

definition PutBlobMeta :: "cid \<Rightarrow> string \<Rightarrow> int \<Rightarrow> (actordb, unit) op" where
  "PutBlobMeta c mime sz = wrapf ''storing blob metadata''
     (exec_insert_ignore blobs_update blob_clash \<lparr>blCID = c, blMime = mime, blSize = sz\<rparr>)"

definition GetBlobMeta :: "cid \<Rightarrow> (actordb, blob_row) op" where
  "GetBlobMeta c s = (case query_row (\<lambda>d. find (\<lambda>b. blCID b = c) (blobs d)) s of
     (Inl e, s') \<Rightarrow> (Inl (Wrapf ''getting blob metadata'' e), s')
   | (Inr None, s') \<Rightarrow> (Inl ActorErrNotFound, s')
   | (Inr (Some b), s') \<Rightarrow> (Inr b, s'))"

definition AddBlobRef :: "cid \<Rightarrow> string \<Rightarrow> string \<Rightarrow> (actordb, unit) op" where
  "AddBlobRef c collection rkey = wrapf ''adding blob ref''
     (exec_insert_ignore blob_refs_update blob_ref_clash
        \<lparr>brCID = c, brCollection = collection, brRKey = rkey\<rparr>)"

definition ClearBlobRefsForRecord :: "string \<Rightarrow> string \<Rightarrow> (actordb, unit) op" where
  "ClearBlobRefsForRecord collection rkey = gobind (wrapf ''clearing blob refs''
     (exec_delete blob_refs blob_refs_update (\<lambda>r. brCollection r = collection \<and> brRKey r = rkey)))
     (\<lambda>_. goret ())"

definition BlobRefCount :: "cid \<Rightarrow> (actordb, nat) op" where
  "BlobRefCount c = query_row (\<lambda>d. length (filter (\<lambda>r. brCID r = c) (blob_refs d)))"

section \<open>Blob files\<close>

text \<open>Files of the blob directory by name; the write goes to a temporary name and is renamed.\<close>

definition put_file :: "string \<Rightarrow> bytes \<Rightarrow> actordb \<Rightarrow> actordb" where
  "put_file name content d = d\<lparr>blob_files := (name, content) # filter (\<lambda>f. fst f \<noteq> name) (blob_files d)\<rparr>"

definition rename_file :: "string \<Rightarrow> string \<Rightarrow> actordb \<Rightarrow> actordb" where
  "rename_file old new d = (case map_of (blob_files d) old of
     None \<Rightarrow> d
   | Some content \<Rightarrow> put_file new content (d\<lparr>blob_files := filter (\<lambda>f. fst f \<noteq> old) (blob_files d)\<rparr>))"

definition WriteBlobFile :: "cid \<Rightarrow> bytes \<Rightarrow> (actordb, unit) op" where
  "WriteBlobFile c content =
     gobind (wrapf ''writing blob'' (stmt (\<lambda>d. (Inr (), put_file (c @ ''.tmp'') content d)))) (\<lambda>_.
     wrapf ''finalizing blob'' (stmt (\<lambda>d. (Inr (), rename_file (c @ ''.tmp'') c d))))"

definition ReadBlobFile :: "cid \<Rightarrow> (actordb, bytes) op" where
  "ReadBlobFile c = gobind (query_row (\<lambda>d. map_of (blob_files d) c))
     (\<lambda>f. case f of None \<Rightarrow> gofail ActorErrNotFound | Some b \<Rightarrow> goret b)"

text \<open>\<^verbatim>\<open>os.Stat\<close>: any error counts as absent.\<close>

definition BlobFileExists :: "actordb \<Rightarrow> cid \<Rightarrow> bool" where
  "BlobFileExists d c \<longleftrightarrow> map_of (blob_files d) c \<noteq> None"

section \<open>Listings and counts\<close>

definition AllBlocks :: "(actordb, block list) op" where
  "AllBlocks = wrapf ''listing blocks'' (query_row blocks)"

definition ListBlobCIDs :: "string \<Rightarrow> int \<Rightarrow> (actordb, cid list) op" where
  "ListBlobCIDs cursor limit = wrapf ''listing blobs'' (query_row (\<lambda>d.
     sql_limit limit (sort (filter (\<lambda>c. cursor = '''' \<or> cursor < c) (map blCID (blobs d))))))"

definition GetPreferences :: "(actordb, string) op" where
  "GetPreferences s = (case query_row preferences s of
     (Inl e, s') \<Rightarrow> (Inl (Wrapf ''getting preferences'' e), s')
   | (Inr None, s') \<Rightarrow> (Inl ActorErrNotFound, s')
   | (Inr (Some v), s') \<Rightarrow> (Inr v, s'))"

definition SetPreferences :: "string \<Rightarrow> (actordb, unit) op" where
  "SetPreferences value = wrapf ''setting preferences''
     (stmt (\<lambda>d. (Inr (), d\<lparr>preferences := Some value\<rparr>)))"

text \<open>The five deletes run inside the caller's transaction.\<close>

definition ClearRepo :: "(actordb, unit) op" where
  "ClearRepo =
     gobind (wrapf ''clearing blocks'' (exec_delete blocks blocks_update (\<lambda>_. True))) (\<lambda>_.
     gobind (wrapf ''clearing repo_root'' (stmt (\<lambda>d. (Inr (), d\<lparr>repo_root := None\<rparr>)))) (\<lambda>_.
     gobind (wrapf ''clearing records'' (exec_delete records records_update (\<lambda>_. True))) (\<lambda>_.
     gobind (wrapf ''clearing blobs'' (exec_delete blobs blobs_update (\<lambda>_. True))) (\<lambda>_.
     gobind (wrapf ''clearing blob_refs'' (exec_delete blob_refs blob_refs_update (\<lambda>_. True))) (\<lambda>_.
     goret ())))))"

definition CountBlocks :: "(actordb, nat) op" where
  "CountBlocks = query_row (\<lambda>d. length (blocks d))"

definition CountRecords :: "(actordb, nat) op" where
  "CountRecords = query_row (\<lambda>d. length (records d))"

definition CountBlobs :: "(actordb, nat) op" where
  "CountBlobs = query_row (\<lambda>d. length (blobs d))"

definition MissingBlobs :: "(actordb, cid list) op" where
  "MissingBlobs = wrapf ''listing blobs'' (query_row (\<lambda>d.
     filter (\<lambda>c. \<not> BlobFileExists d c) (sort (map blCID (blobs d)))))"

definition MissingBlobRefs :: "(actordb, blob_ref_row list) op" where
  "MissingBlobRefs = wrapf ''listing blob refs'' (query_row (\<lambda>d.
     filter (\<lambda>r. \<not> BlobFileExists d (brCID r)) (sort_key brCID (blob_refs d))))"

definition CountImportedBlobs :: "(actordb, int) op" where
  "CountImportedBlobs = gobind CountBlobs (\<lambda>total. gobind MissingBlobs (\<lambda>missing.
     goret (int total - int (length missing))))"

section \<open>Paths\<close>

fun clean_step :: "bool \<Rightarrow> string \<Rightarrow> string list \<Rightarrow> string list" where
  "clean_step rooted part out =
     (if part = '''' \<or> part = ''.'' then out
      else if part = ''..'' then
        (case out of
           [] \<Rightarrow> if rooted then [] else [''..'']
         | p # ps \<Rightarrow> if p = ''..'' then ''..'' # out else ps)
      else part # out)"

text \<open>\<^verbatim>\<open>filepath.Join\<close> cleans the joined path: the list of its components, innermost last.\<close>

definition clean_path :: "bool \<Rightarrow> string list \<Rightarrow> string list" where
  "clean_path rooted parts = rev (fold (clean_step rooted) parts [])"

definition path_join :: "string list \<Rightarrow> string list" where
  "path_join elems = (let ne = filter (\<lambda>e. e \<noteq> '''') elems
     in clean_path (ne \<noteq> [] \<and> has_prefix (hd ne) ''/'') (concat (map (split_on (CHR ''/'')) ne)))"

definition contains :: "string \<Rightarrow> string \<Rightarrow> bool" where
  "contains s sub \<longleftrightarrow> list_ex (\<lambda>i. take (length sub) (drop i s) = sub) [0..<Suc (length s)]"

text \<open>\<open>parse_did\<close> is \<^verbatim>\<open>syntax.ParseDID\<close> of the indigo library.\<close>

definition validDID :: "(string \<Rightarrow> go_error + string) \<Rightarrow> string \<Rightarrow> go_error + unit" where
  "validDID parse_did did = (case parse_did did of
     Inl e \<Rightarrow> Inl (Wrapf ''invalid did'' e)
   | Inr _ \<Rightarrow> if CHR ''/'' \<in> set did \<or> CHR 0x5C \<in> set did \<or> did = ''.'' \<or> did = ''..'' \<or> contains did ''..''
       then Inl (ErrMsg ''invalid did: contains path separators'') else Inr ())"

definition actorDBPath :: "string \<Rightarrow> string \<Rightarrow> string list" where
  "actorDBPath dataDir did = path_join [dataDir, ''actors'', did @ ''.db'']"

definition actorBlobDir :: "string \<Rightarrow> string \<Rightarrow> string list" where
  "actorBlobDir dataDir did = path_join [dataDir, ''blobs'', did]"

section \<open>The manager\<close>

text \<open>
  \<open>disk\<close> holds the database files that exist, \<open>fresh\<close> the failures of the statements on a database file that
  does not exist yet, and \<open>blob_dirs\<close> the blob directories that exist, by
  DID (\<open>actor_paths_stay_inside\<close> in \<open>ActorSpec\<close> shows that the paths of valid DIDs are
  distinct); \<open>cached\<close> are the DIDs with an entry in \<^verbatim>\<open>Manager.stores\<close> and \<open>locks\<close> those with
  one in \<^verbatim>\<open>Manager.locks\<close>.
\<close>

record manager = dbconn +
  disk :: "string \<Rightarrow> actordb option"
  fresh :: "string \<Rightarrow> bool list"
  blob_dirs :: "string list"
  cached :: "string list"
  locks :: "string list"

definition empty_manager :: "bool list \<Rightarrow> manager" where
  "empty_manager t = \<lparr>tape = t, disk = (\<lambda>_. None), fresh = (\<lambda>_. []), blob_dirs = [], cached = [], locks = []\<rparr>"

definition create_db :: "string \<Rightarrow> manager \<Rightarrow> manager" where
  "create_db did m = m\<lparr>disk := (disk m)(did \<mapsto>
     (case disk m did of None \<Rightarrow> empty_actordb (fresh m did) | Some d \<Rightarrow> d))\<rparr>"

text \<open>\<^verbatim>\<open>Open\<close>: the parent directory, the database with its schema, the blob directory.\<close>

definition Open :: "string \<Rightarrow> (manager, unit) op" where
  "Open did =
     gobind (wrapf ''creating actor db dir'' (stmt (goret ()))) (\<lambda>_.
     gobind (wrapf ''migrating actor db'' (stmt (\<lambda>m. (Inr (), create_db did m)))) (\<lambda>_.
     wrapf ''creating blob dir'' (stmt (\<lambda>m. (Inr (), m\<lparr>blob_dirs := List.insert did (blob_dirs m)\<rparr>)))))"

definition mgr_Get :: "(string \<Rightarrow> go_error + string) \<Rightarrow> string \<Rightarrow> (manager, unit) op" where
  "mgr_Get parse_did did m = (case validDID parse_did did of
     Inl e \<Rightarrow> (Inl e, m)
   | Inr _ \<Rightarrow> if did \<in> set (cached m) then (Inr (), m)
       else gobind (wrapf ''opening actor store'' (Open did))
              (\<lambda>_ m'. (Inr (), m'\<lparr>cached := did # cached m'\<rparr>)) m)"

definition stat_ok :: "bool \<Rightarrow> (manager, unit) op" where
  "stat_ok ex = stmt (\<lambda>m. if ex then (Inr (), m) else (Inl ErrNotExist, m))"

definition mgr_GetExisting :: "(string \<Rightarrow> go_error + string) \<Rightarrow> string \<Rightarrow> (manager, unit) op" where
  "mgr_GetExisting parse_did did m = (case validDID parse_did did of
     Inl e \<Rightarrow> (Inl e, m)
   | Inr _ \<Rightarrow> if did \<in> set (cached m) then (Inr (), m)
       else gobind (stat_ok (disk m did \<noteq> None)) (\<lambda>_.
            gobind (stat_ok (did \<in> set (blob_dirs m))) (\<lambda>_.
            gobind (wrapf ''opening existing actor store'' (Open did))
              (\<lambda>_ m'. (Inr (), m'\<lparr>cached := did # cached m'\<rparr>)))) m)"

text \<open>An operation on the store of \<open>did\<close>, once the manager has opened it.\<close>

definition on_actor :: "string \<Rightarrow> (actordb, 'a) op \<Rightarrow> (manager, 'a) op" where
  "on_actor did f m = (case disk m did of
     None \<Rightarrow> (Inl ErrDB, m)
   | Some d \<Rightarrow> (case f d of (r, d') \<Rightarrow> (r, m\<lparr>disk := (disk m)(did \<mapsto> d')\<rparr>)))"

definition WithLock :: "(string \<Rightarrow> go_error + string) \<Rightarrow> string \<Rightarrow> (actordb, 'a) op \<Rightarrow> (manager, 'a) op" where
  "WithLock parse_did did fn m =
     gobind (mgr_Get parse_did did) (\<lambda>_. on_actor did fn)
       (m\<lparr>locks := List.insert did (locks m)\<rparr>)"

end
