(* ===== verification/Firehose.thy ===== *)
theory Firehose
  imports ActorStore
begin

text \<open>
  \<^verbatim>\<open>internal/firehose/event.go\<close>, the events of the firehose and their frames, and
  \<^verbatim>\<open>internal/carutil/car.go\<close>, the CAR files inside them.

  The CBOR encoders and the CAR framing are libraries and therefore parameters: \<open>cbor_dump\<close>
  (\<^verbatim>\<open>cbornode.DumpObject\<close>), \<open>cbor_body\<close> (the generated \<^verbatim>\<open>MarshalCBOR\<close> methods of the message
  structs), \<open>car_header\<close> and \<open>ld_write\<close> (\<^verbatim>\<open>go-car\<close>).
\<close>

section \<open>Data values\<close>

text \<open>Values of the atproto data model and of JSON documents: what a Go \<^verbatim>\<open>any\<close> holds here.\<close>

datatype data =
    DNull
  | DBool bool
  | DInt int
  | DStr string
  | DBytes bytes
  | DLink cid
  | DBlob cid string int
  | DList "data list"
  | DMap "(string \<times> data) list"

type_synonym record_data = "(string \<times> data) list"

section \<open>CAR files\<close>

record car_lib =
  car_header :: "cid list \<Rightarrow> go_error + bytes"
  ld_write :: "cid \<Rightarrow> bytes \<Rightarrow> go_error + bytes"

text \<open>The blocks written so far and the error that stopped the writer, if any.\<close>

fun write_frames :: "car_lib \<Rightarrow> block list \<Rightarrow> bytes \<times> go_error option" where
  "write_frames lib [] = ([], None)"
| "write_frames lib ((c, raw) # blks) =
     (case ld_write lib c raw of
        Inl e \<Rightarrow> ([], Some (Wrapf (''writing CAR block '' @ c) e))
      | Inr frame \<Rightarrow> (case write_frames lib blks of (out, err) \<Rightarrow> (frame @ out, err)))"

definition WriteCAR :: "car_lib \<Rightarrow> cid list \<Rightarrow> block list \<Rightarrow> bytes \<times> go_error option" where
  "WriteCAR lib roots blks =
     (case car_header lib roots of
        Inl e \<Rightarrow> ([], Some (Wrapf ''writing CAR header'' e))
      | Inr h \<Rightarrow> (case write_frames lib blks of (out, err) \<Rightarrow> (h @ out, err)))"

lemma write_frames_ok:
  "write_frames lib blks = (out, None) \<Longrightarrow>
     out = concat (map (\<lambda>(c, raw). projr (ld_write lib c raw)) blks)"
proof (induction blks arbitrary: out)
  case (Cons b blks)
  then show ?case
    by (cases b; cases "ld_write lib (fst b) (snd b)"; cases "write_frames lib blks") auto
qed simp

section \<open>Events\<close>

record repo_op =
  opAction :: string
  opPath :: string
  opCid :: "cid option"
  opPrev :: "cid option"

record commit_msg =
  cmRepo :: string
  cmRev :: string
  cmSince :: "string option"
  cmCommit :: cid
  cmPrevData :: "cid option"
  cmBlocks :: bytes
  cmOps :: "repo_op list"
  cmBlobs :: "cid list"
  cmTime :: string
  cmSeq :: int

record sync_msg =
  smDid :: string
  smRev :: string
  smBlocks :: bytes
  smTime :: string
  smSeq :: int

record identity_msg =
  imDid :: string
  imHandle :: "string option"
  imTime :: string
  imSeq :: int

record account_msg =
  amDid :: string
  amActive :: bool
  amStatus :: "string option"
  amTime :: string
  amSeq :: int

record info_msg =
  inName :: string
  inMessage :: "string option"

record error_frame =
  efError :: string
  efMessage :: string

text \<open>\<^verbatim>\<open>Event\<close> is a struct of pointers, of which the first set one in the order of the switch
  counts.\<close>

record event =
  RepoCommit :: "commit_msg option"
  RepoSync :: "sync_msg option"
  RepoIdentity :: "identity_msg option"
  RepoAccount :: "account_msg option"
  Info :: "info_msg option"
  EvError :: "error_frame option"

definition no_event :: event where
  "no_event = \<lparr>RepoCommit = None, RepoSync = None, RepoIdentity = None, RepoAccount = None,
     Info = None, EvError = None\<rparr>"

datatype body = BodyCommit commit_msg | BodySync sync_msg | BodyIdentity identity_msg
  | BodyAccount account_msg | BodyInfo info_msg

record cbor_lib =
  cbor_dump :: "record_data \<Rightarrow> go_error + bytes"
  cbor_body :: "body \<Rightarrow> go_error + bytes"

definition writeCBOR :: "cbor_lib \<Rightarrow> record_data \<Rightarrow> go_error + bytes" where
  "writeCBOR lib v = (case cbor_dump lib v of
     Inl e \<Rightarrow> Inl (Wrapf ''firehose: encoding frame'' e) | Inr b \<Rightarrow> Inr b)"

text \<open>Two encodings one after the other, stopping at the first error.\<close>

definition both :: "go_error + bytes \<Rightarrow> go_error + bytes \<Rightarrow> go_error + bytes" where
  "both a b = (case a of Inl e \<Rightarrow> Inl e | Inr x \<Rightarrow> (case b of Inl e \<Rightarrow> Inl e | Inr y \<Rightarrow> Inr (x @ y)))"

definition frame_header :: "string \<Rightarrow> record_data" where
  "frame_header t = [(''op'', DInt 1), (''t'', DStr t)]"

definition Serialize :: "cbor_lib \<Rightarrow> event \<Rightarrow> go_error + bytes" where
  "Serialize lib e =
     (case EvError e of
        Some f \<Rightarrow> both (writeCBOR lib [(''op'', DInt (-1))])
          (writeCBOR lib ((''error'', DStr (efError f)) #
             (if efMessage f \<noteq> '''' then [(''message'', DStr (efMessage f))] else [])))
      | None \<Rightarrow>
     (case RepoCommit e of
        Some m \<Rightarrow> both (writeCBOR lib (frame_header ''#commit'')) (cbor_body lib (BodyCommit m))
      | None \<Rightarrow>
     (case RepoSync e of
        Some m \<Rightarrow> both (writeCBOR lib (frame_header ''#sync'')) (cbor_body lib (BodySync m))
      | None \<Rightarrow>
     (case RepoIdentity e of
        Some m \<Rightarrow> both (writeCBOR lib (frame_header ''#identity'')) (cbor_body lib (BodyIdentity m))
      | None \<Rightarrow>
     (case RepoAccount e of
        Some m \<Rightarrow> both (writeCBOR lib (frame_header ''#account'')) (cbor_body lib (BodyAccount m))
      | None \<Rightarrow>
     (case Info e of
        Some m \<Rightarrow> both (writeCBOR lib (frame_header ''#info'')) (cbor_body lib (BodyInfo m))
      | None \<Rightarrow> Inl (ErrMsg ''firehose: empty event'')))))))"

text \<open>\<^verbatim>\<open>SeqOf\<close> stamps the sequence number and names the variant.\<close>

definition SeqOf :: "int \<Rightarrow> event \<Rightarrow> go_error + string \<times> event" where
  "SeqOf sq e =
     (case RepoCommit e of Some m \<Rightarrow> Inr (''#commit'', e\<lparr>RepoCommit := Some (m\<lparr>cmSeq := sq\<rparr>)\<rparr>)
      | None \<Rightarrow>
     (case RepoSync e of Some m \<Rightarrow> Inr (''#sync'', e\<lparr>RepoSync := Some (m\<lparr>smSeq := sq\<rparr>)\<rparr>)
      | None \<Rightarrow>
     (case RepoIdentity e of Some m \<Rightarrow> Inr (''#identity'', e\<lparr>RepoIdentity := Some (m\<lparr>imSeq := sq\<rparr>)\<rparr>)
      | None \<Rightarrow>
     (case RepoAccount e of Some m \<Rightarrow> Inr (''#account'', e\<lparr>RepoAccount := Some (m\<lparr>amSeq := sq\<rparr>)\<rparr>)
      | None \<Rightarrow> Inl (ErrMsg ''firehose: event has no sequenceable body'')))))"

end
