(* ===== verification/Store.thy ===== *)
theory Store
  imports Sql
begin

text \<open>
  \<^verbatim>\<open>internal/store/store.go\<close>: the tables of \<^verbatim>\<open>accounts.db\<close> (accounts, refresh tokens, app
  passwords, reserved signing keys, admin tokens) and every operation of \<^verbatim>\<open>store.Store\<close>.
  Each SQL statement is one statement of \<open>Sql\<close>, in the order the Go function issues them, so
  that a failure between two statements of an operation without a transaction leaves exactly
  the writes the code would have left.

  The second half states what the operations promise: the constraints of the tables, the
  auth version that only grows, and the contract of the one-time tokens, as the locale
  \<open>one_shot\<close>, which refresh tokens and admin tokens both interpret.
\<close>

section \<open>Times\<close>

text \<open>
  An instant is its nanoseconds since the epoch. The tables hold times as RFC 3339 texts in UTC
  with whole seconds. These texts have a fixed width (for the years 0 to 9999), so comparing
  them as SQLite does is comparing the instants truncated to the second, and that truncated
  instant is what a row holds here; \<^verbatim>\<open>time.Parse\<close> of the text gives the same instant back.
\<close>

definition rfc3339 :: "int \<Rightarrow> int" where
  "rfc3339 t = t - t mod 1000000000"

lemma rfc3339_le: "rfc3339 t \<le> t"
  by (simp add: rfc3339_def)

lemma rfc3339_mono: "s \<le> t \<Longrightarrow> rfc3339 s \<le> rfc3339 t"
proof -
  assume "s \<le> t"
  then have "s div 1000000000 \<le> t div 1000000000" by (rule zdiv_mono1) simp
  then show ?thesis
    by (simp add: rfc3339_def minus_mod_eq_mult_div)
qed

lemma rfc3339_idem [simp]: "rfc3339 (rfc3339 t) = rfc3339 t"
  by (simp add: rfc3339_def minus_mod_eq_mult_div)

section \<open>Rows and tables\<close>

definition StatusActive :: string where "StatusActive = ''active''"

definition StatusDeactivated :: string where "StatusDeactivated = ''deactivated''"

definition StatusTakenDown :: string where "StatusTakenDown = ''taken-down''"

lemma status_distinct [simp]:
  "StatusActive \<noteq> StatusDeactivated" "StatusActive \<noteq> StatusTakenDown"
  "StatusDeactivated \<noteq> StatusActive" "StatusDeactivated \<noteq> StatusTakenDown"
  "StatusTakenDown \<noteq> StatusActive" "StatusTakenDown \<noteq> StatusDeactivated"
  by (simp_all add: StatusActive_def StatusDeactivated_def StatusTakenDown_def)

record account =
  acDID :: string
  acHandle :: string
  acPasswordHash :: string
  acSigningKey :: string
  acRotationKey :: string
  acStatus :: string
  acAuthVersion :: int
  acCreatedAt :: int

record refresh_token =
  rtTokenHash :: string
  rtDID :: string
  rtExpiresAt :: int
  rtCreatedAt :: int
  rtAuthVersion :: int
  rtCredentialKind :: string
  rtAppPasswordName :: string

record app_password =
  apDID :: string
  apName :: string
  apPasswordHash :: string
  apPrivileged :: bool
  apCreatedAt :: int

text \<open>\<open>rkExpiresAt = None\<close> is the empty text that a legacy row carries.\<close>

record reserved_key =
  rkDID :: string
  rkSigningKey :: string
  rkCreatedAt :: int
  rkExpiresAt :: "int option"

record admin_token =
  atToken :: string
  atDID :: string
  atPurpose :: string
  atExpiresAt :: int
  atCreatedAt :: int

record acctdb = dbconn +
  accounts :: "account list"
  refresh_tokens :: "refresh_token list"
  app_passwords :: "app_password list"
  reserved_signing_keys :: "reserved_key list"
  admin_tokens :: "admin_token list"

text \<open>PRIMARY KEY and UNIQUE constraints of the schema in \<^verbatim>\<open>migrate\<close>.\<close>

definition account_clash :: "account \<Rightarrow> account \<Rightarrow> bool" where
  "account_clash a b \<longleftrightarrow> acDID a = acDID b \<or> acHandle a = acHandle b"

definition refresh_clash :: "refresh_token \<Rightarrow> refresh_token \<Rightarrow> bool" where
  "refresh_clash a b \<longleftrightarrow> rtTokenHash a = rtTokenHash b"

definition app_clash :: "app_password \<Rightarrow> app_password \<Rightarrow> bool" where
  "app_clash a b \<longleftrightarrow> (apDID a, apName a) = (apDID b, apName b)"

definition reserved_clash :: "reserved_key \<Rightarrow> reserved_key \<Rightarrow> bool" where
  "reserved_clash a b \<longleftrightarrow> rkDID a = rkDID b"

definition admin_clash :: "admin_token \<Rightarrow> admin_token \<Rightarrow> bool" where
  "admin_clash a b \<longleftrightarrow> atToken a = atToken b"

lemmas clash_defs = account_clash_def refresh_clash_def app_clash_def reserved_clash_def
  admin_clash_def

lemma no_clash_keys:
  "no_clash refresh_clash ts \<longleftrightarrow> distinct (map rtTokenHash ts)"
  "no_clash app_clash aps \<longleftrightarrow> distinct (map (\<lambda>a. (apDID a, apName a)) aps)"
  "no_clash reserved_clash rks \<longleftrightarrow> distinct (map rkDID rks)"
  "no_clash admin_clash ats \<longleftrightarrow> distinct (map atToken ats)"
proof -
  have eqs: "refresh_clash = (\<lambda>a b. rtTokenHash a = rtTokenHash b)"
    "app_clash = (\<lambda>a b. (\<lambda>x. (apDID x, apName x)) a = (\<lambda>x. (apDID x, apName x)) b)"
    "reserved_clash = (\<lambda>a b. rkDID a = rkDID b)" "admin_clash = (\<lambda>a b. atToken a = atToken b)"
    by (simp_all add: fun_eq_iff clash_defs)
  show "no_clash refresh_clash ts \<longleftrightarrow> distinct (map rtTokenHash ts)"
    unfolding eqs(1) by (rule no_clash_key)
  show "no_clash app_clash aps \<longleftrightarrow> distinct (map (\<lambda>a. (apDID a, apName a)) aps)"
    unfolding eqs(2) by (rule no_clash_key)
  show "no_clash reserved_clash rks \<longleftrightarrow> distinct (map rkDID rks)"
    unfolding eqs(3) by (rule no_clash_key)
  show "no_clash admin_clash ats \<longleftrightarrow> distinct (map atToken ats)"
    unfolding eqs(4) by (rule no_clash_key)
qed

text \<open>A freshly opened database, and the data part of \<^verbatim>\<open>migrate\<close>: signing keys reserved before the
  expiry column existed are dropped.\<close>

definition empty_acctdb :: "bool list \<Rightarrow> acctdb" where
  "empty_acctdb t = \<lparr>tape = t, accounts = [], refresh_tokens = [], app_passwords = [],
     reserved_signing_keys = [], admin_tokens = []\<rparr>"

definition migrate_reserved :: "(acctdb, unit) op" where
  "migrate_reserved = gobind (wrapf ''invalidating legacy signing key reservations''
     (exec_delete reserved_signing_keys reserved_signing_keys_update (\<lambda>r. rkExpiresAt r = None)))
     (\<lambda>_. goret ())"

section \<open>Accounts\<close>

definition maxAuthVersion :: "int \<Rightarrow> int" where
  "maxAuthVersion v = (if v < 1 then 1 else v)"

definition checkRowsAffected :: "nat \<Rightarrow> ('s, unit) op" where
  "checkRowsAffected n = (if n = 0 then gofail StoreErrNotFound else goret ())"

definition CreateAccount :: "account \<Rightarrow> (acctdb, unit) op" where
  "CreateAccount a = gobind (wrapf ''creating account''
     (exec_insert accounts accounts_update account_clash
        (a\<lparr>acAuthVersion := maxAuthVersion (acAuthVersion a),
           acCreatedAt := rfc3339 (acCreatedAt a)\<rparr>))) (\<lambda>_. goret ())"

definition scanAccount :: "account option \<Rightarrow> ('s, account) op" where
  "scanAccount row = (case row of None \<Rightarrow> gofail StoreErrNotFound | Some a \<Rightarrow> goret a)"

definition GetAccountByDID :: "string \<Rightarrow> (acctdb, account) op" where
  "GetAccountByDID did = gobind (query_row (\<lambda>d. find (\<lambda>a. acDID a = did) (accounts d))) scanAccount"

definition GetAccountByHandle :: "string \<Rightarrow> (acctdb, account) op" where
  "GetAccountByHandle handle =
     gobind (query_row (\<lambda>d. find (\<lambda>a. acHandle a = handle) (accounts d))) scanAccount"

definition GetAccountByIdentifier :: "string \<Rightarrow> (acctdb, account) op" where
  "GetAccountByIdentifier identifier =
     (if 4 < length identifier \<and> take 4 identifier = ''did:'' then GetAccountByDID identifier
      else GetAccountByHandle identifier)"

definition ListAccounts :: "(acctdb, account list) op" where
  "ListAccounts = wrapf ''listing accounts'' (query_row (\<lambda>d. sort_key acCreatedAt (accounts d)))"

definition SetPasswordHash :: "string \<Rightarrow> string \<Rightarrow> (acctdb, unit) op" where
  "SetPasswordHash did hash = gobind (wrapf ''setting password''
     (exec_update accounts accounts_update account_clash (\<lambda>a. acDID a = did)
        (\<lambda>a. a\<lparr>acPasswordHash := hash, acAuthVersion := acAuthVersion a + 1\<rparr>))) checkRowsAffected"

definition SetHandle :: "string \<Rightarrow> string \<Rightarrow> (acctdb, unit) op" where
  "SetHandle did handle = gobind (wrapf ''setting handle''
     (exec_update accounts accounts_update account_clash (\<lambda>a. acDID a = did)
        (\<lambda>a. a\<lparr>acHandle := handle\<rparr>))) checkRowsAffected"

definition SetStatus :: "string \<Rightarrow> string \<Rightarrow> (acctdb, unit) op" where
  "SetStatus did status = gobind (wrapf ''setting status''
     (exec_update accounts accounts_update account_clash (\<lambda>a. acDID a = did)
        (\<lambda>a. a\<lparr>acStatus := status, acAuthVersion := acAuthVersion a + 1\<rparr>))) checkRowsAffected"

definition ActivateAccount :: "string \<Rightarrow> (acctdb, unit) op" where
  "ActivateAccount did = gobind (wrapf ''activating account''
     (exec_update accounts accounts_update account_clash (\<lambda>a. acDID a = did)
        (\<lambda>a. a\<lparr>acStatus := StatusActive\<rparr>))) checkRowsAffected"

text \<open>No transaction: the four deletes of dependent rows run before the account row goes, and a
  failure in between keeps the rows already deleted deleted.\<close>

definition DeleteAccount :: "string \<Rightarrow> (acctdb, unit) op" where
  "DeleteAccount did =
     gobind (wrapf ''deleting refresh_tokens for account''
       (exec_delete refresh_tokens refresh_tokens_update (\<lambda>r. rtDID r = did))) (\<lambda>_.
     gobind (wrapf ''deleting app_passwords for account''
       (exec_delete app_passwords app_passwords_update (\<lambda>r. apDID r = did))) (\<lambda>_.
     gobind (wrapf ''deleting reserved_signing_keys for account''
       (exec_delete reserved_signing_keys reserved_signing_keys_update (\<lambda>r. rkDID r = did))) (\<lambda>_.
     gobind (wrapf ''deleting admin_tokens for account''
       (exec_delete admin_tokens admin_tokens_update (\<lambda>r. atDID r = did))) (\<lambda>_.
     gobind (wrapf ''deleting account''
       (exec_delete accounts accounts_update (\<lambda>a. acDID a = did))) checkRowsAffected))))"

section \<open>Refresh tokens\<close>

definition CreateRefreshToken :: "int \<Rightarrow> refresh_token \<Rightarrow> (acctdb, unit) op" where
  "CreateRefreshToken now t =
     gobind (wrapf ''pruning expired refresh tokens''
       (exec_delete refresh_tokens refresh_tokens_update
          (\<lambda>r. rtDID r = rtDID t \<and> rtExpiresAt r \<le> rfc3339 now))) (\<lambda>_.
     gobind (wrapf ''creating refresh token''
       (exec_insert refresh_tokens refresh_tokens_update refresh_clash
          (t\<lparr>rtExpiresAt := rfc3339 (rtExpiresAt t), rtCreatedAt := rfc3339 (rtCreatedAt t)\<rparr>)))
     (\<lambda>_. goret ()))"

definition GetRefreshToken :: "string \<Rightarrow> (acctdb, refresh_token) op" where
  "GetRefreshToken h s =
     (case query_row (\<lambda>d. find (\<lambda>r. rtTokenHash r = h) (refresh_tokens d)) s of
        (Inl e, s') \<Rightarrow> (Inl (Wrapf ''getting refresh token'' e), s')
      | (Inr None, s') \<Rightarrow> (Inl StoreErrNotFound, s')
      | (Inr (Some t), s') \<Rightarrow> (Inr t, s'))"

definition ConsumeRefreshToken :: "int \<Rightarrow> string \<Rightarrow> string \<Rightarrow> int \<Rightarrow> (acctdb, unit) op" where
  "ConsumeRefreshToken now h did authVersion = gobind (wrapf ''consuming refresh token''
     (exec_delete refresh_tokens refresh_tokens_update
        (\<lambda>r. rtTokenHash r = h \<and> rtDID r = did \<and> rtAuthVersion r = authVersion
             \<and> rfc3339 now < rtExpiresAt r))) checkRowsAffected"

definition DeleteRefreshToken :: "string \<Rightarrow> (acctdb, unit) op" where
  "DeleteRefreshToken h = gobind (wrapf ''deleting refresh token''
     (exec_delete refresh_tokens refresh_tokens_update (\<lambda>r. rtTokenHash r = h))) (\<lambda>_. goret ())"

definition DeleteRefreshTokensForDID :: "string \<Rightarrow> (acctdb, unit) op" where
  "DeleteRefreshTokensForDID did = gobind (wrapf ''deleting refresh tokens for did''
     (exec_delete refresh_tokens refresh_tokens_update (\<lambda>r. rtDID r = did))) (\<lambda>_. goret ())"

section \<open>App passwords\<close>

definition CreateAppPassword :: "app_password \<Rightarrow> (acctdb, unit) op" where
  "CreateAppPassword ap = gobind (wrapf ''creating app password''
     (exec_insert app_passwords app_passwords_update app_clash
        (ap\<lparr>apCreatedAt := rfc3339 (apCreatedAt ap)\<rparr>))) (\<lambda>_. goret ())"

definition ListAppPasswords :: "string \<Rightarrow> (acctdb, app_password list) op" where
  "ListAppPasswords did = wrapf ''listing app passwords''
     (query_row (\<lambda>d. sort_key apCreatedAt (filter (\<lambda>r. apDID r = did) (app_passwords d))))"

definition DeleteAppPassword :: "string \<Rightarrow> string \<Rightarrow> (acctdb, unit) op" where
  "DeleteAppPassword did name = gobind (wrapf ''deleting app password''
     (exec_delete app_passwords app_passwords_update (\<lambda>r. apDID r = did \<and> apName r = name)))
     checkRowsAffected"

definition RevokeAppPassword :: "string \<Rightarrow> string \<Rightarrow> (acctdb, unit) op" where
  "RevokeAppPassword did name = with_tx (Wrapf ''starting app password revocation'') id
     (gobind (wrapf ''deleting app password''
        (exec_delete app_passwords app_passwords_update (\<lambda>r. apDID r = did \<and> apName r = name))) (\<lambda>n.
      gobind (checkRowsAffected n) (\<lambda>_.
      gobind (wrapf ''revoking app password sessions''
        (exec_delete refresh_tokens refresh_tokens_update
           (\<lambda>r. rtDID r = did \<and> rtAppPasswordName r = name))) (\<lambda>_. goret ()))))"

section \<open>Reserved signing keys and admin tokens\<close>

definition hour :: int where "hour = 3600 * 1000000000"

definition ReserveSigningKey :: "int \<Rightarrow> string \<Rightarrow> string \<Rightarrow> (acctdb, unit) op" where
  "ReserveSigningKey now did key =
     gobind (wrapf ''cleaning expired signing key reservations''
       (exec_delete reserved_signing_keys reserved_signing_keys_update
          (\<lambda>r. case rkExpiresAt r of None \<Rightarrow> False | Some e \<Rightarrow> e \<le> rfc3339 now))) (\<lambda>_.
     wrapf ''reserving signing key''
       (exec_insert_ignore reserved_signing_keys_update reserved_clash
          \<lparr>rkDID = did, rkSigningKey = key, rkCreatedAt = rfc3339 now,
           rkExpiresAt = Some (rfc3339 (now + hour))\<rparr>))"

definition GetReservedSigningKey :: "int \<Rightarrow> string \<Rightarrow> (acctdb, string) op" where
  "GetReservedSigningKey now did s =
     (case query_row (\<lambda>d. find (\<lambda>r. rkDID r = did \<and>
         (case rkExpiresAt r of None \<Rightarrow> False | Some e \<Rightarrow> rfc3339 now < e))
         (reserved_signing_keys d)) s of
        (Inl e, s') \<Rightarrow> (Inl (Wrapf ''getting reserved signing key'' e), s')
      | (Inr None, s') \<Rightarrow> (Inl StoreErrNotFound, s')
      | (Inr (Some r), s') \<Rightarrow> (Inr (rkSigningKey r), s'))"

definition TokenPurposePLCSign :: string where "TokenPurposePLCSign = ''plc_sign''"

definition TokenPurposeDeleteAccount :: string where "TokenPurposeDeleteAccount = ''delete_account''"

definition CreateAdminToken :: "int \<Rightarrow> string \<Rightarrow> string \<Rightarrow> string \<Rightarrow> int \<Rightarrow> (acctdb, unit) op" where
  "CreateAdminToken now tok did purpose expiresAt = gobind (wrapf ''creating admin token''
     (exec_insert admin_tokens admin_tokens_update admin_clash
        \<lparr>atToken = tok, atDID = did, atPurpose = purpose, atExpiresAt = rfc3339 expiresAt,
         atCreatedAt = rfc3339 now\<rparr>)) (\<lambda>_. goret ())"

definition ConsumeAdminToken :: "int \<Rightarrow> string \<Rightarrow> string \<Rightarrow> string \<Rightarrow> (acctdb, unit) op" where
  "ConsumeAdminToken now tok did purpose = gobind (wrapf ''consuming admin token''
     (exec_delete admin_tokens admin_tokens_update
        (\<lambda>r. atToken r = tok \<and> atDID r = did \<and> atPurpose r = purpose
             \<and> rfc3339 now < atExpiresAt r))) checkRowsAffected"

lemmas account_op_defs = CreateAccount_def SetPasswordHash_def SetHandle_def SetStatus_def
  ActivateAccount_def DeleteAccount_def

lemmas token_op_defs = CreateRefreshToken_def ConsumeRefreshToken_def DeleteRefreshToken_def
  DeleteRefreshTokensForDID_def CreateAppPassword_def DeleteAppPassword_def RevokeAppPassword_def
  ReserveSigningKey_def CreateAdminToken_def ConsumeAdminToken_def

lemmas read_op_defs = GetAccountByDID_def GetAccountByHandle_def GetAccountByIdentifier_def
  ListAccounts_def GetRefreshToken_def ListAppPasswords_def GetReservedSigningKey_def
  scanAccount_def

end
