(* ===== verification/StoreSpec.thy ===== *)
theory StoreSpec
  imports Store
begin

text \<open>
  What \<^verbatim>\<open>store.Store\<close> promises. Every writing method is a constructor of \<open>store_op\<close>, so
  that a history of the database is a list of timed operations, whatever the handlers that
  issued them; the theorems below quantify over all such histories and all failure tapes.
\<close>

section \<open>Histories of accounts.db\<close>

datatype store_op =
    OpCreateAccount account
  | OpSetPasswordHash string string
  | OpSetHandle string string
  | OpSetStatus string string
  | OpActivateAccount string
  | OpDeleteAccount string
  | OpCreateRefreshToken refresh_token
  | OpConsumeRefreshToken string string int
  | OpDeleteRefreshToken string
  | OpDeleteRefreshTokensForDID string
  | OpCreateAppPassword app_password
  | OpDeleteAppPassword string string
  | OpRevokeAppPassword string string
  | OpReserveSigningKey string string
  | OpCreateAdminToken string string string int
  | OpConsumeAdminToken string string string

fun store_exec :: "int \<Rightarrow> store_op \<Rightarrow> (acctdb, unit) op" where
  "store_exec now (OpCreateAccount a) = CreateAccount a"
| "store_exec now (OpSetPasswordHash did h) = SetPasswordHash did h"
| "store_exec now (OpSetHandle did h) = SetHandle did h"
| "store_exec now (OpSetStatus did st) = SetStatus did st"
| "store_exec now (OpActivateAccount did) = ActivateAccount did"
| "store_exec now (OpDeleteAccount did) = DeleteAccount did"
| "store_exec now (OpCreateRefreshToken t) = CreateRefreshToken now t"
| "store_exec now (OpConsumeRefreshToken h did av) = ConsumeRefreshToken now h did av"
| "store_exec now (OpDeleteRefreshToken h) = DeleteRefreshToken h"
| "store_exec now (OpDeleteRefreshTokensForDID did) = DeleteRefreshTokensForDID did"
| "store_exec now (OpCreateAppPassword ap) = CreateAppPassword ap"
| "store_exec now (OpDeleteAppPassword did n) = DeleteAppPassword did n"
| "store_exec now (OpRevokeAppPassword did n) = RevokeAppPassword did n"
| "store_exec now (OpReserveSigningKey did k) = ReserveSigningKey now did k"
| "store_exec now (OpCreateAdminToken tok did p e) = CreateAdminToken now tok did p e"
| "store_exec now (OpConsumeAdminToken tok did p) = ConsumeAdminToken now tok did p"

fun store_run :: "(int \<times> store_op) list \<Rightarrow> acctdb \<Rightarrow> acctdb" where
  "store_run [] d = d"
| "store_run ((now, oper) # ops) d = store_run ops (snd (store_exec now oper d))"

lemma store_run_append [simp]: "store_run (xs @ ys) d = store_run ys (store_run xs d)"
  by (induction xs arbitrary: d) auto

lemma store_run_preserves:
  assumes "\<And>now oper. (now, oper) \<in> set ops \<Longrightarrow> preserves P (store_exec now oper)" "P d"
  shows "P (store_run ops d)"
  using assms
proof (induction ops arbitrary: d)
  case Nil
  then show ?case by simp
next
  case (Cons x ops)
  obtain now oper where x: "x = (now, oper)" by (cases x)
  have "P (snd (store_exec now oper d))"
    using Cons.prems x by (auto intro: preservesD)
  then show ?case using Cons x by simp
qed

section \<open>The constraints of the schema are an invariant\<close>

definition acct_inv :: "acctdb \<Rightarrow> bool" where
  "acct_inv d \<longleftrightarrow> no_clash account_clash (accounts d)
     \<and> list_all (\<lambda>a. 1 \<le> acAuthVersion a) (accounts d)
     \<and> no_clash refresh_clash (refresh_tokens d)
     \<and> no_clash app_clash (app_passwords d)
     \<and> no_clash reserved_clash (reserved_signing_keys d)
     \<and> no_clash admin_clash (admin_tokens d)"

lemma tapefree_acct_inv: "tapefree acct_inv"
  by (rule tapefreeI) (simp add: acct_inv_def)

lemma maxAuthVersion_pos [simp]: "1 \<le> maxAuthVersion v"
  by (simp add: maxAuthVersion_def)

lemma maxAuthVersion_id [simp]: "1 \<le> v \<Longrightarrow> maxAuthVersion v = v"
  by (simp add: maxAuthVersion_def)

lemma preserves_checkRowsAffected [preserves_intros]: "preserves P (checkRowsAffected n)"
  by (auto simp: checkRowsAffected_def intro: preserves_intros)

text \<open>Frame rules of the statements: a predicate that survives replacing one table by a table
  with fewer rows survives a delete on it, and so on.\<close>

lemma preserves_exec_delete [preserves_intros]:
  assumes "tapefree P" "\<And>s. P s \<Longrightarrow> P (upd (\<lambda>_. filter (\<lambda>r. \<not> p r) (get s)) s)"
  shows "preserves P (exec_delete get upd p)"
  unfolding exec_delete_def
  by (rule preserves_stmt [OF assms(1)]) (simp add: preserves_def sql_delete_def assms(2))

lemma preserves_exec_insert [preserves_intros]:
  assumes "tapefree P"
    and "\<And>s t. P s \<Longrightarrow> sql_insert c r (get s) = Inr t \<Longrightarrow> P (upd (\<lambda>_. t) s)"
  shows "preserves P (exec_insert get upd c r)"
  unfolding exec_insert_def
  by (rule preserves_stmt [OF assms(1)]) (auto simp: preserves_def assms(2) split: sum.splits)

lemma preserves_exec_insert_ignore [preserves_intros]:
  assumes "tapefree P" "\<And>s. P s \<Longrightarrow> P (upd (sql_insert_ignore c r) s)"
  shows "preserves P (exec_insert_ignore upd c r)"
  unfolding exec_insert_ignore_def
  by (rule preserves_stmt [OF assms(1)]) (simp add: preserves_def assms(2))

lemma preserves_exec_update [preserves_intros]:
  assumes "tapefree P"
    and "\<And>s n t. P s \<Longrightarrow> sql_update c p f (get s) = Inr (n, t) \<Longrightarrow> P (upd (\<lambda>_. t) s)"
  shows "preserves P (exec_update get upd c p f)"
  unfolding exec_update_def
  by (rule preserves_stmt [OF assms(1)])
     (auto simp: preserves_def assms(2) split: sum.splits prod.splits)

lemma sql_insertD: "sql_insert c r t = Inr t' \<Longrightarrow> t' = t @ [r] \<and> (\<forall>r'\<in>set t. \<not> c r' r)"
  by (auto simp: sql_insert_def list_ex_iff split: if_splits)

lemma sql_updateD:
  "sql_update c p f t = Inr (n, t') \<Longrightarrow>
     t' = map (\<lambda>r. if p r then f r else r) t \<and> n = length (filter p t) \<and> no_clash c t'"
  by (auto simp: sql_update_def Let_def split: if_splits)

lemma acct_inv_store_exec: "preserves acct_inv (store_exec now oper)"
  apply (cases oper)
  apply (auto simp: account_op_defs token_op_defs
        intro!: preserves_intros tapefree_acct_inv preserves_with_tx
        simp: acct_inv_def list_all_iff
        dest: no_clash_insert no_clash_update dest!: sql_insertD sql_updateD
        simp: no_clash_append)
  apply (drule (1) bspec, simp)+
  done

text \<open>The schema's constraints (unique DIDs and handles, unique token hashes, app password
  names per account, one reservation per DID, unique admin tokens) and auth versions of at least
  1 hold after every history of the store's operations, whichever statements failed.\<close>

theorem store_constraints_invariant: "acct_inv (store_run ops (empty_acctdb faults))"
  by (rule store_run_preserves [where P = acct_inv])
     (simp_all add: acct_inv_store_exec acct_inv_def empty_acctdb_def)

section \<open>Accounts as a map\<close>

text \<open>The accounts table read by primary key, and the auth version of an account.\<close>

definition acct_lookup :: "account list \<Rightarrow> string \<Rightarrow> account option" where
  "acct_lookup t did = find (\<lambda>a. acDID a = did) t"

definition auth_version :: "acctdb \<Rightarrow> string \<Rightarrow> int option" where
  "auth_version d did = map_option acAuthVersion (acct_lookup (accounts d) did)"

lemma acct_lookup_SomeD: "acct_lookup t did = Some a \<Longrightarrow> a \<in> set t \<and> acDID a = did"
  by (auto simp: acct_lookup_def dest: find_SomeD)

lemma acct_lookup_append [simp]:
  "acct_lookup (xs @ [a]) did = (case acct_lookup xs did of
     None \<Rightarrow> if acDID a = did then Some a else None | Some x \<Rightarrow> Some x)"
  by (simp add: acct_lookup_def find_append split: option.split)

lemma acct_lookup_update [simp]:
  assumes "\<And>a. acDID (f a) = acDID a"
  shows "acct_lookup (map (\<lambda>a. if acDID a = k then f a else a) t) did =
    (if did = k then map_option f (acct_lookup t did) else acct_lookup t did)"
proof -
  have "acct_lookup (map (\<lambda>a. if acDID a = k then f a else a) t) did =
    map_option (\<lambda>a. if acDID a = k then f a else a) (acct_lookup t did)"
    unfolding acct_lookup_def by (rule find_map_update) (simp add: assms)
  then show ?thesis
    by (cases "acct_lookup t did") (auto dest: acct_lookup_SomeD)
qed

lemma acct_lookup_delete [simp]:
  "acct_lookup (filter (\<lambda>a. acDID a \<noteq> k) t) did = (if did = k then None else acct_lookup t did)"
  by (induction t) (auto simp: acct_lookup_def)

lemma auth_version_pos: "acct_inv d \<Longrightarrow> auth_version d did = Some v \<Longrightarrow> 1 \<le> v"
  by (auto simp: acct_inv_def auth_version_def list_all_iff dest: acct_lookup_SomeD)

subsection \<open>The auth version of an account only grows\<close>

definition version_at_least :: "string \<Rightarrow> int \<Rightarrow> acctdb \<Rightarrow> bool" where
  "version_at_least did v d \<longleftrightarrow> (\<exists>w\<ge>v. auth_version d did = Some w)"

lemma tapefree_version [intro]: "tapefree (version_at_least did v)"
  by (rule tapefreeI) (simp add: version_at_least_def auth_version_def)

lemma version_at_least_exec:
  assumes "oper \<noteq> OpDeleteAccount did"
  shows "preserves (version_at_least did v) (store_exec now oper)"
  using assms
  by (cases oper)
     (auto simp: account_op_defs token_op_defs dest!: sql_insertD sql_updateD
        simp: version_at_least_def auth_version_def
        intro!: preserves_intros preserves_with_tx)

lemma version_at_least_run:
  assumes "OpDeleteAccount did \<notin> snd ` set ops" "version_at_least did v d"
  shows "version_at_least did v (store_run ops d)"
  using assms by (intro store_run_preserves [where P = "version_at_least did v"])
    (force intro: version_at_least_exec)+

lemma bump_version:
  assumes "auth_version d did = Some v"
    "store_exec now oper d = (Inr (), d')"
    "oper = OpSetPasswordHash did h \<or> oper = OpSetStatus did st"
  shows "auth_version d' did = Some (v + 1)"
  using assms
  by (auto simp: account_op_defs gobind_Inr_iff exec_update_def stmt_Inr_iff auth_version_def
      checkRowsAffected_def dest!: sql_updateD
      split: sum.splits prod.splits if_splits)

text \<open>A password reset or a status change retires every earlier session for good: once it
  succeeded, no later history without a deletion of that account brings the account back to an
  auth version that a session issued before carries.\<close>

theorem revoking_change_is_final:
  assumes "auth_version d did = Some v"
    and "oper = OpSetPasswordHash did h \<or> oper = OpSetStatus did st"
    and "store_exec now oper d = (Inr (), d')"
    and "OpDeleteAccount did \<notin> snd ` set later"
    and "issued \<le> v"
  shows "\<exists>w > issued. auth_version (store_run later d') did = Some w"
proof -
  have "version_at_least did (v + 1) d'"
    using bump_version [OF assms(1,3,2)] by (auto simp: version_at_least_def)
  then have "version_at_least did (v + 1) (store_run later d')"
    by (rule version_at_least_run [OF assms(4)])
  then show ?thesis
    using assms(5) by (auto simp: version_at_least_def)
qed

text \<open>A database with one account, for the witnesses.\<close>

definition demo_account :: account where
  "demo_account = \<lparr>acDID = ''did:plc:a'', acHandle = ''a.test'', acPasswordHash = ''h'',
     acSigningKey = ''sk'', acRotationKey = ''rk'', acStatus = ''active'', acAuthVersion = 1,
     acCreatedAt = 0\<rparr>"

definition demo_db :: acctdb where
  "demo_db = (empty_acctdb [])\<lparr>accounts := [demo_account]\<rparr>"

lemmas demo_defs = demo_account_def demo_db_def empty_acctdb_def

theorem revoking_change_is_final_witness:
  "\<exists>w > 1. auth_version
     (store_run [(7, OpActivateAccount ''did:plc:a'')]
       (snd (store_exec 5 (OpSetStatus ''did:plc:a'' ''taken-down'') demo_db))) ''did:plc:a'' = Some w"
  by (rule revoking_change_is_final [where v = 1 and now = 5 and st = "''taken-down''"
        and oper = "OpSetStatus ''did:plc:a'' ''taken-down''" and d = demo_db and h = "''''"])
     (simp_all add: demo_defs auth_version_def acct_lookup_def SetStatus_def exec_update_def
        stmt_def gobind_def wrapf_def sql_update_def checkRowsAffected_def)

subsection \<open>Creating and finding accounts\<close>

lemma handle_did_agree:
  assumes "no_clash account_clash t" "find (\<lambda>a. acHandle a = h) t = Some a"
  shows "acct_lookup t (acDID a) = Some a"
  using assms
  by (induction t) (auto simp: acct_lookup_def account_clash_def list_all_iff
      dest: find_SomeD split: if_splits)

text \<open>C18. \<open>CreateAccount\<close> refines "add a fresh DID and a fresh handle to a map": it succeeds
  only when both are free, then the map gains exactly that account (auth version at least 1) and
  the new row is found by its handle too; when it fails, no table has changed.\<close>

theorem create_account_refines_map:
  "case CreateAccount a d of
     (Inr _, d') \<Rightarrow> acct_lookup (accounts d) (acDID a) = None
        \<and> find (\<lambda>b. acHandle b = acHandle a) (accounts d) = None
        \<and> acct_lookup (accounts d') = (acct_lookup (accounts d))(acDID a \<mapsto>
             a\<lparr>acAuthVersion := max 1 (acAuthVersion a), acCreatedAt := rfc3339 (acCreatedAt a)\<rparr>)
        \<and> map_option acDID (find (\<lambda>b. acHandle b = acHandle a) (accounts d')) = Some (acDID a)
   | (Inl _, d') \<Rightarrow> \<exists>t. d' = d\<lparr>tape := t\<rparr>"
proof (cases "next_fault (tape d)")
  case True
  then show ?thesis by (auto simp: CreateAccount_def exec_insert_def gobind_def wrapf_def)
next
  case False
  have none: "find P t = None" if "\<And>b. b \<in> set t \<Longrightarrow> \<not> P b" for P and t :: "account list"
    using that by (induction t) auto
  show ?thesis
    using False
    by (auto simp: CreateAccount_def exec_insert_def gobind_def wrapf_def fun_eq_iff
        sql_insert_def list_ex_iff account_clash_def maxAuthVersion_def acct_lookup_def find_append
        intro!: none dest!: find_SomeD split: option.split)
qed

section \<open>One-time tokens\<close>

text \<open>
  The contract a client of a one-time token relies on, for a token identified by \<open>k\<close>:
  \<open>consume c k\<close> succeeds only while the token is present and removes it, a failed
  \<open>consume\<close> brings nothing back, and of the other steps only those that mint the token
  can make it present.
\<close>

datatype ('c, 'o) token_event = Use 'c | Other 'o

fun token_wins :: "('c \<Rightarrow> ('s, unit) op) \<Rightarrow> ('o \<Rightarrow> 's \<Rightarrow> 's) \<Rightarrow> ('c, 'o) token_event list \<Rightarrow> 's \<Rightarrow> nat" where
  "token_wins consume step [] s = 0"
| "token_wins consume step (Use c # es) s =
     (case consume c s of (Inr _, s') \<Rightarrow> Suc (token_wins consume step es s')
                        | (Inl _, s') \<Rightarrow> token_wins consume step es s')"
| "token_wins consume step (Other x # es) s = token_wins consume step es (step x s)"

locale one_shot =
  fixes inv :: "'s \<Rightarrow> bool"
    and present :: "'k \<Rightarrow> 's \<Rightarrow> bool"
    and consume :: "'k \<Rightarrow> 'c \<Rightarrow> ('s, unit) op"
    and step :: "'o \<Rightarrow> 's \<Rightarrow> 's"
    and mints :: "'k \<Rightarrow> 'o \<Rightarrow> bool"
  assumes inv_consume: "preserves inv (consume k c)"
    and inv_step: "inv s \<Longrightarrow> inv (step x s)"
    and consume_ok: "inv s \<Longrightarrow> consume k c s = (Inr (), s') \<Longrightarrow> present k s \<and> \<not> present k s'"
    and consume_err: "consume k c s = (Inl e, s') \<Longrightarrow> present k s' = present k s"
    and step_absent: "\<not> mints k x \<Longrightarrow> \<not> present k s \<Longrightarrow> \<not> present k (step x s)"
begin

lemma wins_absent:
  assumes "inv s" "\<not> present k s" "\<And>x. Other x \<in> set es \<Longrightarrow> \<not> mints k x"
  shows "token_wins (consume k) step es s = 0"
  using assms
proof (induction es arbitrary: s)
  case Nil
  then show ?case by simp
next
  case (Cons e es)
  show ?case
  proof (cases e)
    case (Use c)
    then show ?thesis
      using Cons consume_ok [of s k c] consume_err [of k c s] preservesE [OF inv_consume [of k c]]
      by (auto split: prod.splits sum.splits)
  next
    case (Other x)
    then show ?thesis using Cons by (simp add: step_absent inv_step)
  qed
qed

lemma at_most_one_win:
  assumes "inv s" "\<And>x. Other x \<in> set es \<Longrightarrow> \<not> mints k x"
  shows "token_wins (consume k) step es s \<le> 1"
  using assms
proof (induction es arbitrary: s)
  case Nil
  then show ?case by simp
next
  case (Cons e es)
  show ?case
  proof (cases e)
    case (Use c)
    have inv: "consume k c s = (r, s') \<Longrightarrow> inv s'" for r s'
      using preservesE [OF inv_consume] Cons.prems(1) by blast
    show ?thesis
    proof (cases "consume k c s")
      case (Pair r s')
      then show ?thesis
        using Use Cons inv [OF Pair] consume_ok [OF Cons.prems(1)] wins_absent [of s' k es]
        by (cases r) auto
    qed
  next
    case (Other x)
    then show ?thesis using Cons by (simp add: inv_step)
  qed
qed

end

text \<open>Refresh tokens and admin tokens are one-shot tokens of the store.\<close>

definition refresh_present :: "string \<Rightarrow> acctdb \<Rightarrow> bool" where
  "refresh_present h d \<longleftrightarrow> h \<in> rtTokenHash ` set (refresh_tokens d)"

definition consume_refresh :: "string \<Rightarrow> int \<times> string \<times> int \<Rightarrow> (acctdb, unit) op" where
  "consume_refresh h c = (case c of (now, did, av) \<Rightarrow> ConsumeRefreshToken now h did av)"

definition admin_present :: "string \<Rightarrow> acctdb \<Rightarrow> bool" where
  "admin_present tok d \<longleftrightarrow> tok \<in> atToken ` set (admin_tokens d)"

definition consume_admin :: "string \<Rightarrow> int \<times> string \<times> string \<Rightarrow> (acctdb, unit) op" where
  "consume_admin tok c = (case c of (now, did, purpose) \<Rightarrow> ConsumeAdminToken now tok did purpose)"

definition store_step :: "int \<times> store_op \<Rightarrow> acctdb \<Rightarrow> acctdb" where
  "store_step x d = snd (store_exec (fst x) (snd x) d)"

fun mints_refresh :: "string \<Rightarrow> int \<times> store_op \<Rightarrow> bool" where
  "mints_refresh h (now, OpCreateRefreshToken t) \<longleftrightarrow> rtTokenHash t = h"
| "mints_refresh h (now, oper) \<longleftrightarrow> False"

fun mints_admin :: "string \<Rightarrow> int \<times> store_op \<Rightarrow> bool" where
  "mints_admin tok (now, OpCreateAdminToken tok' did purpose e) \<longleftrightarrow> tok' = tok"
| "mints_admin tok (now, oper) \<longleftrightarrow> False"

lemma refresh_absent_step:
  "\<not> mints_refresh h x \<Longrightarrow> \<not> refresh_present h d \<Longrightarrow> \<not> refresh_present h (store_step x d)"
proof -
  assume a: "\<not> mints_refresh h x" "\<not> refresh_present h d"
  obtain now oper where x: "x = (now, oper)" by (cases x)
  have "preserves (\<lambda>d. \<not> refresh_present h d) (store_exec now oper)"
    using a(1) unfolding x
    by (cases oper)
       (auto simp: account_op_defs token_op_defs refresh_present_def dest!: sql_insertD sql_updateD
          intro!: preserves_intros preserves_with_tx tapefreeI)
  then show ?thesis using a(2) x by (simp add: store_step_def preserves_def)
qed

lemma admin_absent_step:
  "\<not> mints_admin tok x \<Longrightarrow> \<not> admin_present tok d \<Longrightarrow> \<not> admin_present tok (store_step x d)"
proof -
  assume a: "\<not> mints_admin tok x" "\<not> admin_present tok d"
  obtain now oper where x: "x = (now, oper)" by (cases x)
  have "preserves (\<lambda>d. \<not> admin_present tok d) (store_exec now oper)"
    using a(1) unfolding x
    by (cases oper)
       (auto simp: account_op_defs token_op_defs admin_present_def dest!: sql_insertD sql_updateD
          intro!: preserves_intros preserves_with_tx tapefreeI)
  then show ?thesis using a(2) x by (simp add: store_step_def preserves_def)
qed

interpretation refresh: one_shot acct_inv refresh_present consume_refresh store_step mints_refresh
proof unfold_locales
  fix h c
  show "preserves acct_inv (consume_refresh h c)"
    using acct_inv_store_exec [of _ "OpConsumeRefreshToken h _ _"]
    by (cases c) (simp add: consume_refresh_def)
next
  fix d x assume "acct_inv d" then show "acct_inv (store_step x d)"
    by (simp add: store_step_def preservesD acct_inv_store_exec)
next
  fix d h c d' assume i: "acct_inv d" and c: "consume_refresh h c d = (Inr (), d')"
  obtain now did av where cc: "c = (now, did, av)" by (cases c)
  obtain r where r: "r \<in> set (refresh_tokens d)" "rtTokenHash r = h" "rtDID r = did"
      "rtAuthVersion r = av" "rfc3339 now < rtExpiresAt r"
    and d': "\<forall>x\<in>set (refresh_tokens d'). x \<in> set (refresh_tokens d) \<and> x \<noteq> r"
    using c unfolding cc
    by (fastforce simp: consume_refresh_def ConsumeRefreshToken_def gobind_Inr_iff exec_delete_def
        stmt_Inr_iff checkRowsAffected_def sql_delete_def filter_empty_conv split: if_splits)
  have "rtTokenHash x \<noteq> h" if "x \<in> set (refresh_tokens d')" for x
    using that d' r i
    by (auto simp: acct_inv_def no_clash_keys distinct_map inj_on_def)
  then show "refresh_present h d \<and> \<not> refresh_present h d'"
    unfolding refresh_present_def image_iff using r(1,2) by metis
next
  fix h c d e d' assume "consume_refresh h c d = (Inl e, d')"
  then show "refresh_present h d' = refresh_present h d"
    by (cases c) (auto simp: consume_refresh_def ConsumeRefreshToken_def gobind_Inl_iff
        wrapf_Inl_iff exec_delete_def stmt_def Let_def checkRowsAffected_def sql_delete_def
        filter_empty_conv refresh_present_def split: if_splits)
next
  fix h x d assume "\<not> mints_refresh h x" "\<not> refresh_present h d"
  then show "\<not> refresh_present h (store_step x d)" by (rule refresh_absent_step)
qed

interpretation admin: one_shot acct_inv admin_present consume_admin store_step mints_admin
proof unfold_locales
  fix tok c
  show "preserves acct_inv (consume_admin tok c)"
    using acct_inv_store_exec [of _ "OpConsumeAdminToken tok _ _"]
    by (cases c) (simp add: consume_admin_def)
next
  fix d x assume "acct_inv d" then show "acct_inv (store_step x d)"
    by (simp add: store_step_def preservesD acct_inv_store_exec)
next
  fix d tok c d' assume i: "acct_inv d" and c: "consume_admin tok c d = (Inr (), d')"
  obtain now did p where cc: "c = (now, did, p)" by (cases c)
  obtain r where r: "r \<in> set (admin_tokens d)" "atToken r = tok" "atDID r = did"
      "atPurpose r = p" "rfc3339 now < atExpiresAt r"
    and d': "\<forall>x\<in>set (admin_tokens d'). x \<in> set (admin_tokens d) \<and> x \<noteq> r"
    using c unfolding cc
    by (fastforce simp: consume_admin_def ConsumeAdminToken_def gobind_Inr_iff exec_delete_def
        stmt_Inr_iff checkRowsAffected_def sql_delete_def filter_empty_conv split: if_splits)
  have "atToken x \<noteq> tok" if "x \<in> set (admin_tokens d')" for x
    using that d' r i
    by (auto simp: acct_inv_def no_clash_keys distinct_map inj_on_def)
  then show "admin_present tok d \<and> \<not> admin_present tok d'"
    unfolding admin_present_def image_iff using r(1,2) by metis
next
  fix tok c d e d' assume "consume_admin tok c d = (Inl e, d')"
  then show "admin_present tok d' = admin_present tok d"
    by (cases c) (auto simp: consume_admin_def ConsumeAdminToken_def gobind_Inl_iff
        wrapf_Inl_iff exec_delete_def stmt_def Let_def checkRowsAffected_def sql_delete_def
        filter_empty_conv admin_present_def split: if_splits)
next
  fix tok x d assume "\<not> mints_admin tok x" "\<not> admin_present tok d"
  then show "\<not> admin_present tok (store_step x d)" by (rule admin_absent_step)
qed

text \<open>However requests interleave, a refresh token is consumed at most once: in every
  sequence of attempts to consume it (any DID, auth version and time) and of other operations on
  the store that do not insert its hash again, at most one attempt succeeds.\<close>

theorem refresh_token_single_use:
  assumes "acct_inv d" "\<And>x. Other x \<in> set es \<Longrightarrow> \<not> mints_refresh h x"
  shows "token_wins (consume_refresh h) store_step es d \<le> 1"
  using assms by (rule refresh.at_most_one_win)

text \<open>The same for the one-time tokens the admin issues for signing a PLC operation or
  deleting an account.\<close>

theorem admin_token_single_use:
  assumes "acct_inv d" "\<And>x. Other x \<in> set es \<Longrightarrow> \<not> mints_admin tok x"
  shows "token_wins (consume_admin tok) store_step es d \<le> 1"
  using assms by (rule admin.at_most_one_win)

text \<open>Witnesses: two attempts with the same token, a creation of another one in between.\<close>

definition demo_refresh :: "string \<Rightarrow> refresh_token" where
  "demo_refresh h = \<lparr>rtTokenHash = h, rtDID = ''did:plc:a'', rtExpiresAt = 9000000000,
     rtCreatedAt = 0, rtAuthVersion = 1, rtCredentialKind = ''primary'', rtAppPasswordName = ''''\<rparr>"

theorem refresh_token_single_use_witness:
  "token_wins (consume_refresh ''h1'') store_step
     [Use (1, ''did:plc:a'', 1), Other (2, OpCreateRefreshToken (demo_refresh ''h2'')),
      Use (3, ''did:plc:a'', 1)] (demo_db\<lparr>refresh_tokens := [demo_refresh ''h1'']\<rparr>) \<le> 1"
  by (rule refresh_token_single_use)
     (auto simp: demo_defs demo_refresh_def acct_inv_def)

theorem admin_token_single_use_witness:
  "token_wins (consume_admin ''tok'') store_step
     [Use (1, ''did:plc:a'', ''plc_sign''), Other (2, OpCreateAdminToken ''tok2'' ''did:plc:a'' ''plc_sign'' 5),
      Use (3, ''did:plc:a'', ''plc_sign'')]
     (demo_db\<lparr>admin_tokens := [\<lparr>atToken = ''tok'', atDID = ''did:plc:a'', atPurpose = ''plc_sign'',
        atExpiresAt = 9000000000, atCreatedAt = 0\<rparr>]\<rparr>) \<le> 1"
  by (rule admin_token_single_use) (auto simp: demo_defs acct_inv_def)

section \<open>What each token operation does\<close>

text \<open>Consuming succeeds exactly on an unexpired row with that hash, DID and auth version.\<close>

lemma consume_refresh_iff:
  "(\<exists>d'. ConsumeRefreshToken now h did av d = (Inr (), d')) \<longleftrightarrow>
     \<not> next_fault (tape d) \<and> (\<exists>r\<in>set (refresh_tokens d). rtTokenHash r = h \<and> rtDID r = did
        \<and> rtAuthVersion r = av \<and> rfc3339 now < rtExpiresAt r)"
  by (auto simp: ConsumeRefreshToken_def gobind_Inr_iff exec_delete_def stmt_Inr_iff
      checkRowsAffected_def sql_delete_def filter_empty_conv)

text \<open>Revoking an app password is all or nothing: either it succeeds, and then the app password
  existed and exactly it and the refresh tokens minted from it are gone, or it fails, and then
  no table has changed, whichever statement failed.\<close>

theorem revoke_app_password_atomic:
  "case RevokeAppPassword did name d of
     (Inr _, d') \<Rightarrow>
        (\<exists>ap\<in>set (app_passwords d). apDID ap = did \<and> apName ap = name)
        \<and> d' = d\<lparr>tape := tape d',
             app_passwords := filter (\<lambda>r. \<not> (apDID r = did \<and> apName r = name)) (app_passwords d),
             refresh_tokens := filter (\<lambda>r. \<not> (rtDID r = did \<and> rtAppPasswordName r = name))
               (refresh_tokens d)\<rparr>
   | (Inl _, d') \<Rightarrow> \<exists>t. d' = d\<lparr>tape := t\<rparr>"
proof (cases "RevokeAppPassword did name d")
  case (Pair r d')
  show ?thesis
  proof (cases r)
    case (Inl e)
    then show ?thesis using Pair by (auto simp: RevokeAppPassword_def dest: with_tx_atomic)
  next
    case (Inr u)
    then show ?thesis
      using Pair
      by (auto simp: RevokeAppPassword_def gobind_Inr_iff exec_delete_def stmt_Inr_iff
          checkRowsAffected_def sql_delete_def filter_empty_conv elim!: with_tx_Inr split: if_splits)
  qed
qed

text \<open>The reservation in force for a DID: what \<open>GetReservedSigningKey\<close> reads.\<close>

definition live_key :: "int \<Rightarrow> acctdb \<Rightarrow> string \<Rightarrow> string option" where
  "live_key now d did = map_option rkSigningKey (find (\<lambda>r. rkDID r = did \<and>
     (case rkExpiresAt r of None \<Rightarrow> False | Some e \<Rightarrow> rfc3339 now < e)) (reserved_signing_keys d))"

lemma get_reserved_eq:
  "\<not> next_fault (tape d) \<Longrightarrow> fst (GetReservedSigningKey now did d) =
     (case live_key now d did of None \<Rightarrow> Inl StoreErrNotFound | Some k \<Rightarrow> Inr k)"
  by (auto simp: GetReservedSigningKey_def live_key_def query_row_def split: option.split)

lemma hour_after: "rfc3339 now < rfc3339 (now + hour)"
proof -
  have "(now + hour) mod 1000000000 = now mod 1000000000"
    using mod_mult_self1 [of now 3600 "1000000000::int"] by (simp add: hour_def)
  then show ?thesis by (simp add: rfc3339_def hour_def)
qed

lemma find_None_conv: "find p t = None \<longleftrightarrow> (\<forall>x\<in>set t. \<not> p x)"
  by (auto simp: find_None_iff)

text \<open>Reserving a signing key never replaces a reservation that is still in force and reserves
  the new key otherwise, for every DID at once: \<open>ReserveSigningKey\<close> refines "set the key
  unless one is live" on the map of live reservations. The hypotheses are the table's primary key
  and that no legacy row without expiry is left, which opening the database establishes.\<close>

theorem reserve_signing_key_refines:
  assumes "acct_inv d" "\<forall>r\<in>set (reserved_signing_keys d). rkExpiresAt r \<noteq> None"
    and "ReserveSigningKey now did key d = (Inr (), d')"
  shows "live_key now d' = (live_key now d)(did \<mapsto>
    (case live_key now d did of None \<Rightarrow> key | Some k \<Rightarrow> k))"
proof
  fix x
  let ?t = "reserved_signing_keys d"
  let ?live = "\<lambda>r. case rkExpiresAt r of None \<Rightarrow> False | Some e \<Rightarrow> rfc3339 now < e"
  let ?new = "\<lparr>rkDID = did, rkSigningKey = key, rkCreatedAt = rfc3339 now,
    rkExpiresAt = Some (rfc3339 (now + hour))\<rparr>"
  let ?kept = "filter (\<lambda>r. \<not> (case rkExpiresAt r of None \<Rightarrow> False | Some e \<Rightarrow> e \<le> rfc3339 now)) ?t"
  have d': "reserved_signing_keys d' = sql_insert_ignore reserved_clash ?new ?kept"
    using assms(3) by (auto simp: ReserveSigningKey_def gobind_Inr_iff exec_defs stmt_Inr_iff
        sql_delete_def)
  have kept: "?kept = filter ?live ?t"
    using assms(2) by (intro filter_cong) (auto split: option.splits)
  have look: "find (\<lambda>r. rkDID r = k \<and> ?live r) (filter ?live ?t) = find (\<lambda>r. rkDID r = k \<and> ?live r) ?t" for k
    unfolding find_filter_eq by (rule find_cong) auto
  have none: "(\<forall>r\<in>set (filter ?live ?t). rkDID r \<noteq> did) \<longleftrightarrow> find (\<lambda>r. rkDID r = did \<and> ?live r) ?t = None"
    by (auto simp: find_None_conv)
  have live_new: "?live ?new" using hour_after [of now] by simp
  show "live_key now d' x = ((live_key now d)(did \<mapsto>
    (case live_key now d did of None \<Rightarrow> key | Some k \<Rightarrow> k))) x"
  proof (cases "find (\<lambda>r. rkDID r = did \<and> ?live r) ?t")
    case None
    then have "reserved_signing_keys d' = filter ?live ?t @ [?new]"
      using none d' kept by (auto simp: sql_insert_ignore_def list_ex_iff reserved_clash_def)
    then show ?thesis
      using None live_new by (auto simp: live_key_def find_append look split: option.splits)
  next
    case (Some r)
    then have "reserved_signing_keys d' = filter ?live ?t"
      using none d' kept by (auto simp: sql_insert_ignore_def list_ex_iff reserved_clash_def)
    then show ?thesis using Some by (auto simp: live_key_def look)
  qed
qed

theorem reserve_signing_key_refines_witness:
  "live_key 5 (snd (ReserveSigningKey 5 ''did:plc:b'' ''k2'' (snd (ReserveSigningKey 3 ''did:plc:b'' ''k1'' demo_db))))
     ''did:plc:b'' = Some ''k1''"
proof -
  let ?d1 = "snd (ReserveSigningKey 3 ''did:plc:b'' ''k1'' demo_db)"
  let ?d2 = "snd (ReserveSigningKey 5 ''did:plc:b'' ''k2'' ?d1)"
  note run = ReserveSigningKey_def exec_defs stmt_def gobind_def wrapf_def demo_defs sql_delete_def
    sql_insert_ignore_def rfc3339_def hour_def reserved_clash_def
  have "acct_inv ?d1" "\<forall>r\<in>set (reserved_signing_keys ?d1). rkExpiresAt r \<noteq> None"
    "ReserveSigningKey 5 ''did:plc:b'' ''k2'' ?d1 = (Inr (), ?d2)"
    by (simp_all add: run acct_inv_def)
  from reserve_signing_key_refines [OF this] show ?thesis
    by (simp add: live_key_def run)
qed

end
