(* ===== verification/Sequencer.thy ===== *)
theory Sequencer
  imports Firehose StoreSpec
begin

text \<open>
  \<^verbatim>\<open>internal/sequencer/sequencer.go\<close>: the durable event log and the broadcaster.

  A subscriber's channel is its buffer, oldest message first; a channel is named by a number, and
  \<open>subs\<close> is the map \<^verbatim>\<open>Sequencer.subs\<close> in some iteration order, which no operation depends on.
  \<open>last_seq\<close> is what AUTOINCREMENT keeps in \<^verbatim>\<open>sqlite_sequence\<close>: the largest sequence number ever
  used by a committed transaction.
\<close>

section \<open>RFC 3339 with nanoseconds\<close>

text \<open>
  \<^verbatim>\<open>time.RFC3339Nano\<close> of a UTC time: date and time of day to the second in a fixed width
  (\<open>fmt_sec\<close>, standard library), then the nanoseconds as a fraction without trailing zeros and
  without its point when it is zero, then \<^verbatim>\<open>Z\<close>. The column \<^verbatim>\<open>created_at\<close> is compared as text.
\<close>

fun pad_dec :: "nat \<Rightarrow> nat \<Rightarrow> string" where
  "pad_dec 0 n = []"
| "pad_dec (Suc w) n = pad_dec w (n div 10) @ [digit (n mod 10)]"

definition frac_text :: "nat \<Rightarrow> string" where
  "frac_text ns = (if ns = 0 then '''' else CHR ''.'' # trim_right (CHR ''0'') (pad_dec 9 ns))"

definition rfc3339nano :: "(int \<Rightarrow> string) \<Rightarrow> int \<Rightarrow> string" where
  "rfc3339nano fmt_sec t = fmt_sec (t div 1000000000) @ frac_text (nat (t mod 1000000000)) @ ''Z''"

section \<open>The state\<close>

record msg =
  mSeq :: int
  mPayload :: bytes

record event_row =
  evSeq :: int
  evDID :: string
  evType :: string
  evPayload :: bytes
  evCreatedAt :: string

record seqdb = dbconn +
  events :: "event_row list"
  last_seq :: int
  subs :: "(nat \<times> msg list) list"

definition empty_seqdb :: "bool list \<Rightarrow> seqdb" where
  "empty_seqdb t = \<lparr>tape = t, events = [], last_seq = 0, subs = []\<rparr>"

definition BackfillWindow :: int where
  "BackfillWindow = 72 * hour"

section \<open>Append\<close>

text \<open>INSERT with the next value of AUTOINCREMENT; the largest rowid is \<open>2 ^ 63 - 1\<close>.\<close>

definition insert_event :: "string \<Rightarrow> string \<Rightarrow> (seqdb, int) op" where
  "insert_event did created = stmt (\<lambda>d.
     if last_seq d < 2 ^ 63 - 1 then
       (Inr (last_seq d + 1), d\<lparr>last_seq := last_seq d + 1, events := events d @
          [\<lparr>evSeq = last_seq d + 1, evDID = did, evType = '''', evPayload = [], evCreatedAt = created\<rparr>]\<rparr>)
     else (Inl ErrDB, d))"

definition update_event :: "int \<Rightarrow> string \<Rightarrow> bytes \<Rightarrow> (seqdb, unit) op" where
  "update_event sq ty payload = stmt (\<lambda>d. (Inr (), d\<lparr>events := map (\<lambda>r.
     if evSeq r = sq then r\<lparr>evType := ty, evPayload := payload\<rparr> else r) (events d)\<rparr>))"

definition trimLocked :: "(int \<Rightarrow> string) \<Rightarrow> int \<Rightarrow> (seqdb, unit) op" where
  "trimLocked fmt_sec now = (let cutoff = rfc3339nano fmt_sec (now - BackfillWindow)
     in wrapf ''trimming events'' (stmt (\<lambda>d. (Inr (),
          d\<lparr>events := filter (\<lambda>r. \<not> evCreatedAt r < cutoff) (events d)\<rparr>))))"

definition liftE :: "go_error + 'a \<Rightarrow> ('s, 'a) op" where
  "liftE r = (case r of Inl e \<Rightarrow> gofail e | Inr x \<Rightarrow> goret x)"

text \<open>The transaction of \<^verbatim>\<open>Append\<close>: it yields the sequence number and the frame.\<close>

definition append_tx :: "cbor_lib \<Rightarrow> (int \<Rightarrow> string) \<Rightarrow> int \<Rightarrow> string \<Rightarrow> event \<Rightarrow> (seqdb, int \<times> bytes) op" where
  "append_tx lib fmt_sec now did evt = with_tx id (Wrapf ''committing event'')
     (gobind (wrapf ''allocating seq'' (insert_event did (rfc3339nano fmt_sec now))) (\<lambda>sq.
      gobind (liftE (SeqOf sq evt)) (\<lambda>(ty, evt').
      gobind (wrapf ''serializing event'' (liftE (Serialize lib evt'))) (\<lambda>payload.
      gobind (wrapf ''storing event'' (update_event sq ty payload)) (\<lambda>_.
      gobind (trimLocked fmt_sec now) (\<lambda>_. goret (sq, payload)))))))"

definition chan_cap :: nat where "chan_cap = 256"

definition offer :: "msg \<Rightarrow> msg list \<Rightarrow> msg list" where
  "offer m buf = (if length buf < chan_cap then buf @ [m] else buf)"

definition broadcast :: "int \<Rightarrow> bytes \<Rightarrow> seqdb \<Rightarrow> seqdb" where
  "broadcast sq payload d = d\<lparr>subs := map (\<lambda>(ch, buf). (ch, offer \<lparr>mSeq = sq, mPayload = payload\<rparr> buf)) (subs d)\<rparr>"

definition Append :: "cbor_lib \<Rightarrow> (int \<Rightarrow> string) \<Rightarrow> int \<Rightarrow> string \<Rightarrow> event \<Rightarrow> (seqdb, int) op" where
  "Append lib fmt_sec now did evt =
     gobind (append_tx lib fmt_sec now did evt) (\<lambda>(sq, payload) d. (Inr sq, broadcast sq payload d))"

section \<open>Reading\<close>

definition LatestSeq :: "(seqdb, int) op" where
  "LatestSeq = query_row (\<lambda>d. if events d = [] then 0 else Max (evSeq ` set (events d)))"

definition EarliestSeq :: "(seqdb, int) op" where
  "EarliestSeq = query_row (\<lambda>d. if events d = [] then 0 else Min (evSeq ` set (events d)))"

text \<open>The rows that the query of \<^verbatim>\<open>Backfill\<close> yields, and the loop that passes them to \<open>emit\<close>, which
  works on the caller's state; the query fails before anything is emitted.\<close>

definition backfill_rows :: "int \<Rightarrow> event_row list \<Rightarrow> (int \<times> bytes) list" where
  "backfill_rows since rs = map (\<lambda>r. (evSeq r, evPayload r)) (sort_key evSeq (filter (\<lambda>r. since < evSeq r) rs))"

definition Backfill :: "int \<Rightarrow> (int \<times> bytes \<Rightarrow> ('c, unit) op) \<Rightarrow> 'c \<Rightarrow> (seqdb, (go_error + unit) \<times> 'c) op" where
  "Backfill since emit c d =
     (case query_row (\<lambda>d. backfill_rows since (events d)) d of
        (Inl e, d') \<Rightarrow> (Inr (Inl (Wrapf ''querying backfill'' e), c), d')
      | (Inr rows, d') \<Rightarrow> (Inr (goeach emit rows c), d'))"

section \<open>Subscribing\<close>

text \<open>The channel is a fresh one; cancelling it twice is harmless.\<close>

definition Subscribe :: "(seqdb, nat) op" where
  "Subscribe d = (let ch = Suc (Max (insert 0 (fst ` set (subs d))))
     in (Inr ch, d\<lparr>subs := (ch, []) # subs d\<rparr>))"

definition cancel_sub :: "nat \<Rightarrow> seqdb \<Rightarrow> seqdb" where
  "cancel_sub ch d = d\<lparr>subs := filter (\<lambda>s. fst s \<noteq> ch) (subs d)\<rparr>"

text \<open>\<^verbatim>\<open><-liveCh\<close>: the oldest buffered message, if there is one.\<close>

definition receive :: "nat \<Rightarrow> seqdb \<Rightarrow> msg option \<times> seqdb" where
  "receive ch d = (case map_of (subs d) ch of
     None \<Rightarrow> (None, d)
   | Some [] \<Rightarrow> (None, d)
   | Some (m # ms) \<Rightarrow> (Some m, d\<lparr>subs := map (\<lambda>(c, buf). if c = ch then (c, ms) else (c, buf)) (subs d)\<rparr>))"

end
