(* ===== verification/SequencerSpec.thy ===== *)
theory SequencerSpec
  imports Sequencer
begin

text \<open>
  What the event log promises: sequence numbers that only grow and are never reused, an append that
  is all or nothing, a backfill that is exact, and a retention window. That an append moves a
  position strictly forward and that a failed one does not is the contract \<open>advancing\<close>.
\<close>

section \<open>Counters that only advance\<close>

text \<open>\<open>runs step es s\<close>: the results of the successful steps of a history, in order.\<close>

fun runs :: "('e \<Rightarrow> ('s, 'n) op) \<Rightarrow> 'e list \<Rightarrow> 's \<Rightarrow> 'n list" where
  "runs step [] s = []"
| "runs step (e # es) s = (case step e s of
     (Inl _, s') \<Rightarrow> runs step es s' | (Inr n, s') \<Rightarrow> n # runs step es s')"

fun run_end :: "('e \<Rightarrow> ('s, 'n) op) \<Rightarrow> 'e list \<Rightarrow> 's \<Rightarrow> 's" where
  "run_end step [] s = s"
| "run_end step (e # es) s = run_end step es (snd (step e s))"

locale advancing =
  fixes inv :: "'s \<Rightarrow> bool"
    and position :: "'s \<Rightarrow> 'n::linorder"
    and step :: "'e \<Rightarrow> ('s, 'n) op"
  assumes step_inv: "preserves inv (step e)"
    and step_ok: "inv s \<Longrightarrow> step e s = (Inr n, s') \<Longrightarrow> position s < n \<and> position s' = n"
    and step_err: "inv s \<Longrightarrow> step e s = (Inl x, s') \<Longrightarrow> position s' = position s"
begin

lemma runs_increase:
  assumes "inv s"
  shows "sorted_wrt (<) (runs step es s) \<and> (\<forall>n \<in> set (runs step es s). position s < n)"
  using assms
proof (induction es arbitrary: s)
  case Nil
  then show ?case by simp
next
  case (Cons e es)
  obtain r s' where r: "step e s = (r, s')" by fastforce
  have i: "inv s'" using preservesE [OF step_inv r Cons.prems] .
  show ?case
  proof (cases r)
    case (Inl x)
    then show ?thesis using Cons.IH [OF i] step_err [of s e x s'] r Cons.prems by simp
  next
    case (Inr n)
    then have "position s < n" "position s' = n" using step_ok [of s e n s'] r Cons.prems by auto
    then show ?thesis using Cons.IH [OF i] r Inr by auto
  qed
qed

end

section \<open>One append\<close>

definition seq_inv :: "seqdb \<Rightarrow> bool" where
  "seq_inv d \<longleftrightarrow> sorted_wrt (<) (map evSeq (events d)) \<and> 0 \<le> last_seq d
     \<and> (\<forall>r \<in> set (events d). 1 \<le> evSeq r \<and> evSeq r \<le> last_seq d)"

text \<open>The row an append stores.\<close>

definition new_row :: "(int \<Rightarrow> string) \<Rightarrow> int \<Rightarrow> string \<Rightarrow> int \<Rightarrow> string \<Rightarrow> bytes \<Rightarrow> event_row" where
  "new_row fmt_sec now did sq ty payload = \<lparr>evSeq = sq, evDID = did, evType = ty,
     evPayload = payload, evCreatedAt = rfc3339nano fmt_sec now\<rparr>"

definition retained :: "(int \<Rightarrow> string) \<Rightarrow> int \<Rightarrow> event_row \<Rightarrow> bool" where
  "retained fmt_sec now r \<longleftrightarrow> \<not> evCreatedAt r < rfc3339nano fmt_sec (now - BackfillWindow)"

lemma liftE_Inr [simp]: "liftE r s = (Inr x, t) \<longleftrightarrow> r = Inr x \<and> t = s"
  by (auto simp: liftE_def split: sum.splits)

lemma update_new_row:
  assumes "\<forall>r \<in> set rs. evSeq r \<noteq> sq"
  shows "map (\<lambda>r. if evSeq r = sq then r\<lparr>evType := ty, evPayload := p\<rparr> else r) rs = rs"
  using assms by (intro map_idI) auto

lemma append_tx_ok:
  assumes "append_tx lib fmt_sec now did evt d = (Inr (sq, payload), d')" "seq_inv d"
  shows "sq = last_seq d + 1 \<and> last_seq d' = sq \<and> subs d' = subs d
    \<and> (\<exists>ty evt'. SeqOf sq evt = Inr (ty, evt') \<and> Serialize lib evt' = Inr payload
         \<and> events d' = filter (retained fmt_sec now) (events d @ [new_row fmt_sec now did sq ty payload]))"
proof -
  have fresh: "\<forall>r \<in> set (events d). evSeq r \<noteq> last_seq d + 1"
    using assms(2) by (force simp: seq_inv_def)
  obtain d2 t where d2: "d' = d2\<lparr>tape := t\<rparr>" and
    "(gobind (wrapf ''allocating seq'' (insert_event did (rfc3339nano fmt_sec now))) (\<lambda>sq.
      gobind (liftE (SeqOf sq evt)) (\<lambda>(ty, evt').
      gobind (wrapf ''serializing event'' (liftE (Serialize lib evt'))) (\<lambda>payload.
      gobind (wrapf ''storing event'' (update_event sq ty payload)) (\<lambda>_.
      gobind (trimLocked fmt_sec now) (\<lambda>_. goret (sq, payload)))))))
      (d\<lparr>tape := tl (tape d)\<rparr>) = (Inr (sq, payload), d2)"
    using assms(1) unfolding append_tx_def by (rule with_tx_Inr)
  then show ?thesis
    using update_new_row [OF fresh]
    by (auto simp: gobind_Inr_iff insert_event_def stmt_Inr_iff update_event_def
        trimLocked_def retained_def [abs_def] new_row_def
        simp del: filter.simps filter_append split: if_splits prod.splits)
qed

lemma append_tx_err: "append_tx lib fmt_sec now did evt d = (Inl e, d') \<Longrightarrow> \<exists>t. d' = d\<lparr>tape := t\<rparr>"
  by (auto simp: append_tx_def dest: with_tx_atomic)

lemma Append_ok:
  assumes "Append lib fmt_sec now did evt d = (Inr sq, d')" "seq_inv d"
  obtains ty evt' payload where "sq = last_seq d + 1" "last_seq d' = sq"
    "SeqOf sq evt = Inr (ty, evt')" "Serialize lib evt' = Inr payload"
    "events d' = filter (retained fmt_sec now) (events d @ [new_row fmt_sec now did sq ty payload])"
    "subs d' = map (\<lambda>(ch, buf). (ch, offer \<lparr>mSeq = sq, mPayload = payload\<rparr> buf)) (subs d)"
proof -
  obtain p d1 where tx: "append_tx lib fmt_sec now did evt d = (Inr (sq, p), d1)"
    and d': "d' = broadcast sq p d1"
    using assms(1) by (auto simp: Append_def gobind_Inr_iff)
  show ?thesis using append_tx_ok [OF tx assms(2)] d' that by (auto simp: broadcast_def)
qed

lemma Append_err: "Append lib fmt_sec now did evt d = (Inl e, d') \<Longrightarrow> \<exists>t. d' = d\<lparr>tape := t\<rparr>"
  by (auto simp: Append_def gobind_Inl_iff dest: append_tx_err)

lemma seq_inv_grow:
  assumes "seq_inv d" "last_seq d' = last_seq d + 1"
    "events d' = filter p (events d @ [r])" "evSeq r = last_seq d + 1"
  shows "seq_inv d'"
  using assms
  by (force simp: seq_inv_def sorted_wrt_append sorted_wrt_map sorted_wrt_filter)

lemma seq_inv_Append: "preserves seq_inv (Append lib fmt_sec now did evt)"
proof (rule preservesI)
  fix d r d' assume i: "seq_inv d" and run: "Append lib fmt_sec now did evt d = (r, d')"
  show "seq_inv d'"
  proof (cases r)
    case (Inl e)
    then show ?thesis using Append_err [of lib fmt_sec now did evt d e d'] run i
      by (auto simp: seq_inv_def)
  next
    case (Inr sq)
    obtain ty evt' p where "sq = last_seq d + 1" "last_seq d' = sq"
      "events d' = filter (retained fmt_sec now) (events d @ [new_row fmt_sec now did sq ty p])"
      using Append_ok [OF run [unfolded Inr] i] by metis
    then show ?thesis by (intro seq_inv_grow [OF i]) (auto simp: new_row_def)
  qed
qed

type_synonym append_call = "int \<times> string \<times> event"

definition append_call :: "cbor_lib \<Rightarrow> (int \<Rightarrow> string) \<Rightarrow> append_call \<Rightarrow> (seqdb, int) op" where
  "append_call lib fmt_sec c = (case c of (now, did, evt) \<Rightarrow> Append lib fmt_sec now did evt)"

interpretation event_log: advancing seq_inv last_seq "append_call lib fmt_sec" for lib fmt_sec
proof unfold_locales
  fix e show "preserves seq_inv (append_call lib fmt_sec e)"
    by (simp add: append_call_def seq_inv_Append split: prod.split)
next
  fix s e n s' assume "seq_inv s" "append_call lib fmt_sec e s = (Inr n, s')"
  then show "last_seq s < n \<and> last_seq s' = n"
    by (auto simp: append_call_def split: prod.splits elim!: Append_ok)
next
  fix s e x s' assume "append_call lib fmt_sec e s = (Inl x, s')"
  then show "last_seq s' = last_seq s"
    by (auto simp: append_call_def split: prod.splits dest: Append_err)
qed

text \<open>The firehose's sequence numbers strictly increase over any history of appends, at any
  times, of any events and with any failures in between, and no number is used twice: a number
  whose event was trimmed or whose transaction failed after others committed is not handed out
  again.\<close>

theorem append_seqs_increase:
  "sorted_wrt (<) (runs (append_call lib fmt_sec) calls (empty_seqdb faults))"
  by (rule conjunct1 [OF event_log.runs_increase]) (simp add: seq_inv_def empty_seqdb_def)

text \<open>An append is all or nothing. When it fails, whatever the reason, neither the log nor a
  subscriber's buffer has changed. When it succeeds, the log is the old log and one new event,
  minus the events outside the retention window, the new event's payload is the frame of the
  event stamped with its number, and every subscriber whose buffer has room has gained exactly
  that message as its last.\<close>

theorem append_all_or_nothing:
  assumes "seq_inv d"
  shows "case Append lib fmt_sec now did evt d of
     (Inl _, d') \<Rightarrow> \<exists>t. d' = d\<lparr>tape := t\<rparr>
   | (Inr sq, d') \<Rightarrow> sq = last_seq d + 1 \<and>
       (\<exists>ty evt' payload. SeqOf sq evt = Inr (ty, evt') \<and> Serialize lib evt' = Inr payload
          \<and> events d' = filter (retained fmt_sec now) (events d @ [new_row fmt_sec now did sq ty payload])
          \<and> (\<forall>ch buf. map_of (subs d) ch = Some buf \<longrightarrow> map_of (subs d') ch =
               Some (if length buf < 256 then buf @ [\<lparr>mSeq = sq, mPayload = payload\<rparr>] else buf)))"
proof (cases "Append lib fmt_sec now did evt d")
  case (Pair r d')
  show ?thesis
  proof (cases r)
    case (Inl e)
    then show ?thesis using Pair Append_err by simp
  next
    case (Inr sq)
    have look: "map_of (map (\<lambda>(ch, buf). (ch, f buf)) xs) ch = map_option f (map_of xs ch)"
      for f :: "msg list \<Rightarrow> msg list" and xs and ch :: nat
      by (induction xs) auto
    show ?thesis
      using Pair Inr assms
      by (auto simp: look offer_def chan_cap_def elim!: Append_ok)
  qed
qed

section \<open>The retention window\<close>

lemma less_append_same_length:
  "length xs = length ys \<Longrightarrow> xs < ys \<Longrightarrow> xs @ us < ys @ (vs :: 'a::linorder list)"
  by (induction xs ys rule: list_induct2) auto

lemma append_less_cancel: "xs @ us < xs @ vs \<longleftrightarrow> us < (vs :: 'a::linorder list)"
  by (induction xs) auto

text \<open>What the code relies on in \<^verbatim>\<open>time.Format\<close>: up to the last second of the year 9999 the date and
  time have a fixed width and sort like the instants.\<close>

definition last_second :: int where
  "last_second = 253402300799"

definition fmt_ok :: "(int \<Rightarrow> string) \<Rightarrow> bool" where
  "fmt_ok fmt_sec \<longleftrightarrow> (\<forall>s t. 0 \<le> s \<and> s < t \<and> t \<le> last_second \<longrightarrow>
     length (fmt_sec s) = length (fmt_sec t) \<and> fmt_sec s < fmt_sec t)"

lemma rfc3339nano_less:
  assumes "fmt_ok fmt_sec" "0 \<le> a" "a div 1000000000 < b div 1000000000"
    "b div 1000000000 \<le> last_second"
  shows "rfc3339nano fmt_sec a < rfc3339nano fmt_sec b"
proof -
  have "0 \<le> a div 1000000000" using assms(2) by simp
  then have "length (fmt_sec (a div 1000000000)) = length (fmt_sec (b div 1000000000))"
    "fmt_sec (a div 1000000000) < fmt_sec (b div 1000000000)"
    using assms by (auto simp: fmt_ok_def)
  then show ?thesis unfolding rfc3339nano_def by (rule less_append_same_length)
qed

text \<open>C23. Trimming keeps the 72 hour window to the second: an event created in a later second than
  the cutoff (the event being appended in particular) is kept, one created in an earlier second
  is deleted, and nothing else in the log changes.\<close>

theorem trim_keeps_window:
  assumes "fmt_ok fmt_sec" "BackfillWindow \<le> now" "now div 1000000000 \<le> last_second"
    and "trimLocked fmt_sec now d = (Inr (), d')"
    and "r \<in> set (events d)" "evCreatedAt r = rfc3339nano fmt_sec t"
      "0 \<le> t" "t div 1000000000 \<le> last_second"
  shows "((now - BackfillWindow) div 1000000000 < t div 1000000000 \<longrightarrow> r \<in> set (events d'))
     \<and> (t div 1000000000 < (now - BackfillWindow) div 1000000000 \<longrightarrow> r \<notin> set (events d'))
     \<and> (\<exists>p. events d' = filter p (events d))"
proof -
  let ?cut = "now - BackfillWindow"
  have cut: "0 \<le> ?cut" "?cut div 1000000000 \<le> last_second"
    using assms(2,3) zdiv_mono1 [of ?cut now 1000000000] by (simp_all add: BackfillWindow_def hour_def)
  have d': "events d' = filter (\<lambda>r. \<not> evCreatedAt r < rfc3339nano fmt_sec ?cut) (events d)"
    using assms(4) by (auto simp: trimLocked_def stmt_Inr_iff)
  have later: "\<not> rfc3339nano fmt_sec t < rfc3339nano fmt_sec ?cut"
    if "?cut div 1000000000 < t div 1000000000"
    using rfc3339nano_less [OF assms(1) cut(1) that assms(8)] by (simp add: less_imp_not_less)
  have earlier: "rfc3339nano fmt_sec t < rfc3339nano fmt_sec ?cut"
    if "t div 1000000000 < ?cut div 1000000000"
    using rfc3339nano_less [OF assms(1,7) that cut(2)] .
  show ?thesis using assms(5,6) later earlier by (auto simp: d')
qed

lemma pad_dec_shift: "pad_dec (w + k) (n * 10 ^ k) = pad_dec w n @ replicate k (digit 0)"
proof (induction k)
  case (Suc k)
  have "pad_dec (w + Suc k) (n * 10 ^ Suc k) = pad_dec (w + k) (n * 10 ^ k) @ [digit 0]"
    by (simp add: mult.left_commute)
  then show ?case using Suc by (simp add: replicate_append_same)
qed simp

lemma trim_right_replicate [simp]: "trim_right c (xs @ replicate k c) = trim_right c xs"
  by (simp add: trim_right_def dropWhile_append)

lemma frac_text_half: "frac_text 500000000 = ''.5''"
proof -
  have z: "digit 0 = CHR ''0''" by code_simp
  have f: "digit 5 = CHR ''5''" by code_simp
  have "pad_dec 9 500000000 = digit 5 # replicate 8 (CHR ''0'')"
    using pad_dec_shift [of 1 8 5] by (simp add: z)
  then have "trim_right (CHR ''0'') (pad_dec 9 500000000) = trim_right (CHR ''0'') [digit 5]"
    using trim_right_replicate [of "CHR ''0''" "[digit 5]" 8] by (simp del: trim_right_replicate)
  then show ?thesis by (simp add: frac_text_def f trim_right_def)
qed

text \<open>C24. Within the second of the cutoff the window is not kept: the fraction of a second is written
  without trailing zeros and compared as text, so when the cutoff falls on a whole second, an event
  created half a second after it, well inside the 72 hours, is deleted.\<close>

theorem trim_deletes_inside_window:
  assumes "now mod 1000000000 = 0"
    and "trimLocked fmt_sec now d = (Inr (), d')"
    and "evCreatedAt r = rfc3339nano fmt_sec (now - BackfillWindow + 500000000)"
  shows "r \<notin> set (events d')"
proof -
  let ?cut = "now - BackfillWindow"
  obtain q0 where "now = 1000000000 * q0" using assms(1) by (auto simp: mod_eq_0_iff_dvd)
  then obtain q where q: "?cut = 1000000000 * q"
    by (intro that [of "q0 - 259200"]) (simp add: BackfillWindow_def hour_def)
  have e: "(?cut + 500000000) div 1000000000 = ?cut div 1000000000"
    "(?cut + 500000000) mod 1000000000 = 500000000" and m: "?cut mod 1000000000 = 0"
    unfolding q by simp_all
  have frac: "frac_text (nat 500000000) = ''.5''"
    using frac_text_half by simp
  have "rfc3339nano fmt_sec (?cut + 500000000) < rfc3339nano fmt_sec ?cut"
    unfolding rfc3339nano_def e m frac by (simp add: append_less_cancel frac_text_def less_char_def)
  then show ?thesis using assms(2,3) by (auto simp: trimLocked_def stmt_Inr_iff)
qed

section \<open>Backfill\<close>

lemma backfill_rows_exact:
  assumes "seq_inv d"
  shows "backfill_rows since (events d) =
    map (\<lambda>r. (evSeq r, evPayload r)) (filter (\<lambda>r. since < evSeq r) (events d))"
proof -
  have "sorted (map evSeq (filter (\<lambda>r. since < evSeq r) (events d)))"
    using assms(1) strict_sorted_imp_sorted
    by (metis (no_types, lifting) seq_inv_def sorted_filter)
  then have "sort_key evSeq (filter (\<lambda>r. since < evSeq r) (events d)) =
      filter (\<lambda>r. since < evSeq r) (events d)"
    by (rule sort_key_id_if_sorted)
  then show ?thesis by (simp add: backfill_rows_def)
qed

text \<open>Backfill is exact: on a log in order, it passes to the caller every stored event after the
  cursor, in order and once, and stops at the caller's first error.\<close>

theorem backfill_exact:
  assumes "seq_inv d" "\<not> next_fault (tape d)"
  shows "fst (Backfill since emit c d) = Inr (goeach emit
     (map (\<lambda>r. (evSeq r, evPayload r)) (filter (\<lambda>r. since < evSeq r) (events d))) c)"
  using assms(2) by (simp add: Backfill_def query_row_def backfill_rows_exact [OF assms(1)])

section \<open>Witnesses\<close>

text \<open>A formatter that satisfies \<open>fmt_ok\<close>: the second in twelve decimal digits.\<close>

definition demo_fmt :: "int \<Rightarrow> string" where
  "demo_fmt s = pad_dec 12 (nat s)"

lemma length_pad_dec [simp]: "length (pad_dec w n) = w"
  by (induction w arbitrary: n) auto

lemma digit_less: "a < b \<Longrightarrow> b < 10 \<Longrightarrow> digit a < digit b"
  by (simp add: less_char_def)

lemma pad_dec_less: "m < n \<Longrightarrow> n < 10 ^ w \<Longrightarrow> pad_dec w m < pad_dec w n"
proof (induction w arbitrary: m n)
  case (Suc w)
  have bound: "n div 10 < 10 ^ w" using Suc.prems(2) by (simp add: less_mult_imp_div_less mult.commute)
  have "m div 10 \<le> n div 10" using Suc.prems(1) by (simp add: div_le_mono)
  moreover have "m mod 10 < n mod 10" if "m div 10 = n div 10"
    using Suc.prems(1) that mod_mult_div_eq [of m 10] mod_mult_div_eq [of n 10] by linarith
  ultimately consider "m div 10 < n div 10" | "m div 10 = n div 10" "m mod 10 < n mod 10"
    by (metis le_less)
  then show ?case
  proof cases
    case 1
    then show ?thesis
      using Suc.IH [OF 1 bound] by (auto intro: less_append_same_length)
  next
    case 2
    then show ?thesis using digit_less [OF 2(2)] by (simp add: append_less_cancel)
  qed
qed simp

lemma demo_fmt_ok: "fmt_ok demo_fmt"
proof -
  have "pad_dec 12 (nat s) < pad_dec 12 (nat t)" if "0 \<le> s" "s < t" "t \<le> last_second" for s t
    using that by (intro pad_dec_less) (auto simp: last_second_def nat_less_iff)
  then show ?thesis by (simp add: fmt_ok_def demo_fmt_def)
qed

definition demo_cbor :: cbor_lib where
  "demo_cbor = \<lparr>cbor_dump = (\<lambda>v. Inr [of_nat (length v)]), cbor_body = (\<lambda>b. Inr [7])\<rparr>"

definition demo_account_event :: event where
  "demo_account_event = no_event\<lparr>RepoAccount := Some \<lparr>amDid = ''did:plc:a'', amActive = True,
     amStatus = None, amTime = '''', amSeq = 0\<rparr>\<rparr>"

definition demo_log :: seqdb where
  "demo_log = \<lparr>tape = [], events = [new_row demo_fmt 5000000000 ''did:plc:a'' 3 ''#account'' [1]],
     last_seq = 3, subs = [(1, [])]\<rparr>"

lemma demo_log_inv: "seq_inv demo_log" "\<not> next_fault (tape demo_log)"
  by (simp_all add: seq_inv_def demo_log_def new_row_def)

theorem append_all_or_nothing_witness:
  "\<exists>sq d'. Append demo_cbor demo_fmt 6000000000 ''did:plc:a'' demo_account_event demo_log = (Inr sq, d')
     \<and> sq = 4 \<and> map_of (subs d') 1 = Some [\<lparr>mSeq = 4, mPayload = [2, 7]\<rparr>]"
proof -
  let ?r = "Append demo_cbor demo_fmt 6000000000 ''did:plc:a'' demo_account_event demo_log"
  have s: "SeqOf 4 demo_account_event = Inr (ty, e) \<Longrightarrow> Serialize demo_cbor e = Inr p \<Longrightarrow> p = [2, 7]" for ty e p
    by (auto simp: SeqOf_def demo_account_event_def no_event_def Serialize_def both_def writeCBOR_def
        demo_cbor_def frame_header_def)
  have ok: "\<exists>sq d'. ?r = (Inr sq, d')"
    by (simp add: Append_def append_tx_def with_tx_def insert_event_def SeqOf_def update_event_def
        demo_account_event_def no_event_def Serialize_def both_def writeCBOR_def demo_cbor_def
        trimLocked_def demo_log_def gobind_def wrapf_def liftE_def stmt_def)
  then show ?thesis
    using append_all_or_nothing [OF demo_log_inv(1), where lib = demo_cbor and fmt_sec = demo_fmt
        and now = 6000000000 and did = "''did:plc:a''" and evt = demo_account_event] s
    by (fastforce simp: demo_log_def)
qed

theorem trim_keeps_window_witness:
  "\<exists>d'. trimLocked demo_fmt (BackfillWindow + 3000000000) demo_log = (Inr (), d') \<and> events d' = events demo_log"
proof -
  let ?r = "new_row demo_fmt 5000000000 ''did:plc:a'' 3 ''#account'' [1]"
  let ?d = "snd (trimLocked demo_fmt (BackfillWindow + 3000000000) demo_log)"
  have ok: "trimLocked demo_fmt (BackfillWindow + 3000000000) demo_log = (Inr (), ?d)"
    by (simp add: trimLocked_def demo_log_def wrapf_def stmt_def)
  have "?r \<in> set (events ?d) \<and> (\<exists>p. events ?d = filter p (events demo_log))"
    using trim_keeps_window [OF demo_fmt_ok _ _ ok, of ?r 5000000000]
    by (simp add: demo_log_def new_row_def last_second_def BackfillWindow_def hour_def)
  then show ?thesis using ok by (auto simp: demo_log_def split: if_splits)
qed

theorem trim_deletes_inside_window_witness:
  "events (snd (trimLocked demo_fmt (BackfillWindow + 4000000000)
     (demo_log\<lparr>events := [new_row demo_fmt 4500000000 ''did:plc:a'' 3 ''#account'' [1]]\<rparr>))) = []"
proof -
  let ?r = "new_row demo_fmt 4500000000 ''did:plc:a'' 3 ''#account'' [1]"
  let ?d0 = "demo_log\<lparr>events := [?r]\<rparr>"
  let ?d = "snd (trimLocked demo_fmt (BackfillWindow + 4000000000) ?d0)"
  have ok: "trimLocked demo_fmt (BackfillWindow + 4000000000) ?d0 = (Inr (), ?d)"
    by (simp add: trimLocked_def demo_log_def wrapf_def stmt_def)
  have "?r \<notin> set (events ?d)"
    using trim_deletes_inside_window [OF _ ok, of ?r]
    by (simp add: new_row_def BackfillWindow_def hour_def)
  moreover have "set (events ?d) \<subseteq> {?r}"
    by (simp add: trimLocked_def demo_log_def wrapf_def stmt_def)
  ultimately show ?thesis by (metis Diff_insert_absorb insert_absorb set_empty subset_singletonD insertI1)
qed

theorem backfill_exact_witness:
  "fst (Backfill 2 (\<lambda>x c. (Inr (), c @ [x])) [] demo_log) = Inr (Inr (), [(3, [1])])"
  using backfill_exact [OF demo_log_inv, of 2 "\<lambda>x c. (Inr (), c @ [x])" "[]"]
  by (simp add: demo_log_def new_row_def gobind_def)

end
