(* ===== verification/ActorSpec.thy ===== *)
theory ActorSpec
  imports ActorStore StoreSpec
begin

text \<open>
  What the actor stores promise: the constraints of their tables, that the paths built from a DID
  stay inside the data directory, that public reads allocate nothing, and that a client which
  follows the cursors of the two listings sees every row once. The listings share the contract
  \<open>pager\<close>, whose lemmas are proved once.
\<close>

section \<open>Tables\<close>

definition actor_inv :: "actordb \<Rightarrow> bool" where
  "actor_inv d \<longleftrightarrow> no_clash block_clash (blocks d) \<and> no_clash record_clash (records d)
     \<and> no_clash blob_clash (blobs d) \<and> no_clash blob_ref_clash (blob_refs d)"

lemma tapefree_actor_inv [simp, intro]: "tapefree actor_inv"
  by (rule tapefreeI) (simp add: actor_inv_def)

lemma actor_keys:
  "no_clash block_clash bs \<longleftrightarrow> distinct (map fst bs)"
  "no_clash record_clash rs \<longleftrightarrow> distinct (map rec_key rs)"
  "no_clash blob_clash bl \<longleftrightarrow> distinct (map blCID bl)"
  "no_clash blob_ref_clash br \<longleftrightarrow> distinct br"
proof -
  have eqs: "block_clash = (\<lambda>a b. fst a = fst b)" "record_clash = (\<lambda>a b. rec_key a = rec_key b)"
    "blob_clash = (\<lambda>a b. blCID a = blCID b)" "blob_ref_clash = (\<lambda>a b. id a = id b)"
    by (simp_all add: fun_eq_iff actor_clash_defs)
  show "no_clash block_clash bs \<longleftrightarrow> distinct (map fst bs)" unfolding eqs(1) by (rule no_clash_key)
  show "no_clash record_clash rs \<longleftrightarrow> distinct (map rec_key rs)" unfolding eqs(2) by (rule no_clash_key)
  show "no_clash blob_clash bl \<longleftrightarrow> distinct (map blCID bl)" unfolding eqs(3) by (rule no_clash_key)
  show "no_clash blob_ref_clash br \<longleftrightarrow> distinct br"
    unfolding eqs(4) using no_clash_key [of id br] by simp
qed

lemma preserves_exec_upsert [preserves_intros]:
  assumes "tapefree P" "\<And>s. P s \<Longrightarrow> P (upd (sql_upsert c f r) s)"
  shows "preserves P (exec_upsert upd c f r)"
  unfolding exec_upsert_def
  by (rule preserves_stmt [OF assms(1)]) (simp add: preserves_def assms(2))

lemma record_upsert_keys:
  "no_clash record_clash rs \<Longrightarrow> no_clash record_clash
     (sql_upsert record_clash (\<lambda>r. r\<lparr>recCID := c\<rparr>) row rs)"
proof -
  assume a: "no_clash record_clash rs"
  have eq: "record_clash = (\<lambda>a b. rec_key a = rec_key b)" by (simp add: fun_eq_iff record_clash_def)
  have "distinct (map rec_key (sql_upsert (\<lambda>a b. rec_key a = rec_key b) (\<lambda>r. r\<lparr>recCID := c\<rparr>) row rs))"
    using a by (intro no_clash_upsert_key) (simp_all add: actor_keys rec_key_def)
  then show ?thesis unfolding eq no_clash_key .
qed

lemma preserves_write [preserves_intros]:
  assumes "tapefree P" "\<And>s. P s \<Longrightarrow> P (f s)"
  shows "preserves P (stmt (\<lambda>s. (Inr x, f s)))"
  by (rule preserves_stmt [OF assms(1)]) (simp add: preserves_def assms(2))

lemma actor_inv_ops [preserves_intros]:
  "preserves actor_inv (bs_Put b)"
  "preserves actor_inv (SetRepoRoot c rv)"
  "preserves actor_inv (PutRecordIndex coll rk c)"
  "preserves actor_inv (DeleteRecordIndex coll rk)"
  "preserves actor_inv (PutBlobMeta c mime sz)"
  "preserves actor_inv (AddBlobRef c coll rk)"
  "preserves actor_inv (ClearBlobRefsForRecord coll rk)"
  "preserves actor_inv ClearRepo"
  by (auto simp: bs_Put_def SetRepoRoot_def PutRecordIndex_def DeleteRecordIndex_def PutBlobMeta_def
      AddBlobRef_def ClearBlobRefsForRecord_def ClearRepo_def actor_inv_def record_upsert_keys
      intro!: preserves_intros tapefreeI)

section \<open>Paths\<close>

definition plain_name :: "string \<Rightarrow> bool" where
  "plain_name s \<longleftrightarrow> s \<noteq> '''' \<and> s \<noteq> ''.'' \<and> s \<noteq> ''..'' \<and> CHR ''/'' \<notin> set s"

lemma clean_path_snoc: "plain_name p \<Longrightarrow> clean_path rooted (ps @ [p]) = clean_path rooted ps @ [p]"
  by (simp add: clean_path_def plain_name_def)

lemma path_join_snoc:
  assumes "plain_name s" "plain_name p"
  shows "path_join [base, s, p] = path_join [base, s] @ [p]"
proof -
  have s: "split_on (CHR ''/'') s = [s]" and p: "split_on (CHR ''/'') p = [p]"
    using assms by (simp_all add: plain_name_def split_on_notin)
  have "p \<noteq> ''''" "s \<noteq> ''''" using assms by (simp_all add: plain_name_def)
  then show ?thesis
    using clean_path_snoc [OF assms(2), of _ "_ @ [s]"] clean_path_snoc [OF assms(2), of _ "[s]"]
    by (cases "base = ''''") (simp_all add: path_join_def Let_def s p)
qed

text \<open>\<^verbatim>\<open>syntax.ParseDID\<close> accepts only strings that start with \<^verbatim>\<open>did:\<close>.\<close>

definition did_syntax :: "(string \<Rightarrow> go_error + string) \<Rightarrow> bool" where
  "did_syntax parse_did \<longleftrightarrow> (\<forall>s x. parse_did s = Inr x \<longrightarrow> has_prefix s ''did:'')"

lemma validDID_plain:
  assumes "did_syntax parse_did" "validDID parse_did did = Inr ()"
  shows "plain_name did \<and> plain_name (did @ ''.db'')"
proof -
  have "has_prefix did ''did:''"
    using assms by (auto simp: validDID_def did_syntax_def split: sum.splits)
  then obtain t where "did = ''did:'' @ t" by (auto simp: has_prefix_iff)
  moreover have "CHR ''/'' \<notin> set did"
    using assms(2) by (auto simp: validDID_def split: sum.splits if_splits)
  ultimately show ?thesis by (simp add: plain_name_def)
qed

text \<open>C21. No path traversal: the database and the blob directory of every DID that \<open>validDID\<close>
  accepts are direct children of \<^verbatim>\<open>actors\<close> and \<^verbatim>\<open>blobs\<close> under the data directory, with the
  DID as the name, whatever the client supplied; so two DIDs never share a file.\<close>

theorem actor_paths_stay_inside:
  assumes "did_syntax parse_did" "validDID parse_did did = Inr ()"
  shows "actorDBPath dataDir did = path_join [dataDir, ''actors''] @ [did @ ''.db'']
       \<and> actorBlobDir dataDir did = path_join [dataDir, ''blobs''] @ [did]
       \<and> (\<forall>did'. actorDBPath dataDir did' = actorDBPath dataDir did \<and> validDID parse_did did' = Inr ()
            \<longrightarrow> did' = did)"
proof -
  have db: "actorDBPath dataDir x = path_join [dataDir, ''actors''] @ [x @ ''.db'']"
    if "validDID parse_did x = Inr ()" for x
    using validDID_plain [OF assms(1) that]
    unfolding actorDBPath_def by (intro path_join_snoc) (simp_all add: plain_name_def)
  have "actorBlobDir dataDir did = path_join [dataDir, ''blobs''] @ [did]"
    using validDID_plain [OF assms]
    unfolding actorBlobDir_def by (intro path_join_snoc) (simp_all add: plain_name_def)
  then show ?thesis using db assms(2) by auto
qed

definition demo_parse_did :: "string \<Rightarrow> go_error + string" where
  "demo_parse_did s = (if has_prefix s ''did:'' then Inr s else Inl (ErrMsg ''DID syntax''))"

theorem actor_paths_stay_inside_witness:
  "actorDBPath ''/var/robby/'' ''did:plc:abc'' = [''var'', ''robby'', ''actors'', ''did:plc:abc.db'']
     \<and> validDID demo_parse_did ''did:web:x/../../etc'' \<noteq> Inr ()"
proof -
  have "did_syntax demo_parse_did" by (simp add: did_syntax_def demo_parse_did_def)
  moreover have "validDID demo_parse_did ''did:plc:abc'' = Inr ()"
    by (simp add: validDID_def demo_parse_did_def has_prefix_def contains_def upt_rec)
  ultimately have "actorDBPath ''/var/robby/'' ''did:plc:abc'' =
      path_join [''/var/robby/'', ''actors''] @ [''did:plc:abc'' @ ''.db'']"
    using actor_paths_stay_inside [of demo_parse_did "''did:plc:abc''" "''/var/robby/''"] by blast
  then show ?thesis
    by (simp add: path_join_def clean_path_def has_prefix_def validDID_def demo_parse_did_def)
qed

section \<open>Opening a store\<close>

text \<open>Public reads allocate nothing: whatever DID the caller supplies and whatever fails,
  \<open>GetExisting\<close> creates no database, no blob directory and no lock, and adds a cache entry only
  for a store whose database and blob directory were both already on disk.\<close>

theorem get_existing_allocates_nothing:
  "case mgr_GetExisting parse_did did m of (r, m') \<Rightarrow>
     disk m' = disk m \<and> set (blob_dirs m') = set (blob_dirs m) \<and> locks m' = locks m
     \<and> (cached m' = cached m \<or>
        (disk m did \<noteq> None \<and> did \<in> set (blob_dirs m) \<and> cached m' = did # cached m))
     \<and> (case r of Inr _ \<Rightarrow> did \<in> set (cached m') | Inl _ \<Rightarrow> True)"
proof -
  have same: "(disk m)(did \<mapsto> (case disk m did of None \<Rightarrow> empty_actordb (fresh m did) | Some d \<Rightarrow> d)) = disk m"
    if "disk m did \<noteq> None"
    using that by (auto simp: fun_eq_iff)
  show ?thesis
    by (auto simp: mgr_GetExisting_def Open_def stat_ok_def gobind_def wrapf_def stmt_def Let_def
        create_db_def same insert_absorb split: sum.split)
qed

section \<open>Listing by cursor\<close>

text \<open>
  The contract of a listing: \<open>all\<close> is what there is to list, in order, the cursor is the key of the
  last row already seen (empty for the first page), and a page is at most \<open>n\<close> of the rows after
  it. A client asks again with the last key until a page is shorter than it asked for.
\<close>

fun follow :: "(string \<Rightarrow> nat \<Rightarrow> 'r list) \<Rightarrow> ('r \<Rightarrow> string) \<Rightarrow> nat \<Rightarrow> nat \<Rightarrow> string \<Rightarrow> 'r list" where
  "follow page key n 0 c = []"
| "follow page key n (Suc k) c =
     (let p = page c n in if length p = n then p @ follow page key n k (key (last p)) else p)"

locale pager =
  fixes inv :: "'s \<Rightarrow> bool"
    and page :: "'s \<Rightarrow> string \<Rightarrow> nat \<Rightarrow> 'r list"
    and key :: "'r \<Rightarrow> string"
    and before :: "string \<Rightarrow> string \<Rightarrow> bool"
    and whole :: "'s \<Rightarrow> 'r list"
  assumes page_eq: "inv s \<Longrightarrow> page s c n = take n (filter (\<lambda>r. c = '''' \<or> before c (key r)) (whole s))"
    and ordered: "inv s \<Longrightarrow> sorted_wrt (\<lambda>a b. before (key a) (key b)) (whole s)"
    and asym: "before a b \<Longrightarrow> \<not> before b a"
    and named: "inv s \<Longrightarrow> r \<in> set (whole s) \<Longrightarrow> key r \<noteq> ''''"
begin

lemma after_last:
  assumes "inv s" "whole s = xs @ ys" "xs \<noteq> []"
  shows "filter (\<lambda>r. before (key (last xs)) (key r)) (whole s) = ys"
proof -
  have irr: "\<not> before a a" for a using asym [of a a] by blast
  have "\<not> before (key (last xs)) (key x)" if "x \<in> set xs" for x
  proof -
    have s: "sorted_wrt (\<lambda>a b. before (key a) (key b)) (butlast xs @ [last xs])"
      using ordered [OF assms(1)] assms(2,3) by (simp add: sorted_wrt_append)
    have "x \<in> set (butlast xs) \<or> x = last xs"
      using that assms(3) by (metis append_butlast_last_id in_set_conv_decomp_last set_ConsD
          Un_iff set_append empty_iff empty_set)
    then show ?thesis using s irr asym by (auto simp: sorted_wrt_append)
  qed
  moreover have "before (key (last xs)) (key y)" if "y \<in> set ys" for y
    using ordered [OF assms(1)] assms(2,3) that by (auto simp: sorted_wrt_append)
  ultimately show ?thesis using assms(2) by (simp add: filter_empty_conv)
qed

lemma follow_from:
  assumes "inv s" "whole s = xs @ ys" "0 < n" "length ys < k" "xs = [] \<longrightarrow> c = ''''"
    "xs \<noteq> [] \<longrightarrow> c = key (last xs)"
  shows "follow (page s) key n k c = ys"
  using assms
proof (induction k arbitrary: xs ys c)
  case 0
  then show ?case by simp
next
  case (Suc k)
  have rest: "filter (\<lambda>r. c = '''' \<or> before c (key r)) (whole s) = ys"
  proof (cases "xs = []")
    case True
    then show ?thesis using Suc.prems by simp
  next
    case False
    then have "c \<noteq> ''''" using Suc.prems named [of s "last xs"] by simp
    then show ?thesis using Suc.prems False after_last [of s xs ys] by simp
  qed
  have p: "page s c n = take n ys" by (simp add: page_eq [OF Suc.prems(1)] rest)
  show ?case
  proof (cases "n \<le> length ys")
    case True
    then have ne: "take n ys \<noteq> []" using Suc.prems(3) by (cases ys) auto
    have "follow (page s) key n k (key (last (take n ys))) = drop n ys"
      using Suc.prems True ne by (intro Suc.IH [of "xs @ take n ys"]) auto
    then show ?thesis using True by (simp add: p Let_def)
  next
    case False
    then show ?thesis by (simp add: p Let_def)
  qed
qed

lemma follow_complete:
  "inv s \<Longrightarrow> 0 < n \<Longrightarrow> length (whole s) < k \<Longrightarrow> follow (page s) key n k '''' = whole s"
  by (rule follow_from [of s "[]"]) simp_all

end

text \<open>The two listings of an actor store, read without a failure of the database.\<close>

definition records_page :: "string \<Rightarrow> bool \<Rightarrow> actordb \<Rightarrow> string \<Rightarrow> nat \<Rightarrow> record_row list" where
  "records_page coll reverse d c n =
     (case ListRecords coll c (int n) reverse d of (Inr rs, _) \<Rightarrow> rs | (Inl _, _) \<Rightarrow> [])"

definition blobs_page :: "actordb \<Rightarrow> string \<Rightarrow> nat \<Rightarrow> cid list" where
  "blobs_page d c n = (case ListBlobCIDs c (int n) d of (Inr cs, _) \<Rightarrow> cs | (Inl _, _) \<Rightarrow> [])"

definition listing_inv :: "actordb \<Rightarrow> bool" where
  "listing_inv d \<longleftrightarrow> actor_inv d \<and> tape d = []
     \<and> list_all (\<lambda>r. recRKey r \<noteq> '''') (records d) \<and> list_all (\<lambda>b. blCID b \<noteq> '''') (blobs d)"

definition in_collection :: "string \<Rightarrow> actordb \<Rightarrow> record_row list" where
  "in_collection coll d = filter (\<lambda>r. recCollection r = coll) (records d)"

lemma collection_rkeys:
  assumes "actor_inv d"
  shows "sorted_wrt (\<lambda>a b. recRKey a < recRKey b) (sort_key recRKey (in_collection coll d))"
proof -
  have "distinct (map rec_key (in_collection coll d))"
    using assms by (simp add: actor_inv_def actor_keys in_collection_def distinct_map_filter)
  then have "distinct (map recRKey (in_collection coll d))"
    by (auto simp: distinct_map inj_on_def in_collection_def rec_key_def)
  then have "distinct (map recRKey (sort_key recRKey (in_collection coll d)))"
    by (simp add: distinct_map)
  then have "sorted_wrt (<) (map recRKey (sort_key recRKey (in_collection coll d)))"
    by (simp add: strict_sorted_iff)
  then show ?thesis by (simp add: sorted_wrt_map)
qed

lemma records_page_eq:
  assumes "listing_inv d"
  shows "records_page coll reverse d c n = take n (filter
    (\<lambda>r. c = '''' \<or> (if reverse then recRKey r < c else c < recRKey r))
    ((if reverse then rev else id) (sort_key recRKey (in_collection coll d))))"
  using assms
  by (simp add: records_page_def ListRecords_def wrapf_def query_row_def listing_inv_def Let_def
      sql_limit_def in_collection_def filter_sort rev_filter [symmetric] conj_commute)

lemma listing_invD: "listing_inv d \<Longrightarrow> actor_inv d"
  by (simp add: listing_inv_def)

lemma in_collection_named: "listing_inv d \<Longrightarrow> r \<in> set (in_collection coll d) \<Longrightarrow> recRKey r \<noteq> ''''"
  by (auto simp: listing_inv_def list_all_iff in_collection_def)

interpretation list_fwd: pager listing_inv "records_page coll False" recRKey "(<)"
    "\<lambda>d. sort_key recRKey (in_collection coll d)" for coll
  by unfold_locales
     (auto simp: records_page_eq collection_rkeys in_collection_named listing_invD)

interpretation list_rev: pager listing_inv "records_page coll True" recRKey "\<lambda>a b. b < a"
    "\<lambda>d. rev (sort_key recRKey (in_collection coll d))" for coll
  by unfold_locales
     (auto simp: records_page_eq collection_rkeys sorted_wrt_rev in_collection_named listing_invD)

interpretation list_blobs: pager listing_inv blobs_page id "(<)" "\<lambda>d. sort (map blCID (blobs d))"
proof unfold_locales
  fix d c n assume "listing_inv d"
  then show "blobs_page d c n = take n (filter (\<lambda>r. c = '''' \<or> c < id r) (sort (map blCID (blobs d))))"
    by (simp add: blobs_page_def ListBlobCIDs_def wrapf_def query_row_def listing_inv_def
        sql_limit_def filter_sort)
next
  fix d assume "listing_inv d"
  then have "sorted_wrt (<) (sort (map blCID (blobs d)))"
    by (simp add: strict_sorted_iff listing_inv_def actor_inv_def actor_keys)
  then show "sorted_wrt (\<lambda>a b. id a < id b) (sort (map blCID (blobs d)))" by simp
qed (auto simp: listing_inv_def list_all_iff)

text \<open>C22. Cursor pagination of \<open>ListRecords\<close> loses and repeats nothing: following the cursor with
  any page size, in either direction, until a page comes back short yields every record of the
  collection exactly once, in (reverse) rkey order.\<close>

theorem list_records_pagination:
  assumes "listing_inv d" "0 < n" "length (in_collection coll d) < k"
  shows "follow (records_page coll False d) recRKey n k '''' = sort_key recRKey (in_collection coll d)
     \<and> follow (records_page coll True d) recRKey n k '''' = rev (sort_key recRKey (in_collection coll d))"
  using assms list_fwd.follow_complete [of d n coll k] list_rev.follow_complete [of d n coll k]
  by simp

lemma list_blobs_pagination:
  "listing_inv d \<Longrightarrow> 0 < n \<Longrightarrow> length (blobs d) < k \<Longrightarrow>
     follow (blobs_page d) id n k '''' = sort (map blCID (blobs d))"
  using list_blobs.follow_complete [of d n k] by simp

definition demo_record :: "string \<Rightarrow> record_row" where
  "demo_record k = \<lparr>recCollection = ''app.post'', recRKey = k, recCID = ''c'' @ k\<rparr>"

definition demo_actor :: actordb where
  "demo_actor = (empty_actordb [])\<lparr>records := [demo_record ''b'', demo_record ''a'', demo_record ''c'']\<rparr>"

theorem list_records_pagination_witness:
  "map recRKey (follow (records_page ''app.post'' False demo_actor) recRKey 2 9 '''') = [''a'', ''b'', ''c'']"
proof -
  have "listing_inv demo_actor" "length (in_collection ''app.post'' demo_actor) < 9"
    by (simp_all add: listing_inv_def demo_actor_def empty_actordb_def actor_inv_def record_clash_def
        rec_key_def demo_record_def in_collection_def)
  then have "follow (records_page ''app.post'' False demo_actor) recRKey 2 9 '''' =
      sort_key recRKey (in_collection ''app.post'' demo_actor)"
    using list_records_pagination [of demo_actor 2 "''app.post''" 9] by simp
  then show ?thesis
    by (simp add: demo_actor_def empty_actordb_def demo_record_def in_collection_def)
qed

section \<open>Counts\<close>

text \<open>The blobs counted as imported are the expected ones whose file is there.\<close>

lemma count_imported_blobs:
  assumes "CountImportedBlobs d = (Inr n, d')"
  shows "n = int (length (filter (\<lambda>b. BlobFileExists d (blCID b)) (blobs d)))"
proof -
  have "int (length (filter (\<lambda>c. \<not> BlobFileExists d c) (sort (map blCID (blobs d))))) =
      int (length (blobs d)) - int (length (filter (\<lambda>b. BlobFileExists d (blCID b)) (blobs d)))"
    using sum_length_filter_compl [of "\<lambda>b. BlobFileExists d (blCID b)" "blobs d"]
    by (simp add: filter_sort filter_map comp_def)
  then show ?thesis
    using assms
    by (auto simp: CountImportedBlobs_def CountBlobs_def MissingBlobs_def gobind_Inr_iff query_row_def
        stmt_Inr_iff BlobFileExists_def)
qed

end
