(* ===== verification/Auth.thy ===== *)
theory Auth
  imports GoStd
begin

text \<open>
  \<^verbatim>\<open>internal/auth/auth.go\<close>: password hashes and the access and refresh JWTs.

  Three libraries are parameters of the model: \<open>scrypt\<close> (\<^verbatim>\<open>golang.org/x/crypto/scrypt.Key\<close>:
  password, salt, N, r, p, key length), \<open>jwt_sign\<close> and \<open>jwt_parse\<close> (\<^verbatim>\<open>golang-jwt/jwt/v5\<close>,
  the second with the key function the code passes) and \<open>sha256\<close>. Randomness is an
  argument: the outcome of the call to \<^verbatim>\<open>rand.Read\<close>.
\<close>

section \<open>Passwords\<close>

definition scryptN :: nat where "scryptN = 32768"

definition scryptR :: nat where "scryptR = 8"

definition scryptP :: nat where "scryptP = 1"

definition scryptKeyLen :: nat where "scryptKeyLen = 32"

type_synonym scrypt_fn = "bytes \<Rightarrow> bytes \<Rightarrow> int \<Rightarrow> int \<Rightarrow> int \<Rightarrow> nat \<Rightarrow> go_error + bytes"

text \<open>\<open>rnd\<close> is what \<^verbatim>\<open>rand.Read(salt)\<close> yields for the 16 salt bytes.\<close>

definition HashPassword :: "scrypt_fn \<Rightarrow> go_error + bytes \<Rightarrow> string \<Rightarrow> go_error + string" where
  "HashPassword scrypt rnd password =
     (case rnd of
        Inl e \<Rightarrow> Inl (Wrapf ''generating salt'' e)
      | Inr salt \<Rightarrow>
          (case scrypt (bytes_of password) salt (int scryptN) (int scryptR) (int scryptP) scryptKeyLen of
             Inl e \<Rightarrow> Inl (Wrapf ''hashing password'' e)
           | Inr hash \<Rightarrow> Inr (''scrypt'' @ [CHR ''$''] @ dec_string scryptN @ [CHR ''$'']
               @ dec_string scryptR @ [CHR ''$''] @ dec_string scryptP @ [CHR ''$'']
               @ base64_encode salt @ [CHR ''$''] @ base64_encode hash)))"

definition scan_error :: go_error where
  "scan_error = ErrMsg ''expected integer''"

definition decode_error :: go_error where
  "decode_error = ErrMsg ''illegal base64 data''"

definition VerifyPassword :: "scrypt_fn \<Rightarrow> string \<Rightarrow> string \<Rightarrow> go_error + bool" where
  "VerifyPassword scrypt password encoded =
     (let parts = split_on (CHR ''$'') encoded in
      if length parts \<noteq> 6 \<or> parts ! 0 \<noteq> ''scrypt'' then Inl (ErrMsg ''unrecognized password hash format'')
      else case Sscanf_d (parts ! 1) of None \<Rightarrow> Inl scan_error | Some n \<Rightarrow>
      (case Sscanf_d (parts ! 2) of None \<Rightarrow> Inl scan_error | Some r \<Rightarrow>
      (case Sscanf_d (parts ! 3) of None \<Rightarrow> Inl scan_error | Some p \<Rightarrow>
      (case base64_decode (parts ! 4) of None \<Rightarrow> Inl decode_error | Some salt \<Rightarrow>
      (case base64_decode (parts ! 5) of None \<Rightarrow> Inl decode_error | Some want \<Rightarrow>
      (case scrypt (bytes_of password) salt n r p (length want) of
         Inl e \<Rightarrow> Inl (Wrapf ''hashing password'' e)
       | Inr got \<Rightarrow> Inr (got = want)))))))"

lemma split_hash:
  "split_on (CHR ''$'') (''scrypt'' @ [CHR ''$''] @ dec_string n @ [CHR ''$''] @ dec_string r @ [CHR ''$'']
      @ dec_string p @ [CHR ''$''] @ base64_encode s @ [CHR ''$''] @ base64_encode h) =
   [''scrypt'', dec_string n, dec_string r, dec_string p, base64_encode s, base64_encode h]"
  using split_on_append [of "CHR ''$''" "''scrypt''"]
  by (simp add: split_on_append split_on_notin base64_no_dollar dec_string_no_dollar)

text \<open>C20. A stored hash verifies a password exactly when scrypt derives the same key from it with the
  stored salt; in particular the password that was hashed verifies. The format written by
  \<open>HashPassword\<close> is read back field by field.\<close>

theorem password_roundtrip:
  assumes len: "\<And>k. scrypt (bytes_of p) salt 32768 8 1 32 = Inr k \<Longrightarrow> length k = 32"
    and hashed: "HashPassword scrypt (Inr salt) p = Inr enc"
  shows "VerifyPassword scrypt q enc =
    (case scrypt (bytes_of q) salt 32768 8 1 32 of
       Inl e \<Rightarrow> Inl (Wrapf ''hashing password'' e)
     | Inr got \<Rightarrow> Inr (Inr got = scrypt (bytes_of p) salt 32768 8 1 32))"
proof -
  obtain k where k: "scrypt (bytes_of p) salt 32768 8 1 32 = Inr k"
    using hashed by (auto simp: HashPassword_def scryptN_def scryptR_def scryptP_def scryptKeyLen_def
        split: sum.splits)
  have enc: "enc = ''scrypt'' @ [CHR ''$''] @ dec_string 32768 @ [CHR ''$''] @ dec_string 8 @ [CHR ''$'']
      @ dec_string 1 @ [CHR ''$''] @ base64_encode salt @ [CHR ''$''] @ base64_encode k"
    using hashed k by (simp add: HashPassword_def scryptN_def scryptR_def scryptP_def scryptKeyLen_def)
  show ?thesis
    unfolding VerifyPassword_def enc split_hash
    using len [OF k] k
    by (simp add: Sscanf_dec_string base64_roundtrip Let_def split: sum.split)
qed

section \<open>JWTs\<close>

definition nanos :: "int \<Rightarrow> int" where "nanos s = s * 1000000000"

definition AccessTokenTTL :: int where "AccessTokenTTL = nanos (2 * 3600)"

definition RefreshTokenTTL :: int where "RefreshTokenTTL = nanos (90 * 24 * 3600)"

definition scopeAccess :: string where "scopeAccess = ''com.atproto.access''"

definition scopeRefresh :: string where "scopeRefresh = ''com.atproto.refresh''"

text \<open>\<^verbatim>\<open>jwt.NewNumericDate\<close> keeps whole seconds.\<close>

definition numeric_date :: "int \<Rightarrow> int" where
  "numeric_date t = t - t mod 1000000000"

record claims =
  clScope :: string
  clAuthVersion :: int
  clCredentialKind :: string
  clAppPasswordName :: string
  clSubject :: string
  clAudience :: "string list"
  clIssuedAt :: int
  clExpiresAt :: int
  clID :: string

record credential =
  crKind :: string
  crAppPasswordName :: string

definition CredentialPrimary :: string where "CredentialPrimary = ''primary''"

definition CredentialAppPassword :: string where "CredentialAppPassword = ''app_password''"

definition CredentialPrivilegedAppPassword :: string where
  "CredentialPrivilegedAppPassword = ''privileged_app_password''"

lemma credential_distinct [simp]:
  "CredentialPrimary \<noteq> CredentialAppPassword" "CredentialAppPassword \<noteq> CredentialPrimary"
  "CredentialPrimary \<noteq> CredentialPrivilegedAppPassword"
  "CredentialPrivilegedAppPassword \<noteq> CredentialPrimary"
  "CredentialAppPassword \<noteq> CredentialPrivilegedAppPassword"
  "CredentialPrivilegedAppPassword \<noteq> CredentialAppPassword"
  by (simp_all add: CredentialPrimary_def CredentialAppPassword_def CredentialPrivilegedAppPassword_def)

record jwt_lib =
  jwt_sign :: "string \<Rightarrow> claims \<Rightarrow> go_error + string"
  jwt_parse :: "int \<Rightarrow> (string \<Rightarrow> go_error + string) \<Rightarrow> string \<Rightarrow> go_error + claims"

definition access_claims :: "int \<Rightarrow> string \<Rightarrow> string \<Rightarrow> int \<Rightarrow> credential \<Rightarrow> claims" where
  "access_claims now did serviceDID av cred =
     \<lparr>clScope = scopeAccess, clAuthVersion = av, clCredentialKind = crKind cred,
      clAppPasswordName = crAppPasswordName cred, clSubject = did, clAudience = [serviceDID],
      clIssuedAt = numeric_date now, clExpiresAt = numeric_date (now + AccessTokenTTL), clID = ''''\<rparr>"

definition IssueAccessToken :: "jwt_lib \<Rightarrow> int \<Rightarrow> string \<Rightarrow> string \<Rightarrow> string \<Rightarrow> int \<Rightarrow> credential \<Rightarrow>
    go_error + string \<times> int" where
  "IssueAccessToken lib now secret did serviceDID av cred =
     (case jwt_sign lib secret (access_claims now did serviceDID av cred) of
        Inl e \<Rightarrow> Inl (Wrapf ''signing access token'' e)
      | Inr tok \<Rightarrow> Inr (tok, now + AccessTokenTTL))"

definition refresh_claims :: "int \<Rightarrow> string \<Rightarrow> string \<Rightarrow> int \<Rightarrow> credential \<Rightarrow> string \<Rightarrow> claims" where
  "refresh_claims now did serviceDID av cred jti =
     \<lparr>clScope = scopeRefresh, clAuthVersion = av, clCredentialKind = crKind cred,
      clAppPasswordName = crAppPasswordName cred, clSubject = did, clAudience = [serviceDID],
      clIssuedAt = numeric_date now, clExpiresAt = numeric_date (now + RefreshTokenTTL), clID = jti\<rparr>"

text \<open>\<open>rnd\<close> is the outcome of reading the 16 bytes of the jti; the results are the token, the jti
  and the expiry.\<close>

definition IssueRefreshToken :: "jwt_lib \<Rightarrow> int \<Rightarrow> go_error + bytes \<Rightarrow> string \<Rightarrow> string \<Rightarrow> string \<Rightarrow> int \<Rightarrow>
    credential \<Rightarrow> go_error + string \<times> string \<times> int" where
  "IssueRefreshToken lib now rnd secret did serviceDID av cred =
     (case rnd of
        Inl e \<Rightarrow> Inl (Wrapf ''generating jti'' e)
      | Inr jtiBytes \<Rightarrow>
          (let jti = hex_encode jtiBytes in
           case jwt_sign lib secret (refresh_claims now did serviceDID av cred jti) of
             Inl e \<Rightarrow> Inl (Wrapf ''signing refresh token'' e)
           | Inr tok \<Rightarrow> Inr (tok, jti, now + RefreshTokenTTL)))"

record parsed_token =
  ptDID :: string
  ptJTI :: string
  ptScope :: string
  ptAuthVersion :: int
  ptCredentialKind :: string
  ptAppPasswordName :: string

text \<open>The key function: the secret for the HMAC family, an error for any other method.\<close>

definition hmac_keyfunc :: "string \<Rightarrow> string \<Rightarrow> go_error + string" where
  "hmac_keyfunc secret alg =
     (if alg \<in> {''HS256'', ''HS384'', ''HS512''} then Inr secret
      else Inl (ErrMsg (''unexpected signing method: '' @ alg)))"

definition parse_token :: "jwt_lib \<Rightarrow> int \<Rightarrow> string \<Rightarrow> string \<Rightarrow> string \<Rightarrow> go_error + parsed_token" where
  "parse_token lib now secret tokenString wantScope =
     (case jwt_parse lib now (hmac_keyfunc secret) tokenString of
        Inl e \<Rightarrow> Inl e
      | Inr c \<Rightarrow>
          if clScope c \<noteq> wantScope then Inl (ErrMsg (''unexpected token scope: '' @ clScope c))
          else if clAuthVersion c < 1 \<or> clCredentialKind c = '''' then Inl (ErrMsg ''legacy token is not valid'')
          else Inr \<lparr>ptDID = clSubject c, ptJTI = clID c, ptScope = clScope c,
                 ptAuthVersion = clAuthVersion c, ptCredentialKind = clCredentialKind c,
                 ptAppPasswordName = clAppPasswordName c\<rparr>)"

definition ParseAccessToken :: "jwt_lib \<Rightarrow> int \<Rightarrow> string \<Rightarrow> string \<Rightarrow> go_error + parsed_token" where
  "ParseAccessToken lib now secret tok = parse_token lib now secret tok scopeAccess"

definition ParseRefreshToken :: "jwt_lib \<Rightarrow> int \<Rightarrow> string \<Rightarrow> string \<Rightarrow> go_error + parsed_token" where
  "ParseRefreshToken lib now secret tok = parse_token lib now secret tok scopeRefresh"

text \<open>\<open>sha256\<close> is the digest function.\<close>

definition HashToken :: "(bytes \<Rightarrow> bytes) \<Rightarrow> string \<Rightarrow> string" where
  "HashToken sha256 jti = hex_encode (sha256 (bytes_of jti))"

section \<open>What a parsed token guarantees\<close>

lemma scopes_distinct [simp]: "scopeAccess \<noteq> scopeRefresh" "scopeRefresh \<noteq> scopeAccess"
  by (simp_all add: scopeAccess_def scopeRefresh_def)

lemma parse_tokenD:
  "parse_token lib now secret tok scope = Inr p \<Longrightarrow>
     ptScope p = scope \<and> 1 \<le> ptAuthVersion p \<and> ptCredentialKind p \<noteq> '''' \<and>
     (\<exists>c. jwt_parse lib now (hmac_keyfunc secret) tok = Inr c \<and> clScope c = scope
        \<and> clSubject c = ptDID p \<and> clID c = ptJTI p \<and> clAuthVersion c = ptAuthVersion p
        \<and> clCredentialKind c = ptCredentialKind p \<and> clAppPasswordName c = ptAppPasswordName p)"
  by (auto simp: parse_token_def split: sum.splits if_splits)

text \<open>
  What the code relies on in the JWT library, for one token: a token that \<open>jwt_sign\<close> made from
  claims \<open>c\<close> under \<open>secret\<close> parses to \<open>c\<close> under the same secret until its expiry, and to an
  error from then on.
\<close>

definition jwt_faithful :: "jwt_lib \<Rightarrow> string \<Rightarrow> claims \<Rightarrow> string \<Rightarrow> bool" where
  "jwt_faithful lib secret c tok \<longleftrightarrow>
     (\<forall>now kf. kf ''HS256'' = Inr secret \<longrightarrow>
        (if now < clExpiresAt c then jwt_parse lib now kf tok = Inr c
         else \<exists>e. jwt_parse lib now kf tok = Inl e))"

text \<open>An access token carries exactly the identity it was issued for, for two hours, and is never
  taken for a refresh token; the same the other way round for a refresh token and its 90 days.\<close>

theorem access_token_roundtrip:
  assumes "IssueAccessToken lib t0 secret did svc av cred = Inr (tok, exp)"
    and "jwt_faithful lib secret (access_claims t0 did svc av cred) tok"
    and "1 \<le> av" "crKind cred \<noteq> ''''"
  shows "((\<exists>p. ParseAccessToken lib now secret tok = Inr p \<and> ptDID p = did \<and> ptAuthVersion p = av
            \<and> ptCredentialKind p = crKind cred \<and> ptAppPasswordName p = crAppPasswordName cred)
         \<longleftrightarrow> now < numeric_date (t0 + AccessTokenTTL))
       \<and> (\<exists>e. ParseRefreshToken lib now secret tok = Inl e)"
proof -
  have kf: "hmac_keyfunc secret ''HS256'' = Inr secret" by (simp add: hmac_keyfunc_def)
  have parse: "if now < numeric_date (t0 + AccessTokenTTL)
      then jwt_parse lib now (hmac_keyfunc secret) tok = Inr (access_claims t0 did svc av cred)
      else \<exists>e. jwt_parse lib now (hmac_keyfunc secret) tok = Inl e"
    using assms(2) kf by (simp add: jwt_faithful_def access_claims_def)
  have "(\<exists>p. ParseAccessToken lib now secret tok = Inr p \<and> ptDID p = did \<and> ptAuthVersion p = av
            \<and> ptCredentialKind p = crKind cred \<and> ptAppPasswordName p = crAppPasswordName cred)
         \<longleftrightarrow> now < numeric_date (t0 + AccessTokenTTL)"
    using parse assms(3,4)
    by (auto simp: ParseAccessToken_def parse_token_def access_claims_def split: if_splits)
  moreover have "\<exists>e. ParseRefreshToken lib now secret tok = Inl e"
    using parse by (auto simp: ParseRefreshToken_def parse_token_def access_claims_def split: if_splits)
  ultimately show ?thesis by (rule conjI)
qed

text \<open>Instances of the two libraries for the witnesses: a key function that repeats the password's
  first byte, and a token library that knows one token.\<close>

definition demo_scrypt :: scrypt_fn where
  "demo_scrypt p salt n r q k = Inr (replicate k (case p of [] \<Rightarrow> 0 | b # _ \<Rightarrow> b))"

definition demo_jwt :: "claims \<Rightarrow> jwt_lib" where
  "demo_jwt c = \<lparr>jwt_sign = (\<lambda>secret c'. Inr ''token''),
     jwt_parse = (\<lambda>now kf tok. if kf ''HS256'' = Inr ''s3cret'' \<and> tok = ''token'' \<and> now < clExpiresAt c
        then Inr c else Inl (ErrMsg ''token is invalid''))\<rparr>"

theorem password_roundtrip_witness:
  "VerifyPassword demo_scrypt ''hunter2'' (projr (HashPassword demo_scrypt (Inr [1, 2, 3]) ''hunter2'')) = Inr True"
  using password_roundtrip [of demo_scrypt "''hunter2''" "[1, 2, 3]"
      "projr (HashPassword demo_scrypt (Inr [1, 2, 3]) ''hunter2'')" "''hunter2''"]
  by (auto simp: demo_scrypt_def HashPassword_def scryptKeyLen_def)

definition demo_claims :: claims where
  "demo_claims = access_claims 0 ''did:plc:a'' ''did:web:pds'' 1
     \<lparr>crKind = CredentialPrimary, crAppPasswordName = ''''\<rparr>"

theorem access_token_roundtrip_witness:
  "\<exists>p. ParseAccessToken (demo_jwt demo_claims) 5 ''s3cret'' ''token'' = Inr p \<and> ptDID p = ''did:plc:a''
     \<and> ptAuthVersion p = 1"
proof -
  have "IssueAccessToken (demo_jwt demo_claims) 0 ''s3cret'' ''did:plc:a'' ''did:web:pds'' 1
     \<lparr>crKind = CredentialPrimary, crAppPasswordName = ''''\<rparr> = Inr (''token'', AccessTokenTTL)"
    by (simp add: IssueAccessToken_def demo_jwt_def)
  moreover have "jwt_faithful (demo_jwt demo_claims) ''s3cret'' (access_claims 0 ''did:plc:a'' ''did:web:pds'' 1
     \<lparr>crKind = CredentialPrimary, crAppPasswordName = ''''\<rparr>) ''token''"
    by (simp add: jwt_faithful_def demo_jwt_def demo_claims_def)
  ultimately show ?thesis
    using access_token_roundtrip [of "demo_jwt demo_claims" 0 "''s3cret''" "''did:plc:a''" "''did:web:pds''" 1
        "\<lparr>crKind = CredentialPrimary, crAppPasswordName = ''''\<rparr>" "''token''" AccessTokenTTL 5]
    by (auto simp: CredentialPrimary_def numeric_date_def AccessTokenTTL_def nanos_def)
qed

end
