(* ===== verification/World.thy ===== *)
theory World
  imports SequencerSpec ActorSpec Auth
begin

text \<open>
  The state of the running server, which the handlers share: \<^verbatim>\<open>accounts.db\<close>, the actor stores and
  the event log (\<^verbatim>\<open>Server\<close> in \<^verbatim>\<open>internal/xrpc/server.go\<close>), and operations of one of them as
  operations of the whole. \<open>wSent\<close> are the JSON requests sent to the PLC directory, newest last.
\<close>

record world =
  wAcct :: acctdb
  wMgr :: manager
  wSeq :: seqdb
  wSent :: "(string \<times> data) list"

definition on_acct :: "(acctdb, 'a) op \<Rightarrow> (world, 'a) op" where
  "on_acct m w = (case m (wAcct w) of (r, d) \<Rightarrow> (r, w\<lparr>wAcct := d\<rparr>))"

definition on_mgr :: "(manager, 'a) op \<Rightarrow> (world, 'a) op" where
  "on_mgr m w = (case m (wMgr w) of (r, d) \<Rightarrow> (r, w\<lparr>wMgr := d\<rparr>))"

definition on_seq :: "(seqdb, 'a) op \<Rightarrow> (world, 'a) op" where
  "on_seq m w = (case m (wSeq w) of (r, d) \<Rightarrow> (r, w\<lparr>wSeq := d\<rparr>))"

lemma on_acct_eq [simp]: "on_acct m w = (r, w') \<longleftrightarrow> (\<exists>d. m (wAcct w) = (r, d) \<and> w' = w\<lparr>wAcct := d\<rparr>)"
  by (auto simp: on_acct_def split: prod.split)

lemma on_mgr_eq [simp]: "on_mgr m w = (r, w') \<longleftrightarrow> (\<exists>d. m (wMgr w) = (r, d) \<and> w' = w\<lparr>wMgr := d\<rparr>)"
  by (auto simp: on_mgr_def split: prod.split)

lemma on_seq_eq [simp]: "on_seq m w = (r, w') \<longleftrightarrow> (\<exists>d. m (wSeq w) = (r, d) \<and> w' = w\<lparr>wSeq := d\<rparr>)"
  by (auto simp: on_seq_def split: prod.split)

lemma preserves_on_acct [preserves_intros]:
  "(\<And>w. preserves (\<lambda>d. P (w\<lparr>wAcct := d\<rparr>)) m) \<Longrightarrow> preserves P (on_acct m)"
proof (rule preservesI)
  fix w r w'
  assume m: "\<And>w. preserves (\<lambda>d. P (w\<lparr>wAcct := d\<rparr>)) m" and "P w" "on_acct m w = (r, w')"
  then show "P w'" using preservesE [OF m [of w], of "wAcct w" r "wAcct w'"] by auto
qed

lemma preserves_on_mgr [preserves_intros]:
  "(\<And>w. preserves (\<lambda>d. P (w\<lparr>wMgr := d\<rparr>)) m) \<Longrightarrow> preserves P (on_mgr m)"
proof (rule preservesI)
  fix w r w'
  assume m: "\<And>w. preserves (\<lambda>d. P (w\<lparr>wMgr := d\<rparr>)) m" and "P w" "on_mgr m w = (r, w')"
  then show "P w'" using preservesE [OF m [of w], of "wMgr w" r "wMgr w'"] by auto
qed

lemma preserves_on_seq [preserves_intros]:
  "(\<And>w. preserves (\<lambda>d. P (w\<lparr>wSeq := d\<rparr>)) m) \<Longrightarrow> preserves P (on_seq m)"
proof (rule preservesI)
  fix w r w'
  assume m: "\<And>w. preserves (\<lambda>d. P (w\<lparr>wSeq := d\<rparr>)) m" and "P w" "on_seq m w = (r, w')"
  then show "P w'" using preservesE [OF m [of w], of "wSeq w" r "wSeq w'"] by auto
qed

end
