(* ===== verification/RepoOps.thy ===== *)
theory RepoOps
  imports World
begin

text \<open>
  \<^verbatim>\<open>internal/repoops/writer.go\<close>, the write path of a repository, and
  \<^verbatim>\<open>internal/lexicon/catalog.go\<close>, the validation it applies.

  Parameters of the model, collected in \<open>repo_lib\<close>: the Merkle search tree, TID clock, commit
  and data encodings of the indigo library, CID computation and lexicon schemas. A tree's blocks
  are read through the lookup function of the block table (one read of the database, which can
  fail as a whole); \<open>mst_diff\<close> yields the blocks that \<^verbatim>\<open>WriteDiffBlocks\<close> puts, in order, and
  the root. A TID clock is made with the readings of the wall clock that its \<^verbatim>\<open>Next\<close> calls will see (\<open>ts\<close>),
  so two clocks from one revision may yield different TIDs.
\<close>

section \<open>The library\<close>

record commit =
  coDID :: string
  coVersion :: int
  coPrev :: "cid option"
  coData :: cid
  coRev :: string
  coSig :: bytes

record ('t, 'k) repo_lib =
  mst_empty :: 't
  mst_load :: "(cid \<Rightarrow> bytes option) \<Rightarrow> cid \<Rightarrow> go_error + 't"
  mst_insert :: "string \<Rightarrow> cid \<Rightarrow> 't \<Rightarrow> go_error + cid option \<times> 't"
  mst_remove :: "string \<Rightarrow> 't \<Rightarrow> go_error + cid option \<times> 't"
  mst_diff :: "'t \<Rightarrow> go_error + block list \<times> cid"
  mst_entries :: "'t \<Rightarrow> (string \<times> cid) list"
  clk_new :: "(nat \<Rightarrow> int) \<Rightarrow> 'k"
  clk_from :: "(nat \<Rightarrow> int) \<Rightarrow> string \<Rightarrow> 'k"
  clk_next :: "'k \<Rightarrow> string \<times> 'k"
  lex_catalog :: "go_error + unit"
  lex_resolve :: "string \<Rightarrow> bool"
  lex_validate :: "record_data \<Rightarrow> string \<Rightarrow> go_error + unit"
  marshal_data :: "record_data \<Rightarrow> go_error + bytes"
  unmarshal_data :: "bytes \<Rightarrow> go_error + record_data"
  extract_blobs :: "record_data \<Rightarrow> (cid \<times> string \<times> int) list"
  cid_sum :: "bytes \<Rightarrow> go_error + cid"
  raw_sum :: "bytes \<Rightarrow> go_error + cid"
  new_block :: "bytes \<Rightarrow> cid \<Rightarrow> go_error + block"
  sign_commit :: "string \<Rightarrow> commit \<Rightarrow> go_error + commit"
  marshal_commit :: "commit \<Rightarrow> go_error + bytes"
  unmarshal_commit :: "bytes \<Rightarrow> go_error + commit"

text \<open>A signing key (\<^verbatim>\<open>atcrypto.PrivateKey\<close>) is its multibase text.\<close>

definition ATPROTO_REPO_VERSION :: int where "ATPROTO_REPO_VERSION = 3"

section \<open>Validation\<close>

text \<open>\<^verbatim>\<open>recordData["$type"].(string)\<close>.\<close>

definition data_string :: "record_data \<Rightarrow> string \<Rightarrow> string option" where
  "data_string r k = (case map_of r k of Some (DStr s) \<Rightarrow> Some s | _ \<Rightarrow> None)"

definition ValidateRecord :: "('t, 'k) repo_lib \<Rightarrow> record_data \<Rightarrow> go_error + unit" where
  "ValidateRecord lib r = (case data_string r ''$type'' of
     None \<Rightarrow> Inl (ErrMsg ''record data missing required $type field'')
   | Some nsid \<Rightarrow>
       if nsid = '''' then Inl (ErrMsg ''record data missing required $type field'')
       else (case lex_catalog lib of
          Inl e \<Rightarrow> Inl (Wrapf ''loading embedded lexicon catalog'' e)
        | Inr _ \<Rightarrow> if \<not> lex_resolve lib (nsid @ ''#main'') then Inr () else lex_validate lib r nsid))"

definition BlobCID :: "('t, 'k) repo_lib \<Rightarrow> bytes \<Rightarrow> go_error + cid" where
  "BlobCID lib content = raw_sum lib content"

section \<open>Writes\<close>

definition ActionCreate :: string where "ActionCreate = ''create''"

definition ActionUpdate :: string where "ActionUpdate = ''update''"

definition ActionDelete :: string where "ActionDelete = ''delete''"

lemma actions_distinct [simp]: "ActionCreate \<noteq> ActionDelete" "ActionUpdate \<noteq> ActionDelete"
  "ActionDelete \<noteq> ActionCreate" "ActionDelete \<noteq> ActionUpdate" "ActionCreate \<noteq> ActionUpdate"
  by (simp_all add: ActionCreate_def ActionUpdate_def ActionDelete_def)

record write_op =
  woAction :: string
  woCollection :: string
  woRKey :: string
  woRecord :: "record_data option"

record write_result =
  wrAction :: string
  wrCollection :: string
  wrRKey :: string
  wrCID :: "cid option"
  wrPrevCID :: "cid option"
  wrBlobCIDs :: "cid list"

text \<open>The collecting block store: a put that succeeded is appended to the blocks collected.\<close>

definition cb_Put :: "block \<Rightarrow> block list \<Rightarrow> (actordb, block list) op" where
  "cb_Put b coll = gobind (bs_Put b) (\<lambda>_. goret (coll @ [b]))"

fun cb_PutMany :: "block list \<Rightarrow> block list \<Rightarrow> (actordb, block list) op" where
  "cb_PutMany [] coll = goret coll"
| "cb_PutMany (b # bs) coll = gobind (cb_Put b coll) (cb_PutMany bs)"

definition loadTree :: "('t, 'k) repo_lib \<Rightarrow> cid \<Rightarrow> (actordb, 't \<times> commit) op" where
  "loadTree lib commitCID =
     gobind (wrapf ''reading commit block'' (bs_Get commitCID)) (\<lambda>blk.
     gobind (wrapf ''parsing commit block'' (liftE (unmarshal_commit lib blk))) (\<lambda>c.
     gobind (wrapf ''loading MST'' (gobind (query_row (\<lambda>d. mst_load lib (map_of (blocks d)) (coData c))) liftE)) (\<lambda>t.
     goret (t, c))))"

definition rec_path :: "string \<Rightarrow> string \<Rightarrow> string" where
  "rec_path collection rkey = collection @ ''/'' @ rkey"

text \<open>The blobs of a record: metadata and reference of each, stopping at the first error.\<close>

definition put_blob :: "string \<Rightarrow> string \<Rightarrow> cid \<times> string \<times> int \<Rightarrow> (actordb, unit) op" where
  "put_blob collection rkey b = (case b of (c, mime, sz) \<Rightarrow>
     gobind (PutBlobMeta c mime sz) (\<lambda>_. AddBlobRef c collection rkey))"

text \<open>\<^verbatim>\<open>applyOne\<close> returns the result, the tree and the clock, which the Go code updates in place,
  and the blocks collected so far.\<close>

definition apply_delete :: "('t, 'k) repo_lib \<Rightarrow> write_op \<Rightarrow> 't \<times> 'k \<times> block list \<Rightarrow>
    (actordb, write_result \<times> 't \<times> 'k \<times> block list) op" where
  "apply_delete lib x st = (case st of (tree, clk, coll) \<Rightarrow>
     gobind (liftE (mst_remove lib (rec_path (woCollection x) (woRKey x)) tree)) (\<lambda>(prev, tree').
     if prev = None then gofail ActorErrNotFound
     else gobind (DeleteRecordIndex (woCollection x) (woRKey x)) (\<lambda>_.
          gobind (ClearBlobRefsForRecord (woCollection x) (woRKey x)) (\<lambda>_.
          goret (\<lparr>wrAction = woAction x, wrCollection = woCollection x, wrRKey = woRKey x,
            wrCID = None, wrPrevCID = prev, wrBlobCIDs = []\<rparr>, tree', clk, coll)))))"

definition with_type :: "string \<Rightarrow> record_data \<Rightarrow> record_data" where
  "with_type collection r = (if map_of r ''$type'' = None then (''$type'', DStr collection) # r else r)"

definition apply_put :: "('t, 'k) repo_lib \<Rightarrow> write_op \<Rightarrow> record_data \<Rightarrow> 't \<times> 'k \<times> block list \<Rightarrow>
    (actordb, write_result \<times> 't \<times> 'k \<times> block list) op" where
  "apply_put lib x r0 st = (case st of (tree, clk, coll) \<Rightarrow>
     (let r = with_type (woCollection x) r0 in
      gobind (wrapf ''record failed lexicon validation'' (liftE (ValidateRecord lib r))) (\<lambda>_.
      let (rkey, clk') = (if woRKey x = '''' then clk_next lib clk else (woRKey x, clk)) in
      gobind (wrapf ''encoding record'' (liftE (marshal_data lib r))) (\<lambda>bs.
      gobind (liftE (cid_sum lib bs)) (\<lambda>c.
      gobind (liftE (new_block lib bs c)) (\<lambda>blk.
      gobind (cb_Put blk coll) (\<lambda>coll'.
      gobind (liftE (mst_insert lib (rec_path (woCollection x) rkey) c tree)) (\<lambda>(prev, tree').
      gobind (PutRecordIndex (woCollection x) rkey c) (\<lambda>_.
      gobind (ClearBlobRefsForRecord (woCollection x) rkey) (\<lambda>_.
      gobind (goeach (put_blob (woCollection x) rkey) (extract_blobs lib r)) (\<lambda>_.
      goret (\<lparr>wrAction = woAction x, wrCollection = woCollection x, wrRKey = rkey, wrCID = Some c,
        wrPrevCID = prev, wrBlobCIDs = map fst (extract_blobs lib r)\<rparr>, tree', clk', coll'))))))))))))"

definition applyOne :: "('t, 'k) repo_lib \<Rightarrow> write_op \<Rightarrow> 't \<times> 'k \<times> block list \<Rightarrow>
    (actordb, write_result \<times> 't \<times> 'k \<times> block list) op" where
  "applyOne lib x st =
     (if woAction x = ActionDelete then apply_delete lib x st
      else if woAction x = ActionCreate \<or> woAction x = ActionUpdate then
        (case woRecord x of
           None \<Rightarrow> gofail (ErrMsg (''record is required for '' @ woAction x))
         | Some r \<Rightarrow> apply_put lib x r st)
      else gofail (ErrMsg (''unknown write action: '' @ woAction x)))"

fun applyAll :: "('t, 'k) repo_lib \<Rightarrow> write_op list \<Rightarrow> 't \<times> 'k \<times> block list \<Rightarrow>
    (actordb, write_result list \<times> 't \<times> 'k \<times> block list) op" where
  "applyAll lib [] st = goret ([], st)"
| "applyAll lib (x # xs) st =
     gobind (wrapf (''applying write to '' @ rec_path (woCollection x) (woRKey x)) (applyOne lib x st))
       (\<lambda>(res, st'). gobind (applyAll lib xs st') (\<lambda>(rs, st''). goret (res # rs, st'')))"

record applied =
  apCommit :: commit
  apCID :: cid
  apResults :: "write_result list"
  apSince :: "string option"
  apPrevData :: "cid option"
  apBlocks :: "block list"

text \<open>The body of the transaction: the writes, the tree's blocks, the signed commit and the root.\<close>

definition write_commit :: "('t, 'k) repo_lib \<Rightarrow> string \<Rightarrow> string \<Rightarrow> write_op list \<Rightarrow> 't \<Rightarrow> 'k \<Rightarrow>
    string option \<Rightarrow> cid option \<Rightarrow> (actordb, applied) op" where
  "write_commit lib did key xs tree clk since prevData =
     gobind (applyAll lib xs (tree, clk, [])) (\<lambda>(results, tree', clk', coll).
     gobind (wrapf ''writing MST blocks'' (gobind (liftE (mst_diff lib tree'))
       (\<lambda>(blks, root). gobind (cb_PutMany blks coll) (\<lambda>coll'. goret (root, coll'))))) (\<lambda>(root, coll').
     gobind (wrapf ''signing commit'' (liftE (sign_commit lib key
       \<lparr>coDID = did, coVersion = ATPROTO_REPO_VERSION, coPrev = None, coData = root,
        coRev = fst (clk_next lib clk'), coSig = []\<rparr>))) (\<lambda>c.
     gobind (wrapf ''encoding commit'' (liftE (marshal_commit lib c))) (\<lambda>buf.
     gobind (liftE (cid_sum lib buf)) (\<lambda>cc.
     gobind (liftE (new_block lib buf cc)) (\<lambda>blk.
     gobind (wrapf ''writing commit block'' (cb_Put blk coll')) (\<lambda>coll''.
     gobind (SetRepoRoot cc (coRev c)) (\<lambda>_.
     goret \<lparr>apCommit = c, apCID = cc, apResults = results, apSince = since, apPrevData = prevData,
       apBlocks = coll''\<rparr>))))))))"

text \<open>What runs under the per-DID lock.\<close>

definition apply_locked :: "('t, 'k) repo_lib \<Rightarrow> (nat \<Rightarrow> int) \<Rightarrow> string \<Rightarrow> string \<Rightarrow> write_op list \<Rightarrow> (actordb, applied) op" where
  "apply_locked lib ts did key xs d =
     (case GetRepoRoot d of
        (Inr root, d1) \<Rightarrow>
          gobind (loadTree lib (rrCommitCID root)) (\<lambda>(tree, pc).
            with_tx id (Wrapf ''committing repo write'')
              (write_commit lib did key xs tree (clk_from lib ts (coRev pc)) (Some (coRev pc)) (Some (coData pc)))) d1
      | (Inl e, d1) \<Rightarrow>
          if e = ActorErrNotFound then
            with_tx id (Wrapf ''committing repo write'')
              (write_commit lib did key xs (mst_empty lib) (clk_new lib ts) None None) d1
          else (Inl e, d1))"

record wire_lib =
  w_car :: car_lib
  w_cbor :: cbor_lib
  w_fmt :: "int \<Rightarrow> string"

text \<open>\<^verbatim>\<open>time.RFC3339\<close> of a UTC time.\<close>

definition rfc3339_text :: "(int \<Rightarrow> string) \<Rightarrow> int \<Rightarrow> string" where
  "rfc3339_text fmt_sec t = fmt_sec (t div 1000000000) @ ''Z''"

definition result_op :: "write_result \<Rightarrow> repo_op" where
  "result_op res = \<lparr>opAction = wrAction res, opPath = rec_path (wrCollection res) (wrRKey res),
     opCid = wrCID res, opPrev = wrPrevCID res\<rparr>"

definition commit_event :: "wire_lib \<Rightarrow> int \<Rightarrow> string \<Rightarrow> applied \<Rightarrow> bytes \<Rightarrow> event" where
  "commit_event wl now did a car = no_event\<lparr>RepoCommit := Some
     \<lparr>cmRepo = did, cmRev = coRev (apCommit a), cmSince = apSince a, cmCommit = apCID a,
      cmPrevData = apPrevData a, cmBlocks = car, cmOps = map result_op (apResults a),
      cmBlobs = concat (map wrBlobCIDs (apResults a)), cmTime = rfc3339_text (w_fmt wl) now, cmSeq = 0\<rparr>\<rparr>"

definition emitCommitEvent :: "wire_lib \<Rightarrow> int \<Rightarrow> string \<Rightarrow> applied \<Rightarrow> (seqdb, unit) op" where
  "emitCommitEvent wl now did a = (case WriteCAR (w_car wl) [apCID a] (apBlocks a) of
     (_, Some e) \<Rightarrow> gofail e
   | (car, None) \<Rightarrow> gobind (Append (w_cbor wl) (w_fmt wl) now did (commit_event wl now did a car)) (\<lambda>_. goret ()))"

definition ApplyWrites :: "('t, 'k) repo_lib \<Rightarrow> wire_lib \<Rightarrow> (string \<Rightarrow> go_error + string) \<Rightarrow> (nat \<Rightarrow> int) \<Rightarrow> int \<Rightarrow>
    string \<Rightarrow> string \<Rightarrow> write_op list \<Rightarrow> (world, applied) op" where
  "ApplyWrites lib wl parse_did ts now did key xs =
     gobind (on_mgr (WithLock parse_did did (apply_locked lib ts did key xs))) (\<lambda>a.
     gobind (wrapf ''sequencing commit event'' (on_seq (emitCommitEvent wl now did a))) (\<lambda>_. goret a))"

end
