(* ===== verification/RepoSpec.thy ===== *)
theory RepoSpec
  imports RepoOps
begin

text \<open>
  What the write path promises: a batch is applied as a whole or not at all, the record index and
  the blob references follow the results, index and tree stay in step, revisions increase, and a
  committed batch is announced by exactly one event. Storing a block is the contract
  \<open>block_store\<close>, which the actor store and the collecting store around it both meet.
\<close>

section \<open>Operations that only read\<close>

definition reads :: "('a dbconn_scheme, 'r) op \<Rightarrow> bool" where
  "reads m \<longleftrightarrow> (\<forall>d r d'. m d = (r, d') \<longrightarrow> (\<exists>t. d' = d\<lparr>tape := t\<rparr>))"

lemma readsD: "reads m \<Longrightarrow> m d = (r, d') \<Longrightarrow> \<exists>t. d' = d\<lparr>tape := t\<rparr>"
  by (simp add: reads_def)

lemma reads_query_row [intro]: "reads (query_row f)"
  by (auto simp: reads_def query_row_def stmt_def Let_def)

lemma same_tape [simp]: "\<exists>t. d = d\<lparr>tape := t\<rparr>" for d :: "'a dbconn_scheme"
  by (rule exI [of _ "tape d"]) simp

lemma reads_liftE [intro]: "reads (liftE r)"
  by (auto simp: reads_def liftE_def split: sum.splits)

lemma reads_goret [intro]: "reads (goret x)"
  using reads_liftE [of "Inr x"] by (simp add: liftE_def)

lemma reads_wrapf [intro]: "reads m \<Longrightarrow> reads (wrapf msg m)"
  unfolding reads_def by (metis prod.collapse snd_conv snd_wrapf)

lemma reads_gobind [intro]: "reads m \<Longrightarrow> (\<And>x. reads (k x)) \<Longrightarrow> reads (gobind m k)"
  unfolding reads_def gobind_def
  by (fastforce split: prod.splits sum.splits)

lemma reads_bs_Get [intro]: "reads (bs_Get c)"
  using reads_query_row [of "\<lambda>d. map_of (blocks d) c"]
  by (auto simp: reads_def bs_Get_def split: prod.splits sum.splits option.splits)

lemma reads_GetRepoRoot [intro]: "reads GetRepoRoot"
  using reads_query_row [of repo_root]
  by (auto simp: reads_def GetRepoRoot_def split: prod.splits sum.splits option.splits)

lemma reads_loadTree [intro]: "reads (loadTree lib c)"
  unfolding loadTree_def by (intro reads_gobind reads_wrapf) auto

section \<open>Storing blocks\<close>

locale block_store =
  fixes look :: "'s \<Rightarrow> cid \<Rightarrow> bytes option"
    and put :: "block \<Rightarrow> ('s, unit) op"
  assumes put_ok: "put (c, b) s = (Inr (), s') \<Longrightarrow>
    look s' = (if look s c = None then (look s)(c \<mapsto> b) else look s)"
begin

lemma puts_keep: "goeach put bs s = (Inr (), s') \<Longrightarrow> look s \<subseteq>\<^sub>m look s'"
proof (induction bs arbitrary: s)
  case (Cons x bs)
  obtain c b where x: "x = (c, b)" by (cases x)
  from Cons.prems obtain s1 where 1: "put (c, b) s = (Inr (), s1)" "goeach put bs s1 = (Inr (), s')"
    by (auto simp: gobind_Inr_iff x)
  have "look s \<subseteq>\<^sub>m look s1" using put_ok [OF 1(1)] by (auto simp: map_le_def)
  then show ?case using Cons.IH [OF 1(2)] by (rule map_le_trans)
qed simp

lemma puts_present:
  "goeach put bs s = (Inr (), s') \<Longrightarrow> (c, b) \<in> set bs \<Longrightarrow> look s' c \<noteq> None"
proof (induction bs arbitrary: s)
  case (Cons x bs)
  obtain c' b' where x: "x = (c', b')" by (cases x)
  from Cons.prems obtain s1 where 1: "put (c', b') s = (Inr (), s1)" "goeach put bs s1 = (Inr (), s')"
    by (auto simp: gobind_Inr_iff x)
  have "look s1 c' \<noteq> None" using put_ok [OF 1(1)] by (auto split: if_splits)
  then have "look s' c' \<noteq> None" using puts_keep [OF 1(2)] by (fastforce simp: map_le_def dom_def)
  then show ?case using Cons.IH [OF 1(2)] Cons.prems(2) x by auto
qed simp

text \<open>Where a content address determines the content, what was put is what is found.\<close>

lemma puts_found:
  assumes "goeach put bs s = (Inr (), s')"
    and "\<And>c b b'. good (c, b) \<Longrightarrow> good (c, b') \<Longrightarrow> b = b'"
    and "\<forall>x \<in> set bs. good x" "\<And>c b. look s' c = Some b \<Longrightarrow> good (c, b)"
    and "(c, b) \<in> set bs"
  shows "look s' c = Some b"
proof -
  obtain b' where "look s' c = Some b'" using puts_present [OF assms(1,5)] by auto
  then show ?thesis using assms by blast
qed

end

definition block_look :: "actordb \<Rightarrow> cid \<Rightarrow> bytes option" where
  "block_look d = map_of (blocks d)"

lemma bs_Put_ok:
  assumes "bs_Put (c, b) d = (Inr (), d')"
  shows "block_look d' = (if block_look d c = None then (block_look d)(c \<mapsto> b) else block_look d)
    \<and> d' = d\<lparr>tape := tape d', blocks := blocks d'\<rparr> \<and> set (blocks d') \<subseteq> insert (c, b) (set (blocks d))"
proof -
  have d': "d' = d\<lparr>tape := tl (tape d), blocks := sql_insert_ignore block_clash (c, b) (blocks d)\<rparr>"
    using assms by (auto simp: bs_Put_def exec_insert_ignore_def stmt_Inr_iff)
  have ex: "list_ex (\<lambda>r. block_clash r (c, b)) (blocks d) \<longleftrightarrow> map_of (blocks d) c \<noteq> None"
    by (auto simp: list_ex_iff block_clash_def map_of_eq_None_iff)
  show ?thesis
    using ex by (auto simp: d' block_look_def sql_insert_ignore_def map_add_def fun_eq_iff split: option.splits)
qed

interpretation actor_blocks: block_store block_look bs_Put
  by unfold_locales (use bs_Put_ok in blast)

text \<open>The collecting store as a store: the actor database and what has been collected.\<close>

definition cb_put_op :: "block \<Rightarrow> (actordb \<times> block list, unit) op" where
  "cb_put_op b s = (case cb_Put b (snd s) (fst s) of
     (Inr coll, d) \<Rightarrow> (Inr (), (d, coll)) | (Inl e, d) \<Rightarrow> (Inl e, (d, snd s)))"

lemma cb_Put_ok:
  "cb_Put x coll d = (Inr coll', d') \<longleftrightarrow> bs_Put x d = (Inr (), d') \<and> coll' = coll @ [x]"
  by (auto simp: cb_Put_def gobind_Inr_iff)

interpretation collecting: block_store "\<lambda>s. block_look (fst s)" cb_put_op
proof unfold_locales
  fix c b s and s' :: "actordb \<times> block list"
  assume "cb_put_op (c, b) s = (Inr (), s')"
  then have "bs_Put (c, b) (fst s) = (Inr (), fst s')"
    by (auto simp: cb_put_op_def cb_Put_ok split: prod.splits sum.splits)
  then show "block_look (fst s') =
      (if block_look (fst s) c = None then (block_look (fst s))(c \<mapsto> b) else block_look (fst s))"
    using bs_Put_ok by blast
qed

lemma cb_put_op_ok: "cb_put_op x (d, coll) = (Inr (), s') \<longleftrightarrow>
    (\<exists>d'. bs_Put x d = (Inr (), d') \<and> s' = (d', coll @ [x]))"
  by (auto simp: cb_put_op_def cb_Put_ok cb_Put_def gobind_def split: prod.splits sum.splits)

text \<open>\<open>cb_PutMany\<close> is the loop over the collecting store: it collects exactly what it was given.\<close>

lemma cb_PutMany_ok:
  "cb_PutMany bs coll d = (Inr coll', d') \<longleftrightarrow>
     goeach cb_put_op bs (d, coll) = (Inr (), (d', coll')) \<and> coll' = coll @ bs"
proof (induction bs arbitrary: coll d)
  case (Cons x bs)
  show ?case
    by (auto simp: gobind_Inr_iff Cons.IH cb_Put_ok cb_put_op_ok)
qed auto

lemma bs_PutMany_frame:
  assumes "goeach cb_put_op bs (d, coll) = (Inr (), (d', coll'))"
  shows "d' = d\<lparr>tape := tape d', blocks := blocks d'\<rparr> \<and> set (blocks d') \<subseteq> set bs \<union> set (blocks d)"
  using assms
proof (induction bs arbitrary: d coll)
  case Nil
  then show ?case by simp
next
  case (Cons x bs)
  then obtain d1 coll1 where 1: "bs_Put x d = (Inr (), d1)" "goeach cb_put_op bs (d1, coll1) = (Inr (), (d', coll'))"
    by (auto simp: gobind_Inr_iff cb_put_op_ok)
  obtain c b where x: "x = (c, b)" by (cases x)
  have f1: "d1 = d\<lparr>tape := tape d1, blocks := blocks d1\<rparr>" "set (blocks d1) \<subseteq> insert x (set (blocks d))"
    using bs_Put_ok [of c b d d1] 1(1) x by auto
  have f2: "d' = d1\<lparr>tape := tape d', blocks := blocks d'\<rparr>" "set (blocks d') \<subseteq> set bs \<union> set (blocks d1)"
    using Cons.IH [OF 1(2)] by auto
  have "d' = d\<lparr>tape := tape d', blocks := blocks d'\<rparr>"
    by (subst f2(1), subst f1(1)) simp
  then show ?case using f1(2) f2(2) by auto
qed

section \<open>All or nothing\<close>

lemma apply_locked_cases:
  assumes "apply_locked lib ts did key xs d = (r, d')"
  obtains (fail) e t where "r = Inl e" "d' = d\<lparr>tape := t\<rparr>"
  | (commits) tree clk since prev t a where "r = Inr a"
      "with_tx id (Wrapf ''committing repo write'') (write_commit lib did key xs tree clk since prev)
         (d\<lparr>tape := t\<rparr>) = (Inr a, d')"
      "case repo_root d of
         None \<Rightarrow> tree = mst_empty lib \<and> clk = clk_new lib ts \<and> since = None \<and> prev = None
       | Some root \<Rightarrow> \<exists>pc t' t''. loadTree lib (rrCommitCID root) (d\<lparr>tape := t'\<rparr>) = (Inr (tree, pc), d\<lparr>tape := t''\<rparr>)
           \<and> clk = clk_from lib ts (coRev pc) \<and> since = Some (coRev pc) \<and> prev = Some (coData pc)"
proof -
  let ?tx = "\<lambda>tree clk since prev. with_tx id (Wrapf ''committing repo write'')
    (write_commit lib did key xs tree clk since prev)"
  have tx: thesis if "?tx tree clk since prev (d\<lparr>tape := t\<rparr>) = (r, d')"
    "case repo_root d of
         None \<Rightarrow> tree = mst_empty lib \<and> clk = clk_new lib ts \<and> since = None \<and> prev = None
       | Some root \<Rightarrow> \<exists>pc t' t''. loadTree lib (rrCommitCID root) (d\<lparr>tape := t'\<rparr>) = (Inr (tree, pc), d\<lparr>tape := t''\<rparr>)
           \<and> clk = clk_from lib ts (coRev pc) \<and> since = Some (coRev pc) \<and> prev = Some (coData pc)"
    for tree clk since prev t
    using that fail commits by (cases r) (fastforce dest: with_tx_atomic)+
  obtain g d1 where g: "GetRepoRoot d = (g, d1)" by fastforce
  then obtain t where d1: "d1 = d\<lparr>tape := t\<rparr>" using reads_GetRepoRoot readsD by blast
  show ?thesis
  proof (cases g)
    case (Inr root)
    then have root: "repo_root d = Some root"
      using g by (auto simp: GetRepoRoot_def query_row_def stmt_def Let_def split: sum.splits option.splits if_splits)
    obtain l d2 where l: "loadTree lib (rrCommitCID root) d1 = (l, d2)" by fastforce
    then obtain t2 where d2: "d2 = d\<lparr>tape := t2\<rparr>" using readsD [OF reads_loadTree l] d1 by auto
    show ?thesis
    proof (cases l)
      case (Inl e)
      then have "r = Inl e" "d' = d2" using assms g Inr l by (auto simp: apply_locked_def)
      then show ?thesis using fail d2 by blast
    next
      case (Inr tp)
      obtain tree pc where tp: "tp = (tree, pc)" by (cases tp)
      have run: "?tx tree (clk_from lib ts (coRev pc)) (Some (coRev pc)) (Some (coData pc)) (d\<lparr>tape := t2\<rparr>) = (r, d')"
        using assms g l Inr tp \<open>g = Inr root\<close> d2 by (simp add: apply_locked_def)
      show ?thesis
        by (rule tx [OF run]) (use root l Inr tp d1 d2 in auto)
    qed
  next
    case (Inl e)
    show ?thesis
    proof (cases "e = ActorErrNotFound")
      case True
      then have "repo_root d = None"
        using g Inl by (auto simp: GetRepoRoot_def query_row_def stmt_def Let_def split: sum.splits option.splits if_splits)
      moreover have "?tx (mst_empty lib) (clk_new lib ts) None None (d\<lparr>tape := t\<rparr>) = (r, d')"
        using assms g Inl True d1 by (simp add: apply_locked_def)
      ultimately show ?thesis using tx by simp
    next
      case False
      then show ?thesis using assms g Inl d1 fail by (auto simp: apply_locked_def)
    qed
  qed
qed

section \<open>Record index and blob references\<close>

fun rec_index :: "record_row list \<Rightarrow> string \<times> string \<Rightarrow> cid option" where
  "rec_index rs (c, k) = map_option recCID (find (\<lambda>r. recCollection r = c \<and> recRKey r = k) rs)"

definition index :: "actordb \<Rightarrow> string \<times> string \<Rightarrow> cid option" where
  "index d = rec_index (records d)"

definition refs :: "actordb \<Rightarrow> string \<times> string \<Rightarrow> cid set" where
  "refs d = (\<lambda>(c, k). {x. \<lparr>brCID = x, brCollection = c, brRKey = k\<rparr> \<in> set (blob_refs d)})"

lemma rec_index_filter:
  "rec_index (filter (\<lambda>r. \<not> (recCollection r = c \<and> recRKey r = k)) rs) = (rec_index rs)((c, k) := None)"
proof (rule ext, rename_tac x)
  fix x :: "string \<times> string"
  show "rec_index (filter (\<lambda>r. \<not> (recCollection r = c \<and> recRKey r = k)) rs) x = ((rec_index rs)((c, k) := None)) x"
    by (cases x, induction rs) auto
qed

lemma rec_index_upsert:
  "rec_index (sql_upsert record_clash (\<lambda>r. r\<lparr>recCID := x\<rparr>) \<lparr>recCollection = c, recRKey = k, recCID = x\<rparr> rs) =
     (rec_index rs)((c, k) \<mapsto> x)"
proof (rule ext)
  fix y :: "string \<times> string"
  obtain c' k' where y: "y = (c', k')" by (cases y)
  let ?p = "\<lambda>c k r. recCollection r = c \<and> recRKey r = k"
  let ?f = "\<lambda>r. if ?p c k r then r\<lparr>recCID := x\<rparr> else r"
  have other: "rec_index (map ?f rs) y = rec_index rs y" if "(c', k') \<noteq> (c, k)"
    using that unfolding y by (induction rs) auto
  have same: "rec_index (map ?f rs) (c, k) = Some x" if "\<exists>r \<in> set rs. ?p c k r"
    using that by (induction rs) force+
  have none: "find (?p c k) rs = None" if "\<not> (\<exists>r \<in> set rs. ?p c k r)"
    using that by (auto simp: find_None_iff)
  have upsert: "sql_upsert record_clash (\<lambda>r. r\<lparr>recCID := x\<rparr>) \<lparr>recCollection = c, recRKey = k, recCID = x\<rparr> rs =
      (if \<exists>r \<in> set rs. ?p c k r then map ?f rs else rs @ [\<lparr>recCollection = c, recRKey = k, recCID = x\<rparr>])"
    by (simp add: sql_upsert_def record_clash_def rec_key_def list_ex_iff)
  show "rec_index (sql_upsert record_clash (\<lambda>r. r\<lparr>recCID := x\<rparr>) \<lparr>recCollection = c, recRKey = k, recCID = x\<rparr> rs) y
      = ((rec_index rs)((c, k) \<mapsto> x)) y"
  proof (cases "y = (c, k)")
    case True
    then show ?thesis using same none unfolding upsert by (simp add: find_append)
  next
    case False
    then show ?thesis using other y unfolding upsert by (auto simp: find_append split: option.split)
  qed
qed

text \<open>The tables that single writes leave alone.\<close>

definition untouched :: "actordb \<Rightarrow> actordb \<Rightarrow> bool" where
  "untouched d d' \<longleftrightarrow> repo_root d' = repo_root d \<and> preferences d' = preferences d
     \<and> blob_files d' = blob_files d"

lemma untouched_refl [simp]: "untouched d d"
  by (simp add: untouched_def)

lemma untouched_trans: "untouched d d1 \<Longrightarrow> untouched d1 d2 \<Longrightarrow> untouched d d2"
  by (simp add: untouched_def)

lemma put_index_ok:
  "PutRecordIndex c k x d = (Inr (), d') \<Longrightarrow> index d' = (index d)((c, k) \<mapsto> x)
     \<and> refs d' = refs d \<and> blocks d' = blocks d \<and> untouched d d'"
  by (auto simp: PutRecordIndex_def exec_upsert_def stmt_Inr_iff index_def rec_index_upsert
      refs_def untouched_def simp del: rec_index.simps)

lemma delete_index_ok:
  "DeleteRecordIndex c k d = (Inr (), d') \<Longrightarrow> index d' = (index d)((c, k) := None)
     \<and> refs d' = refs d \<and> blocks d' = blocks d \<and> untouched d d'"
  using rec_index_filter [of c k "records d"]
  by (auto simp: DeleteRecordIndex_def exec_delete_def gobind_Inr_iff stmt_Inr_iff index_def
      refs_def untouched_def sql_delete_def simp del: rec_index.simps)

lemma clear_refs_ok:
  "ClearBlobRefsForRecord c k d = (Inr (), d') \<Longrightarrow> refs d' = (refs d)((c, k) := {})
     \<and> index d' = index d \<and> blocks d' = blocks d \<and> untouched d d'"
  by (auto simp: ClearBlobRefsForRecord_def exec_delete_def gobind_Inr_iff stmt_Inr_iff refs_def
      index_def untouched_def sql_delete_def fun_eq_iff)

lemma set_insert_ref: "set (sql_insert_ignore blob_ref_clash r rs) = insert r (set rs)"
  by (auto simp: sql_insert_ignore_def list_ex_iff blob_ref_clash_def)

lemma put_blob_ok:
  "put_blob c k b d = (Inr (), d') \<Longrightarrow> refs d' = (refs d)((c, k) := insert (fst b) (refs d (c, k)))
    \<and> index d' = index d \<and> blocks d' = blocks d \<and> untouched d d'"
  by (cases b) (auto simp: put_blob_def PutBlobMeta_def AddBlobRef_def exec_insert_ignore_def
      gobind_Inr_iff stmt_Inr_iff refs_def index_def untouched_def set_insert_ref fun_eq_iff)

lemma put_blobs_ok:
  "goeach (put_blob c k) bs d = (Inr (), d') \<Longrightarrow>
     refs d' = (refs d)((c, k) := fst ` set bs \<union> refs d (c, k))
     \<and> index d' = index d \<and> blocks d' = blocks d \<and> untouched d d'"
proof (induction bs arbitrary: d)
  case Nil
  then show ?case by simp
next
  case (Cons b bs)
  then obtain d1 where 1: "put_blob c k b d = (Inr (), d1)" "goeach (put_blob c k) bs d1 = (Inr (), d')"
    by (auto simp: gobind_Inr_iff)
  then show ?case
    using put_blob_ok [OF 1(1)] Cons.IH [OF 1(2)] untouched_trans [of d d1 d']
    by (auto simp: fun_eq_iff)
qed

lemma bs_Put_frame: "bs_Put x d = (Inr (), d') \<Longrightarrow> refs d' = refs d \<and> index d' = index d \<and> untouched d d'"
  by (auto simp: bs_Put_def exec_insert_ignore_def stmt_Inr_iff refs_def index_def untouched_def)

text \<open>The state a result asks for: its key maps to its CID and to exactly its blobs.\<close>

definition res_key :: "write_result \<Rightarrow> string \<times> string" where
  "res_key res = (wrCollection res, wrRKey res)"

definition apply_result :: "write_result \<Rightarrow> (string \<times> string \<Rightarrow> cid option) \<Rightarrow> string \<times> string \<Rightarrow> cid option" where
  "apply_result res m = m(res_key res := wrCID res)"

definition apply_refs :: "write_result \<Rightarrow> (string \<times> string \<Rightarrow> cid set) \<Rightarrow> string \<times> string \<Rightarrow> cid set" where
  "apply_refs res m = m(res_key res := set (wrBlobCIDs res))"

text \<open>What a result says of the operation it answers.\<close>

definition answers :: "write_op \<Rightarrow> write_result \<Rightarrow> bool" where
  "answers x res \<longleftrightarrow> wrAction res = woAction x \<and> wrCollection res = woCollection x
     \<and> (woRKey x = '''' \<or> wrRKey res = woRKey x)
     \<and> (wrCID res = None \<longleftrightarrow> woAction x = ActionDelete)"

lemma apply_delete_ok:
  assumes "apply_delete lib x (tree, clk, coll) d = (Inr (res, tree', clk', coll'), d')"
    "woAction x = ActionDelete"
  obtains prev where "mst_remove lib (rec_path (woCollection x) (woRKey x)) tree = Inr (Some prev, tree')"
    "wrPrevCID res = Some prev" "clk' = clk" "coll' = coll" "blocks d' = blocks d" "answers x res"
    "wrRKey res = woRKey x" "wrCID res = None"
    "index d' = apply_result res (index d)" "refs d' = apply_refs res (refs d)" "untouched d d'"
proof -
  obtain prev d1 where "mst_remove lib (rec_path (woCollection x) (woRKey x)) tree = Inr (Some prev, tree')"
    and 1: "DeleteRecordIndex (woCollection x) (woRKey x) d = (Inr (), d1)"
    and 2: "ClearBlobRefsForRecord (woCollection x) (woRKey x) d1 = (Inr (), d')"
    and "res = \<lparr>wrAction = woAction x, wrCollection = woCollection x, wrRKey = woRKey x,
      wrCID = None, wrPrevCID = Some prev, wrBlobCIDs = []\<rparr>" "clk' = clk" "coll' = coll"
    using assms(1) by (auto simp: apply_delete_def gobind_Inr_iff split: if_splits)
  moreover have "untouched d d'"
    using delete_index_ok [OF 1] clear_refs_ok [OF 2] untouched_trans by blast
  ultimately show ?thesis
    using that delete_index_ok [OF 1] clear_refs_ok [OF 2] assms(2)
    by (simp add: answers_def apply_result_def apply_refs_def res_key_def)
qed

lemma apply_put_ok:
  assumes "apply_put lib x r (tree, clk, coll) d = (Inr (res, tree', clk', coll'), d')"
    "woAction x \<noteq> ActionDelete"
  obtains c b blk d1 where "cid_sum lib b = Inr c"
    "new_block lib b c = Inr blk" "coll' = coll @ [blk]"
    "bs_Put blk d = (Inr (), d1)" "blocks d' = blocks d1"
    "mst_insert lib (rec_path (wrCollection res) (wrRKey res)) c tree = Inr (wrPrevCID res, tree')"
    "clk' = clk \<or> clk' = snd (clk_next lib clk)" "answers x res" "wrCID res = Some c"
    "index d' = apply_result res (index d)" "refs d' = apply_refs res (refs d)" "untouched d d'"
proof -
  obtain rkey c b blk prev d1 d2 d3 where rk: "(if woRKey x = '''' then clk_next lib clk else (woRKey x, clk)) = (rkey, clk')"
    and lib: "cid_sum lib b = Inr c" "new_block lib b c = Inr blk" "coll' = coll @ [blk]"
      "mst_insert lib (rec_path (woCollection x) rkey) c tree = Inr (prev, tree')"
    and st: "bs_Put blk d = (Inr (), d1)" "PutRecordIndex (woCollection x) rkey c d1 = (Inr (), d2)"
      "ClearBlobRefsForRecord (woCollection x) rkey d2 = (Inr (), d3)"
      "goeach (put_blob (woCollection x) rkey) (extract_blobs lib (with_type (woCollection x) r)) d3 = (Inr (), d')"
    and res: "res = \<lparr>wrAction = woAction x, wrCollection = woCollection x, wrRKey = rkey, wrCID = Some c,
        wrPrevCID = prev, wrBlobCIDs = map fst (extract_blobs lib (with_type (woCollection x) r))\<rparr>"
    using assms(1)
    by (auto simp: apply_put_def gobind_Inr_iff cb_Put_ok Let_def split: prod.splits)
  have "untouched d d'"
    using bs_Put_frame [OF st(1)] put_index_ok [OF st(2)] clear_refs_ok [OF st(3)] put_blobs_ok [OF st(4)]
    by (simp add: untouched_def)
  then show ?thesis
    using that [of b c blk d1] rk lib st res assms(2)
      bs_Put_frame [OF st(1)] put_index_ok [OF st(2)] clear_refs_ok [OF st(3)] put_blobs_ok [OF st(4)]
    by (auto simp: answers_def apply_result_def apply_refs_def res_key_def split: if_splits)
qed

lemma applyOne_cases:
  assumes "applyOne lib x st d = (Inr y, d')"
  obtains (delete) "woAction x = ActionDelete" "apply_delete lib x st d = (Inr y, d')"
  | (put) r where "woAction x \<noteq> ActionDelete" "apply_put lib x r st d = (Inr y, d')"
  using assms by (auto simp: applyOne_def split: if_splits option.splits)

lemma applyOne_ok:
  assumes "applyOne lib x (tree, clk, coll) d = (Inr (res, tree', clk', coll'), d')"
  shows "index d' = apply_result res (index d) \<and> refs d' = apply_refs res (refs d) \<and> untouched d d'
    \<and> answers x res"
  using assms
proof (cases rule: applyOne_cases)
  case delete
  then show ?thesis by (elim apply_delete_ok) auto
next
  case (put r)
  then show ?thesis by (elim apply_put_ok) auto
qed

lemma applyAll_ok:
  assumes "applyAll lib xs st d = (Inr (rs, st'), d')"
  shows "index d' = fold apply_result rs (index d) \<and> refs d' = fold apply_refs rs (refs d)
    \<and> untouched d d' \<and> list_all2 answers xs rs"
  using assms
proof (induction xs arbitrary: st d rs)
  case Nil
  then show ?case by simp
next
  case (Cons x xs)
  then obtain res st1 d1 rs1 where 1: "applyOne lib x st d = (Inr (res, st1), d1)"
      "applyAll lib xs st1 d1 = (Inr (rs1, st'), d')" "rs = res # rs1"
    by (auto simp: gobind_Inr_iff)
  obtain t k c t' k' c' where st: "st = (t, k, c)" "st1 = (t', k', c')" by (metis prod_cases3)
  have "index d1 = apply_result res (index d) \<and> refs d1 = apply_refs res (refs d) \<and> untouched d d1
    \<and> answers x res"
    using applyOne_ok [OF 1(1) [unfolded st]] by simp
  then show ?case using Cons.IH [OF 1(2)] 1(3) untouched_trans by auto
qed

lemma write_commit_ok:
  assumes "write_commit lib did key xs tree clk since prev d = (Inr a, d')"
  obtains tree' clk' coll d1 blks root d2 c b blk d3 where
    "applyAll lib xs (tree, clk, []) d = (Inr (apResults a, tree', clk', coll), d1)"
    "mst_diff lib tree' = Inr (blks, root)" "cb_PutMany blks coll d1 = (Inr (coll @ blks), d2)"
    "sign_commit lib key \<lparr>coDID = did, coVersion = ATPROTO_REPO_VERSION, coPrev = None, coData = root,
        coRev = fst (clk_next lib clk'), coSig = []\<rparr> = Inr (apCommit a)"
    "marshal_commit lib (apCommit a) = Inr b" "cid_sum lib b = Inr (apCID a)"
    "new_block lib b (apCID a) = Inr blk" "bs_Put blk d2 = (Inr (), d3)"
    "\<exists>t. d' = d3\<lparr>tape := t, repo_root := Some \<lparr>rrCommitCID = apCID a, rrRev = coRev (apCommit a)\<rparr>\<rparr>"
    "apBlocks a = coll @ blks @ [blk]" "apSince a = since" "apPrevData a = prev"
proof -
  have root: "\<exists>t. d' = d3\<lparr>tape := t, repo_root := Some \<lparr>rrCommitCID = c, rrRev = rv\<rparr>\<rparr>"
    if "SetRepoRoot c rv d3 = (Inr (), d')" for c rv d3
    using that by (auto simp: SetRepoRoot_def stmt_Inr_iff)
  show ?thesis
    using assms that root
    by (auto simp: write_commit_def gobind_Inr_iff cb_Put_ok cb_PutMany_ok)
qed

lemma write_commit_effect:
  assumes "write_commit lib did key xs tree clk since prev d = (Inr a, d')"
  shows "index d' = fold apply_result (apResults a) (index d) \<and> refs d' = fold apply_refs (apResults a) (refs d)
    \<and> list_all2 answers xs (apResults a)
    \<and> repo_root d' = Some \<lparr>rrCommitCID = apCID a, rrRev = coRev (apCommit a)\<rparr>
    \<and> preferences d' = preferences d \<and> blob_files d' = blob_files d"
proof -
  obtain tree' clk' coll d1 blks d2 blk d3 t where
    1: "applyAll lib xs (tree, clk, []) d = (Inr (apResults a, tree', clk', coll), d1)" and
    2: "cb_PutMany blks coll d1 = (Inr (coll @ blks), d2)" and 3: "bs_Put blk d2 = (Inr (), d3)" and
    4: "d' = d3\<lparr>tape := t, repo_root := Some \<lparr>rrCommitCID = apCID a, rrRev = coRev (apCommit a)\<rparr>\<rparr>"
    using assms by (elim write_commit_ok) blast
  have f2: "d2 = d1\<lparr>tape := tape d2, blocks := blocks d2\<rparr>"
    using bs_PutMany_frame 2 by (auto simp: cb_PutMany_ok)
  have "index d2 = index d1 \<and> refs d2 = refs d1 \<and> untouched d1 d2"
    by (subst (1 2 3) f2) (simp add: index_def refs_def untouched_def)
  then show ?thesis
    using applyAll_ok [OF 1] bs_Put_frame [OF 3] 4
    by (simp add: index_def refs_def untouched_def)
qed

lemma apply_writes_cases:
  "case apply_locked lib ts did key xs d of
     (Inl _, d') \<Rightarrow> \<exists>t. d' = d\<lparr>tape := t\<rparr>
   | (Inr a, d') \<Rightarrow> list_all2 answers xs (apResults a)
       \<and> index d' = fold apply_result (apResults a) (index d)
       \<and> refs d' = fold apply_refs (apResults a) (refs d)
       \<and> repo_root d' = Some \<lparr>rrCommitCID = apCID a, rrRev = coRev (apCommit a)\<rparr>
       \<and> preferences d' = preferences d \<and> blob_files d' = blob_files d"
proof (cases "apply_locked lib ts did key xs d")
  case (Pair r d')
  show ?thesis
    using Pair
  proof (cases rule: apply_locked_cases)
    case (fail e t)
    then show ?thesis using Pair by auto
  next
    case (commits tree clk since prev t a)
    obtain d2 t2 where "write_commit lib did key xs tree clk since prev (d\<lparr>tape := tl t\<rparr>) = (Inr a, d2)"
      "d' = d2\<lparr>tape := t2\<rparr>"
      using commits(2) by (elim with_tx_Inr) auto
    then show ?thesis
      using write_commit_effect [of lib did key xs tree clk since prev "d\<lparr>tape := tl t\<rparr>" a d2] Pair commits(1)
      by (simp add: index_def refs_def)
  qed
qed

lemma apply_locked_err: "apply_locked lib ts did key xs d = (Inl e, d') \<Longrightarrow> \<exists>t. d' = d\<lparr>tape := t\<rparr>"
  using apply_writes_cases [where lib = lib and ts = ts and did = did and key = key and xs = xs and d = d] by simp

lemma apply_locked_ok:
  "apply_locked lib ts did key xs d = (Inr a, d') \<Longrightarrow> list_all2 answers xs (apResults a)
       \<and> index d' = fold apply_result (apResults a) (index d)"
  using apply_writes_cases [where lib = lib and ts = ts and did = did and key = key and xs = xs and d = d] by simp

text \<open>C6. A batch of writes is all or nothing. If it fails, at whatever statement, library call or
  validation, the repository is exactly as it was: no block, record, blob row or root has changed.
  If it succeeds, the results answer the operations one by one, and the record index and the blob
  references have become the old ones updated by the results in order: a record's key holds the CID
  of its last write (nothing after a delete) and its references are exactly the blobs of that
  write; the root names the new commit, and preferences and blob files are untouched.\<close>

theorem apply_writes_all_or_nothing:
  "case apply_locked lib ts did key xs d of
     (Inl _, d') \<Rightarrow> \<exists>t. d' = d\<lparr>tape := t\<rparr>
   | (Inr a, d') \<Rightarrow> list_all2 answers xs (apResults a)
       \<and> index d' = fold apply_result (apResults a) (index d)
       \<and> refs d' = fold apply_refs (apResults a) (refs d)
       \<and> repo_root d' = Some \<lparr>rrCommitCID = apCID a, rrRev = coRev (apCommit a)\<rparr>
       \<and> preferences d' = preferences d \<and> blob_files d' = blob_files d"
  by (rule apply_writes_cases)

section \<open>One event per batch\<close>

lemma emit_err:
  assumes "emitCommitEvent wl now did a d = (Inl e, d')"
  shows "\<exists>t. d' = d\<lparr>tape := t\<rparr>"
proof (cases "WriteCAR (w_car wl) [apCID a] (apBlocks a)")
  case (Pair car err)
  then show ?thesis
    using assms by (cases err) (auto simp: emitCommitEvent_def gobind_Inl_iff dest: Append_err)
qed

lemma emit_ok:
  assumes "emitCommitEvent wl now did a d = (Inr (), d')"
  obtains car sq where "WriteCAR (w_car wl) [apCID a] (apBlocks a) = (car, None)"
    "Append (w_cbor wl) (w_fmt wl) now did (commit_event wl now did a car) d = (Inr sq, d')"
proof (cases "WriteCAR (w_car wl) [apCID a] (apBlocks a)")
  case (Pair car err)
  then show ?thesis
    using assms that by (cases err) (auto simp: emitCommitEvent_def gobind_Inr_iff)
qed

text \<open>C12. A batch is announced by exactly one event or by none. When \<open>ApplyWrites\<close> succeeds, the batch is
  committed and the log has gained one \<^verbatim>\<open>#commit\<close> event for the DID: the frame of a message with the new
  revision and commit, the revision and tree it replaces, one operation per result in order and a CAR
  file of exactly the blocks the batch wrote, under the next number. When it fails, the log has gained
  nothing: then the batch was not applied, or it is committed all the same and only its event could not
  be appended.\<close>

theorem one_event_per_batch:
  assumes "seq_inv (wSeq w)"
  shows "case ApplyWrites lib wl parse_did ts now did key xs w of
     (Inl e, w') \<Rightarrow> (\<exists>t. wSeq w' = (wSeq w)\<lparr>tape := t\<rparr>)
       \<and> (WithLock parse_did did (apply_locked lib ts did key xs) (wMgr w) = (Inl e, wMgr w')
          \<or> (\<exists>a e'. WithLock parse_did did (apply_locked lib ts did key xs) (wMgr w) = (Inr a, wMgr w')
               \<and> e = Wrapf ''sequencing commit event'' e'))
   | (Inr a, w') \<Rightarrow> WithLock parse_did did (apply_locked lib ts did key xs) (wMgr w) = (Inr a, wMgr w')
       \<and> (\<exists>car payload. WriteCAR (w_car wl) [apCID a] (apBlocks a) = (car, None)
       \<and> Serialize (w_cbor wl) (no_event\<lparr>RepoCommit := Some
           \<lparr>cmRepo = did, cmRev = coRev (apCommit a), cmSince = apSince a, cmCommit = apCID a, cmPrevData = apPrevData a,
            cmBlocks = car, cmOps = map (\<lambda>res. \<lparr>opAction = wrAction res, opPath = wrCollection res @ ''/'' @ wrRKey res,
              opCid = wrCID res, opPrev = wrPrevCID res\<rparr>) (apResults a), cmBlobs = concat (map wrBlobCIDs (apResults a)),
            cmTime = rfc3339_text (w_fmt wl) now, cmSeq = last_seq (wSeq w) + 1\<rparr>\<rparr>) = Inr payload
       \<and> events (wSeq w') = filter (retained (w_fmt wl) now) (events (wSeq w) @
            [new_row (w_fmt wl) now did (last_seq (wSeq w) + 1) ''#commit'' payload]))"
proof (cases "ApplyWrites lib wl parse_did ts now did key xs w")
  case (Pair r w')
  show ?thesis
  proof (cases r)
    case (Inl e)
    then have "(\<exists>t. wSeq w' = (wSeq w)\<lparr>tape := t\<rparr>)
       \<and> (WithLock parse_did did (apply_locked lib ts did key xs) (wMgr w) = (Inl e, wMgr w')
          \<or> (\<exists>a e'. WithLock parse_did did (apply_locked lib ts did key xs) (wMgr w) = (Inr a, wMgr w')
               \<and> e = Wrapf ''sequencing commit event'' e'))"
      using Pair by (auto simp: ApplyWrites_def gobind_Inl_iff wrapf_Inl_iff dest: emit_err)
    then show ?thesis using Pair Inl by simp
  next
    case (Inr a)
    then have emit: "emitCommitEvent wl now did a (wSeq w) = (Inr (), wSeq w')"
      and lock: "WithLock parse_did did (apply_locked lib ts did key xs) (wMgr w) = (Inr a, wMgr w')"
      using Pair by (auto simp: ApplyWrites_def gobind_Inr_iff)
    from emit obtain car sq where car: "WriteCAR (w_car wl) [apCID a] (apBlocks a) = (car, None)"
      and ap: "Append (w_cbor wl) (w_fmt wl) now did (commit_event wl now did a car) (wSeq w) = (Inr sq, wSeq w')"
      by (elim emit_ok)
    obtain ty evt' payload where "SeqOf sq (commit_event wl now did a car) = Inr (ty, evt')"
      "sq = last_seq (wSeq w) + 1" "Serialize (w_cbor wl) evt' = Inr payload"
      "events (wSeq w') = filter (retained (w_fmt wl) now) (events (wSeq w) @ [new_row (w_fmt wl) now did sq ty payload])"
      using ap assms by (elim Append_ok)
    then show ?thesis using Pair Inr car lock
      by (auto simp: SeqOf_def commit_event_def no_event_def result_op_def [abs_def] rec_path_def)
  qed
qed

end
