(* ===== verification/RepoSync.thy ===== *)
theory RepoSync
  imports RepoSpec
begin

text \<open>
  How the record index, the Merkle search tree and the revision move together. The theorems here
  rest on what the indigo library documents, stated as the predicates below over the parameters;
  the end of the theory has a small library that meets all of them.
\<close>

section \<open>What the code relies on\<close>

text \<open>
  \<open>entries t\<close> is the map a tree stands for, \<open>stored t L\<close> says that what the tree has not
  changed since it was loaded is in the store \<open>L\<close>. Removing a path that is absent returns no
  previous CID; the blocks of a diff complete the store to one from which the root loads.
\<close>

definition mst_laws :: "('t, 'k) repo_lib \<Rightarrow> ('t \<Rightarrow> string \<Rightarrow> cid option) \<Rightarrow>
    ('t \<Rightarrow> (cid \<Rightarrow> bytes option) \<Rightarrow> bool) \<Rightarrow> bool" where
  "mst_laws lib entries stored \<longleftrightarrow>
     entries (mst_empty lib) = Map.empty \<and> (\<forall>L. stored (mst_empty lib) L)
     \<and> (\<forall>L c t. mst_load lib L c = Inr t \<longrightarrow> stored t L)
     \<and> (\<forall>k c t p t'. mst_insert lib k c t = Inr (p, t') \<longrightarrow>
          p = entries t k \<and> entries t' = (entries t)(k \<mapsto> c) \<and> (\<forall>L. stored t L \<longrightarrow> stored t' L))
     \<and> (\<forall>k t p t'. mst_remove lib k t = Inr (p, t') \<longrightarrow>
          p = entries t k \<and> entries t' = (entries t)(k := None) \<and> (\<forall>L. stored t L \<longrightarrow> stored t' L))
     \<and> (\<forall>t L L' blks root. mst_diff lib t = Inr (blks, root) \<and> stored t L \<and> L \<subseteq>\<^sub>m L'
          \<and> (\<forall>(c, b) \<in> set blks. L' c = Some b) \<longrightarrow>
          (\<exists>t'. mst_load lib L' root = Inr t' \<and> entries t' = entries t))"

text \<open>\<open>good\<close> holds of a block whose CID is the hash of its bytes; two such blocks with one CID agree.\<close>

definition block_laws :: "('t, 'k) repo_lib \<Rightarrow> (block \<Rightarrow> bool) \<Rightarrow> bool" where
  "block_laws lib good \<longleftrightarrow>
     (\<forall>c b b'. good (c, b) \<and> good (c, b') \<longrightarrow> b = b')
     \<and> (\<forall>b c x. cid_sum lib b = Inr c \<and> new_block lib b c = Inr x \<longrightarrow> x = (c, b) \<and> good x)
     \<and> (\<forall>t blks root. mst_diff lib t = Inr (blks, root) \<longrightarrow> (\<forall>x \<in> set blks. good x))"

text \<open>Signing only fills in the signature, and a commit survives its encoding.\<close>

definition commit_laws :: "('t, 'k) repo_lib \<Rightarrow> bool" where
  "commit_laws lib \<longleftrightarrow>
     (\<forall>key c c'. sign_commit lib key c = Inr c' \<longrightarrow> (\<exists>s. c' = c\<lparr>coSig := s\<rparr>))
     \<and> (\<forall>c b. marshal_commit lib c = Inr b \<longrightarrow> unmarshal_commit lib b = Inr c)"

text \<open>A TID clock hands out increasing TIDs, beginning after the one it was started from.\<close>

definition clock_laws :: "('t, 'k) repo_lib \<Rightarrow> ('k \<Rightarrow> string) \<Rightarrow> bool" where
  "clock_laws lib now_of \<longleftrightarrow> (\<forall>ts s. now_of (clk_from lib ts s) = s)
     \<and> (\<forall>k s k'. clk_next lib k = (s, k') \<longrightarrow> now_of k < s \<and> now_of k' = s)"

definition repo_laws where
  "repo_laws lib entries stored good now_of \<longleftrightarrow>
     mst_laws lib entries stored \<and> block_laws lib good \<and> commit_laws lib \<and> clock_laws lib now_of"

section \<open>The tree and the revision in force\<close>

definition current :: "('t, 'k) repo_lib \<Rightarrow> actordb \<Rightarrow> (string \<times> 't) option" where
  "current lib d = (case repo_root d of
     None \<Rightarrow> Some ('''', mst_empty lib)
   | Some r \<Rightarrow> (case block_look d (rrCommitCID r) of
       None \<Rightarrow> None
     | Some b \<Rightarrow> (case unmarshal_commit lib b of
         Inl _ \<Rightarrow> None
       | Inr c \<Rightarrow> if coRev c \<noteq> rrRev r then None
           else (case mst_load lib (block_look d) (coData c) of
             Inl _ \<Rightarrow> None | Inr t \<Rightarrow> Some (coRev c, t)))))"

lemma block_look_tape [simp]: "block_look (d\<lparr>tape := t\<rparr>) = block_look d"
  by (simp add: block_look_def)

lemma current_tape [simp]: "current lib (d\<lparr>tape := t\<rparr>) = current lib d"
  unfolding current_def block_look_tape by simp

definition chain_ok :: "('t, 'k) repo_lib \<Rightarrow> (block \<Rightarrow> bool) \<Rightarrow> actordb \<Rightarrow> bool" where
  "chain_ok lib good d \<longleftrightarrow> (\<forall>x \<in> set (blocks d). good x) \<and> current lib d \<noteq> None"

definition in_sync :: "('t, 'k) repo_lib \<Rightarrow> ('t \<Rightarrow> string \<Rightarrow> cid option) \<Rightarrow> actordb \<Rightarrow> bool" where
  "in_sync lib entries d \<longleftrightarrow> (\<exists>rv t. current lib d = Some (rv, t)
     \<and> (\<forall>coll k. CHR ''/'' \<notin> set coll \<longrightarrow> index d (coll, k) = entries t (rec_path coll k)))"

definition tree_result :: "write_result \<Rightarrow> (string \<Rightarrow> cid option) \<Rightarrow> string \<Rightarrow> cid option" where
  "tree_result res m = m(rec_path (wrCollection res) (wrRKey res) := wrCID res)"

text \<open>Every result reports as previous CID what its path held before it.\<close>

fun prevs_ok :: "(string \<Rightarrow> cid option) \<Rightarrow> write_result list \<Rightarrow> bool" where
  "prevs_ok m [] = True"
| "prevs_ok m (res # rs) = (wrPrevCID res = m (rec_path (wrCollection res) (wrRKey res))
     \<and> prevs_ok (tree_result res m) rs)"

lemma rec_path_inj:
  assumes "CHR ''/'' \<notin> set c" "CHR ''/'' \<notin> set c'"
  shows "rec_path c k = rec_path c' k' \<longleftrightarrow> c = c' \<and> k = k'"
proof -
  have "cut (CHR ''/'') (rec_path c k) = (c, k, True)" "cut (CHR ''/'') (rec_path c' k') = (c', k', True)"
    using assms by (simp_all add: rec_path_def)
  then show ?thesis by (metis Pair_inject)
qed

lemma clk_le:
  assumes "clock_laws lib now_of" "clk' = clk \<or> clk' = snd (clk_next lib clk)"
  shows "now_of clk \<le> now_of clk'"
proof (cases "clk_next lib clk")
  case (Pair s k)
  then have "now_of clk < s" "now_of k = s" using assms(1) by (auto simp: clock_laws_def)
  then show ?thesis using assms(2) Pair by auto
qed

lemma bs_Put_mono: "bs_Put x d = (Inr (), d') \<Longrightarrow> block_look d \<subseteq>\<^sub>m block_look d'"
  using actor_blocks.puts_keep [of "[x]" d d'] by (simp add: gobind_def)

lemma bs_Put_blocks: "bs_Put x d = (Inr (), d') \<Longrightarrow> set (blocks d') \<subseteq> insert x (set (blocks d))"
  using bs_Put_ok by (cases x) blast

lemma applyOne_tree:
  assumes laws: "repo_laws lib entries stored good now_of"
    and run: "applyOne lib x (tree, clk, coll) d = (Inr (res, tree', clk', coll'), d')"
    and blocks: "\<forall>x \<in> set (blocks d). good x"
  shows "entries tree' = tree_result res (entries tree)
    \<and> wrPrevCID res = entries tree (rec_path (wrCollection res) (wrRKey res))
    \<and> (\<forall>L. stored tree L \<longrightarrow> stored tree' L) \<and> (\<forall>x \<in> set (blocks d'). good x)
    \<and> block_look d \<subseteq>\<^sub>m block_look d' \<and> now_of clk \<le> now_of clk'"
  using run
proof (cases rule: applyOne_cases)
  case delete
  obtain prev where rm: "mst_remove lib (rec_path (woCollection x) (woRKey x)) tree = Inr (Some prev, tree')"
    and f: "wrPrevCID res = Some prev" "clk' = clk" "blocks d' = blocks d" "answers x res"
      "wrRKey res = woRKey x" "wrCID res = None"
    using apply_delete_ok [OF delete(2,1)] by metis
  have "Some prev = entries tree (rec_path (woCollection x) (woRKey x))"
    "entries tree' = (entries tree)(rec_path (woCollection x) (woRKey x) := None)"
    "\<forall>L. stored tree L \<longrightarrow> stored tree' L"
    using laws rm unfolding repo_laws_def mst_laws_def by metis+
  then show ?thesis
    using f blocks by (simp add: tree_result_def answers_def block_look_def)
next
  case (put r)
  obtain c b blk d1 where p: "cid_sum lib b = Inr c" "new_block lib b c = Inr blk"
      "bs_Put blk d = (Inr (), d1)" "blocks d' = blocks d1"
      "mst_insert lib (rec_path (wrCollection res) (wrRKey res)) c tree = Inr (wrPrevCID res, tree')"
      "clk' = clk \<or> clk' = snd (clk_next lib clk)" "wrCID res = Some c"
    using apply_put_ok [OF put(2,1)] by metis
  have "wrPrevCID res = entries tree (rec_path (wrCollection res) (wrRKey res))"
    "entries tree' = (entries tree)(rec_path (wrCollection res) (wrRKey res) \<mapsto> c)"
    "\<forall>L. stored tree L \<longrightarrow> stored tree' L"
    using laws p(5) unfolding repo_laws_def mst_laws_def by metis+
  moreover have "good blk" using laws p(1,2) unfolding repo_laws_def block_laws_def by metis
  moreover have "now_of clk \<le> now_of clk'" using laws p(6) clk_le unfolding repo_laws_def by metis
  ultimately show ?thesis
    using p(4,7) bs_Put_mono [OF p(3)] bs_Put_blocks [OF p(3)] blocks
    by (auto simp: tree_result_def block_look_def)
qed

lemma applyAll_tree:
  assumes laws: "repo_laws lib entries stored good now_of"
    and "applyAll lib xs (tree, clk, coll) d = (Inr (rs, tree', clk', coll'), d')"
    and "\<forall>x \<in> set (blocks d). good x"
  shows "entries tree' = fold tree_result rs (entries tree) \<and> prevs_ok (entries tree) rs
    \<and> (\<forall>L. stored tree L \<longrightarrow> stored tree' L) \<and> (\<forall>x \<in> set (blocks d'). good x)
    \<and> block_look d \<subseteq>\<^sub>m block_look d' \<and> now_of clk \<le> now_of clk'"
  using assms(2,3)
proof (induction xs arbitrary: tree clk coll d rs)
  case Nil
  then show ?case by simp
next
  case (Cons x xs)
  then obtain res tree1 clk1 coll1 d1 rs1 where
    1: "applyOne lib x (tree, clk, coll) d = (Inr (res, tree1, clk1, coll1), d1)" and
    2: "applyAll lib xs (tree1, clk1, coll1) d1 = (Inr (rs1, tree', clk', coll'), d')" and 3: "rs = res # rs1"
    by (auto simp: gobind_Inr_iff)
  note one = applyOne_tree [OF laws 1 Cons.prems(2)]
  show ?case
    using one Cons.IH [OF 2] 3 map_le_trans [of "block_look d" "block_look d1" "block_look d'"]
    by auto
qed

lemma puts_good:
  assumes "goeach cb_put_op bs (d, coll) = (Inr (), (d', coll'))"
    "\<forall>x \<in> set (blocks d). good x" "\<forall>x \<in> set bs. good x"
    "\<And>c b b'. good (c, b) \<Longrightarrow> good (c, b') \<Longrightarrow> b = b'"
  shows "(\<forall>x \<in> set (blocks d'). good x) \<and> block_look d \<subseteq>\<^sub>m block_look d'
    \<and> (\<forall>(c, b) \<in> set bs. block_look d' c = Some b)"
proof -
  have good: "\<forall>x \<in> set (blocks d'). good x"
    using bs_PutMany_frame [OF assms(1)] assms(2,3) by blast
  then have "good (c, b)" if "block_look d' c = Some b" for c b
    using that by (auto simp: block_look_def dest: map_of_SomeD)
  then have "block_look d' c = Some b" if "(c, b) \<in> set bs" for c b
    using collecting.puts_found [OF assms(1), of good] assms(3,4) that by auto
  then show ?thesis using good collecting.puts_keep [OF assms(1)] by auto
qed

text \<open>What a commit leaves behind, whatever tree and clock it was given.\<close>

lemma write_commit_tree:
  assumes laws: "repo_laws lib entries stored good now_of"
    and run: "write_commit lib did key xs tree clk since prev d = (Inr a, d')"
    and blocks: "\<forall>x \<in> set (blocks d). good x"
  obtains tree' blks b where "mst_diff lib tree' = Inr (blks, coData (apCommit a))"
    "entries tree' = fold tree_result (apResults a) (entries tree)" "prevs_ok (entries tree) (apResults a)"
    "stored tree (block_look d) \<longrightarrow> stored tree' (block_look d)" "now_of clk < coRev (apCommit a)"
    "\<forall>x \<in> set (blocks d'). good x" "block_look d \<subseteq>\<^sub>m block_look d'" "\<forall>(c, x) \<in> set blks. block_look d' c = Some x"
    "repo_root d' = Some \<lparr>rrCommitCID = apCID a, rrRev = coRev (apCommit a)\<rparr>"
    "block_look d' (apCID a) = Some b" "unmarshal_commit lib b = Inr (apCommit a)"
proof -
  note bl = laws [unfolded repo_laws_def block_laws_def] and cl = laws [unfolded repo_laws_def commit_laws_def]
    and kl = laws [unfolded repo_laws_def clock_laws_def]
  obtain tree' clk' coll d1 blks root d2 b blk d3 tp where
    all: "applyAll lib xs (tree, clk, []) d = (Inr (apResults a, tree', clk', coll), d1)" and
    diff: "mst_diff lib tree' = Inr (blks, root)" and
    puts: "cb_PutMany blks coll d1 = (Inr (coll @ blks), d2)" and
    sign: "sign_commit lib key \<lparr>coDID = did, coVersion = ATPROTO_REPO_VERSION, coPrev = None, coData = root,
        coRev = fst (clk_next lib clk'), coSig = []\<rparr> = Inr (apCommit a)" and
    enc: "marshal_commit lib (apCommit a) = Inr b" "cid_sum lib b = Inr (apCID a)"
      "new_block lib b (apCID a) = Inr blk" and
    put: "bs_Put blk d2 = (Inr (), d3)" and
    d': "d' = d3\<lparr>tape := tp, repo_root := Some \<lparr>rrCommitCID = apCID a, rrRev = coRev (apCommit a)\<rparr>\<rparr>"
    using run by (elim write_commit_ok) blast
  have co: "coData (apCommit a) = root" "coRev (apCommit a) = fst (clk_next lib clk')"
    using cl sign by fastforce+
  have tree: "entries tree' = fold tree_result (apResults a) (entries tree)" "prevs_ok (entries tree) (apResults a)"
    "stored tree (block_look d) \<longrightarrow> stored tree' (block_look d)" "\<forall>x \<in> set (blocks d1). good x"
    "block_look d \<subseteq>\<^sub>m block_look d1" "now_of clk \<le> now_of clk'"
    using applyAll_tree [OF laws all blocks] by auto
  have uniq: "\<And>c b b'. good (c, b) \<Longrightarrow> good (c, b') \<Longrightarrow> b = b'" using bl by blast
  have gb: "\<forall>x \<in> set blks. good x" using bl diff by blast
  have p2: "\<forall>x \<in> set (blocks d2). good x" "block_look d1 \<subseteq>\<^sub>m block_look d2"
    "\<forall>(c, b) \<in> set blks. block_look d2 c = Some b"
    using puts puts_good [OF _ tree(4) gb uniq] by (auto simp: cb_PutMany_ok)
  have blk: "blk = (apCID a, b)" "good blk" using bl enc(2,3) by blast+
  have p3: "\<forall>x \<in> set (blocks d3). good x" "block_look d2 \<subseteq>\<^sub>m block_look d3" "block_look d3 (apCID a) = Some b"
  proof -
    have "cb_put_op blk (d2, []) = (Inr (), (d3, [blk]))" using put by (simp add: cb_put_op_ok)
    then have "goeach cb_put_op [blk] (d2, []) = (Inr (), (d3, [blk]))" by simp
    note puts_good [OF this p2(1) _ uniq]
    then show "\<forall>x \<in> set (blocks d3). good x" "block_look d2 \<subseteq>\<^sub>m block_look d3"
      "block_look d3 (apCID a) = Some b"
      using blk by auto
  qed
  have look: "block_look d' = block_look d3" "blocks d' = blocks d3" by (simp_all add: d' block_look_def)
  have "block_look d \<subseteq>\<^sub>m block_look d3"
    using tree(5) p2(2) p3(2) map_le_trans by blast
  moreover have "\<forall>(c, b) \<in> set blks. block_look d3 c = Some b"
    using p2(3) p3(2) by (fastforce simp: map_le_def dom_def)
  moreover have "unmarshal_commit lib b = Inr (apCommit a)" using cl enc(1) by blast
  moreover have "now_of clk < coRev (apCommit a)"
    using kl tree(6) co(2) by (cases "clk_next lib clk'") (auto intro: le_less_trans)
  ultimately show thesis
    using diff tree(1-3) p3(1,3) look co(1) by (intro that [of tree' blks b]) (simp_all add: d')
qed

lemma write_commit_chain:
  assumes laws: "repo_laws lib entries stored good now_of"
    and run: "write_commit lib did key xs tree clk since prev d = (Inr a, d')"
    and blocks: "\<forall>x \<in> set (blocks d). good x" and st: "stored tree (block_look d)"
  shows "(\<forall>x \<in> set (blocks d'). good x) \<and> prevs_ok (entries tree) (apResults a)
    \<and> now_of clk < coRev (apCommit a)
    \<and> (\<exists>t. current lib d' = Some (coRev (apCommit a), t)
         \<and> entries t = fold tree_result (apResults a) (entries tree))"
proof -
  note ml = laws [unfolded repo_laws_def mst_laws_def]
  obtain tree' blks b where w: "mst_diff lib tree' = Inr (blks, coData (apCommit a))"
    "entries tree' = fold tree_result (apResults a) (entries tree)" "prevs_ok (entries tree) (apResults a)"
    "stored tree (block_look d) \<longrightarrow> stored tree' (block_look d)" "now_of clk < coRev (apCommit a)"
    "\<forall>x \<in> set (blocks d'). good x" "block_look d \<subseteq>\<^sub>m block_look d'" "\<forall>(c, x) \<in> set blks. block_look d' c = Some x"
    "repo_root d' = Some \<lparr>rrCommitCID = apCID a, rrRev = coRev (apCommit a)\<rparr>"
    "block_look d' (apCID a) = Some b" "unmarshal_commit lib b = Inr (apCommit a)"
    using write_commit_tree [OF laws run blocks] .
  obtain t where t: "mst_load lib (block_look d') (coData (apCommit a)) = Inr t" "entries t = entries tree'"
    using ml w(1) mp [OF w(4) st] w(7,8) by metis
  then have "current lib d' = Some (coRev (apCommit a), t)" using w(9-11) by (simp add: current_def)
  then show ?thesis using w t(2) by simp
qed

lemma apply_locked_chain:
  assumes laws: "repo_laws lib entries stored good now_of"
    and run: "apply_locked lib ts did key xs d = (Inr a, d')" and ok: "chain_ok lib good d"
  obtains rv t t' where "current lib d = Some (rv, t)" "current lib d' = Some (coRev (apCommit a), t')"
    "entries t' = fold tree_result (apResults a) (entries t)" "prevs_ok (entries t) (apResults a)"
    "rv < coRev (apCommit a)" "chain_ok lib good d'"
proof -
  note ml = laws [unfolded repo_laws_def mst_laws_def] and kl = laws [unfolded repo_laws_def clock_laws_def]
  obtain tree clk since prev tp where
    tx: "with_tx id (Wrapf ''committing repo write'') (write_commit lib did key xs tree clk since prev)
         (d\<lparr>tape := tp\<rparr>) = (Inr a, d')" and
    root: "case repo_root d of
         None \<Rightarrow> tree = mst_empty lib \<and> clk = clk_new lib ts \<and> since = None \<and> prev = None
       | Some root \<Rightarrow> \<exists>pc t' t''. loadTree lib (rrCommitCID root) (d\<lparr>tape := t'\<rparr>) = (Inr (tree, pc), d\<lparr>tape := t''\<rparr>)
           \<and> clk = clk_from lib ts (coRev pc) \<and> since = Some (coRev pc) \<and> prev = Some (coData pc)"
    using run by (cases rule: apply_locked_cases) auto
  obtain d2 t2 where wc: "write_commit lib did key xs tree clk since prev (d\<lparr>tape := tl tp\<rparr>) = (Inr a, d2)"
    and d': "d' = d2\<lparr>tape := t2\<rparr>"
    using tx by (elim with_tx_Inr) auto
  obtain rv where cur: "current lib d = Some (rv, tree)" "stored tree (block_look d)" "rv \<le> now_of clk"
  proof (cases "repo_root d")
    case None
    then show ?thesis using that [of "''''"] root ml by (simp add: current_def)
  next
    case (Some r)
    then obtain pc t' t'' where l: "loadTree lib (rrCommitCID r) (d\<lparr>tape := t'\<rparr>) = (Inr (tree, pc), d\<lparr>tape := t''\<rparr>)"
      and clk: "clk = clk_from lib ts (coRev pc)"
      using root by auto
    obtain b where b: "block_look d (rrCommitCID r) = Some b" "unmarshal_commit lib b = Inr pc"
        "mst_load lib (block_look d) (coData pc) = Inr tree"
      using l by (auto simp: loadTree_def gobind_Inr_iff bs_Get_def query_row_def stmt_def Let_def block_look_def
          split: prod.splits sum.splits option.splits if_splits)
    have "coRev pc = rrRev r" using ok Some b by (auto simp: chain_ok_def current_def split: if_splits)
    moreover have "stored tree (block_look d)" using ml b(3) by blast
    moreover have "now_of clk = coRev pc" using kl clk by simp
    ultimately show ?thesis using that [of "coRev pc"] Some b by (simp add: current_def)
  qed
  have eqs: "current lib d' = current lib d2" "blocks d' = blocks d2"
    "block_look (d\<lparr>tape := tl tp\<rparr>) = block_look d"
    by (simp_all add: d')
  have "\<forall>x \<in> set (blocks (d\<lparr>tape := tl tp\<rparr>)). good x" using ok by (simp add: chain_ok_def)
  note chain = write_commit_chain [OF laws wc this] 
  then obtain t where "current lib d2 = Some (coRev (apCommit a), t)"
    "entries t = fold tree_result (apResults a) (entries tree)" "prevs_ok (entries tree) (apResults a)"
    "now_of clk < coRev (apCommit a)" "\<forall>x \<in> set (blocks d2). good x"
    using cur(2) eqs(3) by auto
  then show ?thesis using that [of rv tree t] cur eqs by (auto simp: chain_ok_def)
qed

section \<open>Index and tree stay in step\<close>

lemma fold_sync:
  assumes "\<forall>res \<in> set rs. CHR ''/'' \<notin> set (wrCollection res)"
    and "\<And>coll k. CHR ''/'' \<notin> set coll \<Longrightarrow> m (coll, k) = e (rec_path coll k)"
    and "CHR ''/'' \<notin> set coll"
  shows "fold apply_result rs m (coll, k) = fold tree_result rs e (rec_path coll k)"
  using assms(1,2)
proof (induction rs arbitrary: m e)
  case Nil
  then show ?case using assms(3) by simp
next
  case (Cons res rs)
  have "CHR ''/'' \<notin> set (wrCollection res)" using Cons.prems(1) by simp
  then have "apply_result res m (c, k') = tree_result res e (rec_path c k')" if "CHR ''/'' \<notin> set c" for c k'
    using that Cons.prems(2) rec_path_inj by (auto simp: apply_result_def tree_result_def res_key_def)
  then show ?case using Cons.IH [of "apply_result res m" "tree_result res e"] Cons.prems(1) by simp
qed

text \<open>A batch for the repository of one DID, with the key that signs it and the readings of the wall clock that the
  TID clock makes while it is applied.\<close>

record batch =
  baKey :: string
  baOps :: "write_op list"
  baTimes :: "nat \<Rightarrow> int"

definition plain_batch :: "batch \<Rightarrow> bool" where
  "plain_batch b \<longleftrightarrow> list_all (\<lambda>x. CHR ''/'' \<notin> set (woCollection x)) (baOps b)"

definition batch_step :: "('t, 'k) repo_lib \<Rightarrow> string \<Rightarrow> batch \<Rightarrow> (actordb, string) op" where
  "batch_step lib did b = gobind (apply_locked lib (baTimes b) did (baKey b) (baOps b)) (\<lambda>a. goret (coRev (apCommit a)))"

lemma batch_step_Inr:
  "batch_step lib did b d = (Inr rv, d') \<longleftrightarrow>
     (\<exists>a. apply_locked lib (baTimes b) did (baKey b) (baOps b) d = (Inr a, d') \<and> rv = coRev (apCommit a))"
  by (auto simp: batch_step_def gobind_Inr_iff)

lemma batch_step_Inl:
  assumes "batch_step lib did b d = (Inl e, d')"
  shows "\<exists>t. d' = d\<lparr>tape := t\<rparr>"
proof -
  have "apply_locked lib (baTimes b) did (baKey b) (baOps b) d = (Inl e, d')"
    using assms by (auto simp: batch_step_def gobind_Inl_iff)
  then show ?thesis
    by (rule apply_locked_err)
qed

definition revision :: "('t, 'k) repo_lib \<Rightarrow> actordb \<Rightarrow> string" where
  "revision lib d = (case current lib d of None \<Rightarrow> '''' | Some (rv, t) \<Rightarrow> rv)"

lemma chain_ok_step:
  assumes "repo_laws lib entries stored good now_of"
  shows "preserves (chain_ok lib good) (batch_step lib did b)"
proof (rule preservesI)
  fix d r d' assume ok: "chain_ok lib good d" and run: "batch_step lib did b d = (r, d')"
  show "chain_ok lib good d'"
  proof (cases r)
    case (Inl e)
    then obtain t where "d' = d\<lparr>tape := t\<rparr>" using run batch_step_Inl by blast
    then show ?thesis using ok by (simp add: chain_ok_def)
  next
    case (Inr rv)
    then obtain a where "apply_locked lib (baTimes b) did (baKey b) (baOps b) d = (Inr a, d')"
      using run by (auto simp: batch_step_Inr)
    from apply_locked_chain [OF assms this ok] show ?thesis by metis
  qed
qed

text \<open>The position of a repository is its revision; the laws are part of the invariant, because they
  are what the code assumes of the library.\<close>

interpretation revisions: advancing
  "\<lambda>d. chain_ok lib good d \<and> repo_laws lib entries stored good now_of" "revision lib" "batch_step lib did"
  for lib :: "('t, 'k) repo_lib" and entries stored good now_of did
proof unfold_locales
  fix e
  show "preserves (\<lambda>d. chain_ok lib good d \<and> repo_laws lib entries stored good now_of) (batch_step lib did e)"
    using chain_ok_step [of lib entries stored good now_of did e] by (auto simp: preserves_def)
next
  fix d e n d'
  assume i: "chain_ok lib good d \<and> repo_laws lib entries stored good now_of"
    and run: "batch_step lib did e d = (Inr n, d')"
  from run obtain a where a: "apply_locked lib (baTimes e) did (baKey e) (baOps e) d = (Inr a, d')" "n = coRev (apCommit a)"
    by (auto simp: batch_step_Inr)
  from i apply_locked_chain [OF _ a(1)] obtain rv t t' where
    "current lib d = Some (rv, t)" "current lib d' = Some (coRev (apCommit a), t')" "rv < coRev (apCommit a)"
    by metis
  then show "revision lib d < n \<and> revision lib d' = n" using a(2) by (simp add: revision_def)
next
  fix d e x d' assume "batch_step lib did e d = (Inl x, d')"
  then obtain t where "d' = d\<lparr>tape := t\<rparr>" using batch_step_Inl by blast
  then show "revision lib d' = revision lib d" by (simp add: revision_def)
qed

lemma chain_ok_empty: "chain_ok lib good (empty_actordb faults)"
  by (simp add: chain_ok_def current_def empty_actordb_def)

text \<open>The revisions of a repository strictly increase over every history of write batches, failed
  ones in between or not.\<close>

theorem revisions_increase:
  assumes "repo_laws lib entries stored good now_of"
  shows "sorted_wrt (<) (runs (batch_step lib did) batches (empty_actordb faults))"
  using revisions.runs_increase [of lib good "empty_actordb faults" entries stored now_of did batches]
    assms chain_ok_empty by blast

lemma in_sync_step:
  assumes laws: "repo_laws lib entries stored good now_of" and plain: "plain_batch b"
    and ok: "chain_ok lib good d" and sync: "in_sync lib entries d"
  shows "in_sync lib entries (snd (batch_step lib did b d))"
proof (cases "batch_step lib did b d")
  case (Pair r d')
  show ?thesis
  proof (cases r)
    case (Inl e)
    then obtain t where "d' = d\<lparr>tape := t\<rparr>" using Pair batch_step_Inl by blast
    then show ?thesis using Pair sync by (simp add: in_sync_def index_def)
  next
    case (Inr rv)
    then obtain a where a: "apply_locked lib (baTimes b) did (baKey b) (baOps b) d = (Inr a, d')"
      using Pair by (auto simp: batch_step_Inr)
    obtain rv t t' where c: "current lib d = Some (rv, t)" "current lib d' = Some (coRev (apCommit a), t')"
      "entries t' = fold tree_result (apResults a) (entries t)"
      using apply_locked_chain [OF laws a ok] by metis
    have ix: "list_all2 answers (baOps b) (apResults a)" "index d' = fold apply_result (apResults a) (index d)"
      using apply_locked_ok [OF a] by auto
    have "\<forall>res \<in> set (apResults a). CHR ''/'' \<notin> set (wrCollection res)"
      using plain ix(1) by (fastforce simp: plain_batch_def list_all_iff list_all2_conv_all_nth answers_def
          in_set_conv_nth)
    moreover have "index d (coll, k) = entries t (rec_path coll k)" if "CHR ''/'' \<notin> set coll" for coll k
      using that sync c(1) by (auto simp: in_sync_def)
    ultimately have "index d' (coll, k) = entries t' (rec_path coll k)" if "CHR ''/'' \<notin> set coll" for coll k
      using that by (simp add: ix(2) c(3) fold_sync)
    then show ?thesis using Pair c(2) by (auto simp: in_sync_def)
  qed
qed

text \<open>C7. The record index never drifts from the signed tree: after every history of batches whose
  collection names contain no slash (an NSID has none, but only \<^verbatim>\<open>createRecord\<close> and \<^verbatim>\<open>putRecord\<close> check
  that it is one), whatever failed in between, the index holds
  for every collection and key exactly the CID that the tree under the current commit holds at that
  path.\<close>

theorem index_matches_tree:
  assumes "repo_laws lib entries stored good now_of" "list_all plain_batch batches"
  shows "in_sync lib entries (run_end (batch_step lib did) batches (empty_actordb faults))"
proof -
  have "chain_ok lib good d \<Longrightarrow> in_sync lib entries d \<Longrightarrow> list_all plain_batch bs \<Longrightarrow>
      in_sync lib entries (run_end (batch_step lib did) bs d)" for bs d
    by (induction bs arbitrary: d)
       (simp_all add: in_sync_step [OF assms(1)] preservesD [OF chain_ok_step [OF assms(1)]])
  moreover have "in_sync lib entries (empty_actordb faults)"
    using assms(1) by (simp add: in_sync_def current_def index_def empty_actordb_def repo_laws_def mst_laws_def)
  ultimately show ?thesis using assms(2) chain_ok_empty by blast
qed

text \<open>The results tell the truth about what they replaced: the previous CID of each result is the
  CID its path held in the tree just before that write, so the operations of a \<^verbatim>\<open>#commit\<close> event can
  be replayed or inverted.\<close>

theorem previous_cids_are_true:
  assumes "repo_laws lib entries stored good now_of" "chain_ok lib good d"
    and "apply_locked lib ts did key xs d = (Inr a, d')"
  shows "\<exists>rv t. current lib d = Some (rv, t) \<and> prevs_ok (entries t) (apResults a)"
  using apply_locked_chain [OF assms(1,3,2)] by metis

section \<open>A library that meets the laws\<close>

text \<open>
  A CID is the text of the bytes it names, a tree is an association list, and encoded lists of
  strings are terminated, with an escape before the two characters this uses.
\<close>

lemma bytes_of_string_of [simp]: "bytes_of (string_of b) = b"
proof -
  have "of_char (char_of (unat w)) = w" for w :: "8 word"
  proof -
    have "(of_char (char_of (unat w)) :: 8 word) = of_nat (of_char (char_of (unat w) :: char))"
      by (simp only: of_nat_of_char)
    also have "\<dots> = of_nat (unat w mod 256)" by (simp add: of_char_of)
    also have "\<dots> = w" using unsigned_less [of w, where 'a = nat] by simp
    finally show ?thesis .
  qed
  then show ?thesis by (simp add: bytes_of_def string_of_def comp_def)
qed

definition enc_str :: "string \<Rightarrow> string" where
  "enc_str s = concat (map (\<lambda>c. if c = CHR ''0'' \<or> c = CHR ''1'' then [CHR ''1'', c] else [c]) s) @ ''0''"

definition enc_list :: "string list \<Rightarrow> string" where
  "enc_list ss = concat (map enc_str ss)"

fun dec_list :: "string \<Rightarrow> string \<Rightarrow> string list" where
  "dec_list acc (a # r) = (if a = CHR ''0'' then acc # dec_list [] r
     else if a = CHR ''1'' then (case r of [] \<Rightarrow> [] | c # r' \<Rightarrow> dec_list (acc @ [c]) r')
     else dec_list (acc @ [a]) r)"
| "dec_list acc [] = []"

lemma dec_enc_list [simp]: "dec_list [] (enc_list ss) = ss"
proof -
  have str: "dec_list acc (enc_str s @ r) = (acc @ s) # dec_list [] r" for acc s r
    by (induction s arbitrary: acc) (simp_all add: enc_str_def)
  show ?thesis by (induction ss) (simp_all add: enc_list_def str)
qed

fun unpair :: "string list \<Rightarrow> (string \<times> string) list" where
  "unpair (a # b # r) = (a, b) # unpair r"
| "unpair _ = []"

definition enc_tree :: "(string \<times> cid) list \<Rightarrow> string" where
  "enc_tree t = enc_list (concat (map (\<lambda>(k, c). [k, c]) t))"

definition dec_tree :: "string \<Rightarrow> (string \<times> cid) list" where
  "dec_tree s = unpair (dec_list [] s)"

lemma dec_enc_tree [simp]: "dec_tree (enc_tree t) = t"
proof -
  have "unpair (concat (map (\<lambda>(k, c). [k, c]) t)) = t" by (induction t) auto
  then show ?thesis by (simp add: dec_tree_def enc_tree_def)
qed

definition demo_marshal :: "commit \<Rightarrow> go_error + bytes" where
  "demo_marshal c = (if coVersion c = 3 \<and> coPrev c = None \<and> coSig c = []
     then Inr (bytes_of (enc_list [coDID c, coData c, coRev c])) else Inl (ErrMsg ''unsupported''))"

definition demo_unmarshal :: "bytes \<Rightarrow> go_error + commit" where
  "demo_unmarshal b = (case dec_list [] (string_of b) of
     [did, root, rv] \<Rightarrow> Inr \<lparr>coDID = did, coVersion = 3, coPrev = None, coData = root, coRev = rv, coSig = []\<rparr>
   | _ \<Rightarrow> Inl (ErrMsg ''unsupported''))"

definition demo_lib :: "((string \<times> cid) list, string) repo_lib" where
  "demo_lib = \<lparr>mst_empty = [],
     mst_load = (\<lambda>L c. case L c of None \<Rightarrow> Inl ActorErrNotFound | Some b \<Rightarrow> Inr (dec_tree (string_of b))),
     mst_insert = (\<lambda>k c t. Inr (map_of t k, (k, c) # filter (\<lambda>e. fst e \<noteq> k) t)),
     mst_remove = (\<lambda>k t. Inr (map_of t k, filter (\<lambda>e. fst e \<noteq> k) t)),
     mst_diff = (\<lambda>t. Inr ([(enc_tree t, bytes_of (enc_tree t))], enc_tree t)),
     mst_entries = (\<lambda>t. t), clk_new = (\<lambda>ts. ''''), clk_from = (\<lambda>ts s. s), clk_next = (\<lambda>s. (s @ ''1'', s @ ''1'')),
     lex_catalog = Inr (), lex_resolve = (\<lambda>_. False), lex_validate = (\<lambda>_ _. Inr ()),
     marshal_data = (\<lambda>r. Inr (bytes_of (enc_list (map fst r)))),
     unmarshal_data = (\<lambda>b. Inr (map (\<lambda>k. (k, DNull)) (dec_list [] (string_of b)))),
     extract_blobs = (\<lambda>r. [(c, m, s). (k, DBlob c m s) \<leftarrow> r]),
     cid_sum = (\<lambda>b. Inr (string_of b)), raw_sum = (\<lambda>b. Inr (string_of b)),
     new_block = (\<lambda>b c. Inr (c, b)), sign_commit = (\<lambda>key c. Inr c),
     marshal_commit = demo_marshal, unmarshal_commit = demo_unmarshal\<rparr>"

definition demo_stored :: "(string \<times> cid) list \<Rightarrow> (cid \<Rightarrow> bytes option) \<Rightarrow> bool" where
  "demo_stored t L = True"

definition demo_good :: "block \<Rightarrow> bool" where
  "demo_good x \<longleftrightarrow> fst x = string_of (snd x)"

lemma map_of_filter_ne: "map_of (filter (\<lambda>e. fst e \<noteq> k) t) = (map_of t)(k := None)"
  by (induction t) (auto simp: fun_eq_iff)

lemma demo_laws: "repo_laws demo_lib map_of demo_stored demo_good (\<lambda>s. s)"
proof -
  have "mst_laws demo_lib map_of demo_stored"
    by (auto simp: mst_laws_def demo_lib_def demo_stored_def map_of_filter_ne fun_eq_iff)
  moreover have "block_laws demo_lib demo_good"
    by (auto simp: block_laws_def demo_lib_def demo_good_def dest: arg_cong [where f = bytes_of])
  moreover have "commit_laws demo_lib"
  proof -
    have "\<exists>s. c = c\<lparr>coSig := s\<rparr>" for c :: commit by (rule exI [of _ "coSig c"]) simp
    then show ?thesis
      by (auto simp: commit_laws_def demo_lib_def demo_marshal_def demo_unmarshal_def split: if_splits)
  qed
  moreover have "clock_laws demo_lib (\<lambda>s. s)"
  proof -
    have "s < s @ ''1''" for s :: string using append_less_cancel [of s "[]" "''1''"] by simp
    then show ?thesis by (simp add: clock_laws_def demo_lib_def)
  qed
  ultimately show ?thesis by (simp add: repo_laws_def)
qed

definition demo_times :: "nat \<Rightarrow> int" where
  "demo_times i = 5000000000"

definition demo_batches :: "batch list" where
  "demo_batches =
    [\<lparr>baKey = ''key'', baOps = [\<lparr>woAction = ''create'', woCollection = ''p'', woRKey = ''a'', woRecord = Some [(''t'', DNull)]\<rparr>], baTimes = demo_times\<rparr>,
     \<lparr>baKey = ''key'', baOps = [\<lparr>woAction = ''delete'', woCollection = ''p'', woRKey = ''zz'', woRecord = None\<rparr>], baTimes = demo_times\<rparr>,
     \<lparr>baKey = ''key'', baOps = [\<lparr>woAction = ''update'', woCollection = ''p'', woRKey = ''a'', woRecord = Some [(''u'', DNull)]\<rparr>], baTimes = demo_times\<rparr>]"

lemma demo_runs: "runs (batch_step demo_lib ''did'') demo_batches (empty_actordb []) = [''1'', ''11'']"
  by code_simp

theorem revisions_increase_witness:
  "runs (batch_step demo_lib ''did'') demo_batches (empty_actordb []) = [''1'', ''11''] \<and> ''1'' < ''11''"
  using revisions_increase [OF demo_laws, of "''did''" demo_batches "[]"] by (simp add: demo_runs)

lemma demo_index: "index (run_end (batch_step demo_lib ''did'') demo_batches (empty_actordb [])) (''p'', ''a'') \<noteq> None"
  by code_simp

theorem index_matches_tree_witness:
  "\<exists>rv t. current demo_lib (run_end (batch_step demo_lib ''did'') demo_batches (empty_actordb [])) = Some (rv, t)
     \<and> map_of t ''p/a'' \<noteq> None"
proof -
  have "list_all plain_batch demo_batches" by (simp add: plain_batch_def demo_batches_def)
  from index_matches_tree [OF demo_laws this, of "''did''" "[]"] obtain rv t
    where "current demo_lib (run_end (batch_step demo_lib ''did'') demo_batches (empty_actordb [])) = Some (rv, t)"
      "index (run_end (batch_step demo_lib ''did'') demo_batches (empty_actordb [])) (''p'', ''a'') =
        map_of t (rec_path ''p'' ''a'')"
    by (auto simp: in_sync_def)
  then show ?thesis using demo_index by (auto simp: rec_path_def)
qed

text \<open>A repository with one record, and the second write to it.\<close>

definition demo_repo :: actordb where
  "demo_repo = run_end (batch_step demo_lib ''did'') (take 1 demo_batches) (empty_actordb [])"

lemma demo_update: "map_option (map wrPrevCID) (case apply_locked demo_lib (baTimes (demo_batches ! 2)) ''did'' ''key'' (baOps (demo_batches ! 2)) demo_repo of
    (Inr a, _) \<Rightarrow> Some (apResults a) | (Inl _, _) \<Rightarrow> None) =
  Some [Some (string_of (bytes_of (enc_list [''$type'', ''t''])))]"
  by code_simp

theorem previous_cids_are_true_witness:
  "\<exists>rv t. current demo_lib demo_repo = Some (rv, t) \<and> map_of t ''p/a'' \<noteq> None"
proof -
  obtain r d' where run: "apply_locked demo_lib (baTimes (demo_batches ! 2)) ''did'' ''key'' (baOps (demo_batches ! 2)) demo_repo = (r, d')" by fastforce
  then obtain a where r: "r = Inr a" and prev: "map wrPrevCID (apResults a) = [Some (string_of (bytes_of (enc_list [''$type'', ''t''])))]"
    using demo_update by (auto split: sum.splits)
  have "chain_ok demo_lib demo_good demo_repo"
    using chain_ok_empty [of demo_lib demo_good "[]"] preservesD [OF chain_ok_step [OF demo_laws]]
    by (simp add: demo_repo_def demo_batches_def)
  from previous_cids_are_true [OF demo_laws this run [unfolded r]] obtain rv t
    where t: "current demo_lib demo_repo = Some (rv, t)" "prevs_ok (map_of t) (apResults a)" by auto
  obtain res where res: "apResults a = [res]" "wrPrevCID res \<noteq> None" using prev by auto
  have "list_all2 answers (baOps (demo_batches ! 2)) (apResults a)" using apply_locked_ok [OF run [unfolded r]] by simp
  then have "rec_path (wrCollection res) (wrRKey res) = ''p/a''"
    by (simp add: res(1) demo_batches_def answers_def rec_path_def)
  then show ?thesis using t res by auto
qed

definition demo_wire :: wire_lib where
  "demo_wire = \<lparr>w_car = \<lparr>car_header = (\<lambda>roots. Inr [of_nat (length roots)]), ld_write = (\<lambda>c b. Inr b)\<rparr>,
     w_cbor = demo_cbor, w_fmt = demo_fmt\<rparr>"

definition demo_world :: world where
  "demo_world = \<lparr>wAcct = demo_db, wMgr = empty_manager [], wSeq = empty_seqdb [], wSent = []\<rparr>"

lemma demo_apply: "(case ApplyWrites demo_lib demo_wire demo_parse_did demo_times 5000000000 ''did:plc:a'' ''key'' (baOps (demo_batches ! 0)) demo_world of
     (Inr a, w) \<Rightarrow> True | (Inl _, _) \<Rightarrow> False)"
  by code_simp

theorem one_event_per_batch_witness:
  "\<exists>a w' payload. ApplyWrites demo_lib demo_wire demo_parse_did demo_times 5000000000 ''did:plc:a'' ''key''
       (baOps (demo_batches ! 0)) demo_world = (Inr a, w')
     \<and> events (wSeq w') = filter (retained demo_fmt 5000000000)
         [new_row demo_fmt 5000000000 ''did:plc:a'' 1 ''#commit'' payload]"
proof -
  obtain r w' where run: "ApplyWrites demo_lib demo_wire demo_parse_did demo_times 5000000000 ''did:plc:a'' ''key''
       (baOps (demo_batches ! 0)) demo_world = (r, w')" by fastforce
  then obtain a where r: "r = Inr a" using demo_apply by (auto split: sum.splits)
  have "seq_inv (wSeq demo_world)" by (simp add: demo_world_def seq_inv_def empty_seqdb_def)
  from one_event_per_batch [OF this, where lib = demo_lib and wl = demo_wire and parse_did = demo_parse_did and ts = demo_times
      and now = 5000000000 and did = "''did:plc:a''" and key = "''key''" and xs = "baOps (demo_batches ! 0)"]
  show ?thesis unfolding run r by (auto simp: demo_world_def empty_seqdb_def demo_wire_def)
qed

end
