(* ===== verification/Net.thy ===== *)
theory Net
  imports GoStd
begin

unbundle bit_operations_syntax

text \<open>
  What the code uses of Go's \<^verbatim>\<open>net\<close> and \<^verbatim>\<open>net/netip\<close>: splitting \<^verbatim>\<open>host:port\<close>, parsing addresses
  and prefixes, and the predicates on addresses. An IPv4 address is a 32 bit word, an IPv6
  address a 128 bit word with a zone (empty for none); \<open>NoAddr\<close> is the zero \<^verbatim>\<open>netip.Addr\<close>.
\<close>

datatype addr = NoAddr | V4 "32 word" | V6 "128 word" string

section \<open>Host and port\<close>

text \<open>\<^verbatim>\<open>net.SplitHostPort\<close>: around the last colon; a bracketed host may contain colons, no other may.\<close>

definition cut_last :: "char \<Rightarrow> string \<Rightarrow> (string \<times> string) option" where
  "cut_last c s = (case cut c (rev s) of (b, a, ok) \<Rightarrow> if ok then Some (rev a, rev b) else None)"

definition SplitHostPort :: "string \<Rightarrow> (string \<times> string) option" where
  "SplitHostPort hp = (case cut_last (CHR '':'') hp of
     None \<Rightarrow> None
   | Some (host, port) \<Rightarrow>
       if take 1 hp = ''['' then
         (let inner = fst (cut (CHR '']'') (drop 1 host)) in
          if host = ''['' @ inner @ '']'' \<and> CHR ''['' \<notin> set (inner @ port) \<and> CHR '']'' \<notin> set (inner @ port)
          then Some (inner, port) else None)
       else if CHR '':'' \<in> set host \<or> CHR ''['' \<in> set hp \<or> CHR '']'' \<in> set hp then None
       else Some (host, port))"

section \<open>Parsing addresses\<close>

definition dec_field :: "nat \<Rightarrow> string \<Rightarrow> nat option" where
  "dec_field limit s = (if s \<noteq> [] \<and> list_all is_digit s \<and> (take 1 s = ''0'' \<longrightarrow> s = ''0'') \<and> digits_value s \<le> limit
     then Some (digits_value s) else None)"

definition parseIPv4 :: "string \<Rightarrow> nat list option" where
  "parseIPv4 s = (case map (dec_field 255) (split_on (CHR ''.'') s) of
     [Some a, Some b, Some c, Some d] \<Rightarrow> Some [a, b, c, d]
   | _ \<Rightarrow> None)"

definition hex_value :: "char \<Rightarrow> int option" where
  "hex_value c = (let n = of_char c :: int in
     if 48 \<le> n \<and> n \<le> 57 then Some (n - 48)
     else if 97 \<le> n \<and> n \<le> 102 then Some (n - 87)
     else if 65 \<le> n \<and> n \<le> 70 then Some (n - 55) else None)"

definition hex_group :: "string \<Rightarrow> int" where
  "hex_group s = foldl (\<lambda>v c. 16 * v + the (hex_value c)) 0 s"

text \<open>
  The loop of \<^verbatim>\<open>parseIPv6\<close>: \<open>n\<close> groups of 16 bits are still free, \<open>gs\<close> are those read, \<open>ell\<close> is the
  position of the ellipsis. The result is the groups, the ellipsis and the unread rest.
\<close>

fun v6_groups :: "nat \<Rightarrow> string \<Rightarrow> int list \<Rightarrow> nat option \<Rightarrow> (int list \<times> nat option \<times> string) option" where
  "v6_groups 0 s gs ell = Some (gs, ell, s)"
| "v6_groups (Suc n) s gs ell =
     (let h = takeWhile (\<lambda>c. hex_value c \<noteq> None) s; t = dropWhile (\<lambda>c. hex_value c \<noteq> None) s;
          gs' = gs @ [hex_group h]
      in if h = [] \<or> 4 < length h then None
      else case t of
        [] \<Rightarrow> Some (gs', ell, [])
      | c # t' \<Rightarrow>
          if c = CHR ''.'' then
            (if ell = None \<and> n \<noteq> 1 \<or> n = 0 then None
             else case parseIPv4 s of
                Some [a, b, c, d] \<Rightarrow> Some (gs @ [256 * int a + int b, 256 * int c + int d], ell, [])
              | _ \<Rightarrow> None)
          else if c \<noteq> CHR '':'' \<or> t' = [] then None
          else if take 1 t' = '':'' then
            (if ell \<noteq> None then None
             else if drop 1 t' = [] then Some (gs', Some (length gs'), [])
             else v6_groups n (drop 1 t') gs' (Some (length gs')))
          else v6_groups n t' gs' ell)"

definition v6_word :: "int list \<Rightarrow> 128 word" where
  "v6_word gs = word_of_int (foldl (\<lambda>v g. 65536 * v + g) 0 gs)"

definition parseIPv6 :: "string \<Rightarrow> addr option" where
  "parseIPv6 s0 = (case cut (CHR ''%'') s0 of (s, zone, has_zone) \<Rightarrow>
     if has_zone \<and> zone = '''' then None
     else
       (let lead = take 2 s = ''::'' in
        if lead \<and> drop 2 s = '''' then Some (V6 0 zone)
        else (case v6_groups 8 (if lead then drop 2 s else s) [] (if lead then Some 0 else None) of
           Some (gs, ell, []) \<Rightarrow>
             (case ell of
                None \<Rightarrow> if length gs = 8 then Some (V6 (v6_word gs) zone) else None
              | Some e \<Rightarrow> if length gs < 8
                  then Some (V6 (v6_word (take e gs @ replicate (8 - length gs) 0 @ drop e gs)) zone) else None)
         | _ \<Rightarrow> None)))"

definition v4_word :: "nat list \<Rightarrow> 32 word" where
  "v4_word bs = word_of_int (foldl (\<lambda>v b. 256 * v + int b) 0 bs)"

text \<open>The first of \<^verbatim>\<open>. : %\<close> in the text decides which parser runs.\<close>

definition ParseAddr :: "string \<Rightarrow> addr option" where
  "ParseAddr s = (case filter (\<lambda>c. c \<in> set ''.:%'') s of
     [] \<Rightarrow> None
   | c # _ \<Rightarrow> if c = CHR ''.'' then map_option (V4 \<circ> v4_word) (parseIPv4 s)
       else if c = CHR '':'' then parseIPv6 s else None)"

section \<open>Addresses and prefixes\<close>

definition addr_is4in6 :: "addr \<Rightarrow> bool" where
  "addr_is4in6 a = (case a of V6 w z \<Rightarrow> drop_bit 32 w = 0xffff | _ \<Rightarrow> False)"

definition addr_unmap :: "addr \<Rightarrow> addr" where
  "addr_unmap a = (case a of
     V6 w z \<Rightarrow> if drop_bit 32 w = 0xffff then V4 (ucast w) else a
   | _ \<Rightarrow> a)"

definition addr_is6 :: "addr \<Rightarrow> bool" where
  "addr_is6 a = (case a of V6 w z \<Rightarrow> True | _ \<Rightarrow> False)"

definition IsLoopback :: "addr \<Rightarrow> bool" where
  "IsLoopback a = (case addr_unmap a of NoAddr \<Rightarrow> False | V4 w \<Rightarrow> drop_bit 24 w = 127 | V6 w z \<Rightarrow> w = 1)"

definition IsMulticast :: "addr \<Rightarrow> bool" where
  "IsMulticast a = (case addr_unmap a of NoAddr \<Rightarrow> False | V4 w \<Rightarrow> drop_bit 28 w = 0xe | V6 w z \<Rightarrow> drop_bit 120 w = 0xff)"

definition IsLinkLocalUnicast :: "addr \<Rightarrow> bool" where
  "IsLinkLocalUnicast a = (case addr_unmap a of
     NoAddr \<Rightarrow> False | V4 w \<Rightarrow> drop_bit 16 w = 0xa9fe | V6 w z \<Rightarrow> drop_bit 118 w = 0x3fa)"

definition IsGlobalUnicast :: "addr \<Rightarrow> bool" where
  "IsGlobalUnicast a \<longleftrightarrow> a \<noteq> NoAddr \<and> a \<noteq> V4 0 \<and> a \<noteq> V4 0xffffffff \<and> a \<noteq> V6 0 ''''
     \<and> \<not> IsLoopback a \<and> \<not> IsMulticast a \<and> \<not> IsLinkLocalUnicast a"

record prefix =
  pxAddr :: addr
  pxBits :: nat

text \<open>\<^verbatim>\<open>netip.ParsePrefix\<close>: an address without a zone, a slash, and a length without leading zero.\<close>

definition ParsePrefix :: "string \<Rightarrow> prefix option" where
  "ParsePrefix s = (case cut_last (CHR ''/'') s of
     None \<Rightarrow> None
   | Some (a, b) \<Rightarrow> (case (ParseAddr a, dec_field 128 b) of
        (Some (V4 w), Some n) \<Rightarrow> if n \<le> 32 then Some \<lparr>pxAddr = V4 w, pxBits = n\<rparr> else None
      | (Some (V6 w z), Some n) \<Rightarrow> if z = '''' then Some \<lparr>pxAddr = V6 w z, pxBits = n\<rparr> else None
      | _ \<Rightarrow> None))"

definition prefix_contains :: "prefix \<Rightarrow> addr \<Rightarrow> bool" where
  "prefix_contains p a = (case (pxAddr p, a) of
     (V4 v, V4 w) \<Rightarrow> drop_bit (32 - pxBits p) (w XOR v) = 0
   | (V6 v zv, V6 w zw) \<Rightarrow> zw = '''' \<and> drop_bit (128 - pxBits p) (w XOR v) = 0
   | _ \<Rightarrow> False)"

text \<open>\<^verbatim>\<open>netip.PrefixFrom(a, 64).Masked().Addr()\<close> of an IPv6 address.\<close>

definition masked64 :: "addr \<Rightarrow> addr" where
  "masked64 a = (case a of V6 w z \<Rightarrow> V6 (push_bit 64 (drop_bit 64 w)) '''' | _ \<Rightarrow> a)"

text \<open>\<^verbatim>\<open>netip.AddrFromSlice\<close>.\<close>

definition AddrFromSlice :: "bytes \<Rightarrow> addr option" where
  "AddrFromSlice bs = (if length bs = 4 then Some (V4 (word_of_int (foldl (\<lambda>v b. 256 * v + uint b) 0 bs)))
     else if length bs = 16 then Some (V6 (word_of_int (foldl (\<lambda>v b. 256 * v + uint b) 0 bs)) '''')
     else None)"

section \<open>Prefixes are intervals\<close>

lemma drop_xor_zero: "drop_bit n (v XOR w) = 0 \<longleftrightarrow> drop_bit n v = drop_bit n w"
  for v w :: "'a::len word"
  unfolding drop_bit_xor by (auto simp: bit_eq_iff bit_simps)

lemma prefix_interval:
  fixes v w :: "'a::len word"
  shows "drop_bit n (w XOR v) = 0 \<longleftrightarrow> unat w div 2 ^ n = unat v div 2 ^ n"
  unfolding drop_xor_zero
  by (metis unat_drop_bit_eq word_unat_eq_iff drop_bit_eq_div)

lemma div_interval: "0 < (k::nat) \<Longrightarrow> x div k = q \<longleftrightarrow> q * k \<le> x \<and> x < (q + 1) * k"
  by (metis div_nat_eqI less_eq_div_iff_mult_less_eq div_less_iff_less_mult le_eq_less_or_eq less_add_one
      mult.commute not_le Suc_eq_plus1 less_Suc_eq)

lemma addr_unmap_idem [simp]: "addr_unmap (addr_unmap a) = addr_unmap a"
  by (cases a) (simp_all add: addr_unmap_def)

end
