(* ===== verification/Http.thy ===== *)
theory Http
  imports Firehose
begin

text \<open>
  Requests, responses and handlers: \<^verbatim>\<open>internal/xrpc/json.go\<close> and the middleware of
  \<^verbatim>\<open>internal/xrpc/server.go\<close>.

  A handler is a function from the server's state to a response and the new state. Its body is
  written with \<open>hbind\<close>: a step either goes on with a value (\<open>Inr\<close>) or has written its response
  and returns (\<open>Inl\<close>), as the Go handlers do after every \<^verbatim>\<open>writeXRPCError\<close>. A JSON document is a
  value of \<open>data\<close>; the fields of an object are a list, in which the order does not matter.
\<close>

section \<open>Requests and responses\<close>

record request =
  rqMethod :: string
  rqPath :: string
  rqRawQuery :: string
  rqQuery :: "(string \<times> string) list"
  rqHeaders :: "(string \<times> string) list"
  rqBody :: bytes
  rqHost :: string
  rqRemoteAddr :: string

datatype body = NoBody | Json data | Text string | Binary bytes

text \<open>The headers a handler sets (\<^verbatim>\<open>Set\<close>) and those it adds to what is there (\<^verbatim>\<open>Add\<close>).\<close>

record response =
  rsStatus :: nat
  rsHeaders :: "(string \<times> string) list"
  rsAdded :: "(string \<times> string) list"
  rsBody :: body

text \<open>\<^verbatim>\<open>url.Values.Get\<close> and \<^verbatim>\<open>http.Header.Get\<close>: the first value, or the empty string.\<close>

definition first_value :: "(string \<times> string) list \<Rightarrow> string \<Rightarrow> string" where
  "first_value kvs k = (case map_of kvs k of None \<Rightarrow> '''' | Some v \<Rightarrow> v)"

definition query_get :: "request \<Rightarrow> string \<Rightarrow> string" where
  "query_get rq = first_value (rqQuery rq)"

definition header_get :: "request \<Rightarrow> string \<Rightarrow> string" where
  "header_get rq = first_value (rqHeaders rq)"

text \<open>\<^verbatim>\<open>http.Header.Set\<close> and \<^verbatim>\<open>Add\<close>.\<close>

definition header_set :: "string \<Rightarrow> string \<Rightarrow> (string \<times> string) list \<Rightarrow> (string \<times> string) list" where
  "header_set k v hs = filter (\<lambda>h. fst h \<noteq> k) hs @ [(k, v)]"

definition header_add :: "string \<Rightarrow> string \<Rightarrow> (string \<times> string) list \<Rightarrow> (string \<times> string) list" where
  "header_add k v hs = hs @ [(k, v)]"

definition writeJSON :: "nat \<Rightarrow> data \<Rightarrow> response" where
  "writeJSON status v = \<lparr>rsStatus = status, rsHeaders = [(''Content-Type'', ''application/json'')],
     rsAdded = [], rsBody = Json v\<rparr>"

definition writeXRPCError :: "nat \<Rightarrow> string \<Rightarrow> string \<Rightarrow> response" where
  "writeXRPCError status name message = writeJSON status (DMap [(''error'', DStr name), (''message'', DStr message)])"

definition empty_object :: response where
  "empty_object = writeJSON 200 (DMap [])"

definition xrpc_error_name :: "response \<Rightarrow> string option" where
  "xrpc_error_name r = (case rsBody r of
     Json (DMap kvs) \<Rightarrow> (case map_of kvs ''error'' of Some (DStr s) \<Rightarrow> Some s | _ \<Rightarrow> None)
   | _ \<Rightarrow> None)"

lemma writeXRPCError_simps [simp]:
  "rsStatus (writeXRPCError st n m) = st" "rsStatus (writeJSON st v) = st"
  "xrpc_error_name (writeXRPCError st n m) = Some n"
  by (simp_all add: writeXRPCError_def writeJSON_def xrpc_error_name_def)

abbreviation InvalidRequest :: "string \<Rightarrow> response" where
  "InvalidRequest m \<equiv> writeXRPCError 400 ''InvalidRequest'' m"

abbreviation InternalServerError :: "string \<Rightarrow> response" where
  "InternalServerError m \<equiv> writeXRPCError 500 ''InternalServerError'' m"

section \<open>Handlers\<close>

type_synonym ('s, 'a) hd_step = "'s \<Rightarrow> (response + 'a) \<times> 's"

definition hret :: "'a \<Rightarrow> ('s, 'a) hd_step" where
  "hret x s = (Inr x, s)"

definition hstop :: "response \<Rightarrow> ('s, 'a) hd_step" where
  "hstop r s = (Inl r, s)"

definition hbind :: "('s, 'a) hd_step \<Rightarrow> ('a \<Rightarrow> ('s, 'b) hd_step) \<Rightarrow> ('s, 'b) hd_step" where
  "hbind m k s = (case m s of (Inl r, s') \<Rightarrow> (Inl r, s') | (Inr x, s') \<Rightarrow> k x s')"

text \<open>\<open>if err != nil \<^bold>{ write the error; return \<^bold>}\<close>, for an operation and for a pure function.\<close>

definition attempt :: "('s, 'a) op \<Rightarrow> (go_error \<Rightarrow> response) \<Rightarrow> ('s, 'a) hd_step" where
  "attempt m f s = (case m s of (Inl e, s') \<Rightarrow> (Inl (f e), s') | (Inr x, s') \<Rightarrow> (Inr x, s'))"

definition attempt_pure :: "go_error + 'a \<Rightarrow> (go_error \<Rightarrow> response) \<Rightarrow> ('s, 'a) hd_step" where
  "attempt_pure r f s = (case r of Inl e \<Rightarrow> (Inl (f e), s) | Inr x \<Rightarrow> (Inr x, s))"

text \<open>A computation that ends with a response of its own.\<close>

definition hlift :: "response + 'a \<Rightarrow> ('s, 'a) hd_step" where
  "hlift x s = (x, s)"

text \<open>A call whose error the code looks at, and one whose error it drops.\<close>

definition outcome :: "('s, 'a) op \<Rightarrow> ('s, go_error + 'a) hd_step" where
  "outcome m s = (case m s of (r, s') \<Rightarrow> (Inr r, s'))"

definition guard :: "bool \<Rightarrow> response \<Rightarrow> ('s, unit) hd_step" where
  "guard b r = (if b then hret () else hstop r)"

definition serve :: "('s, response) hd_step \<Rightarrow> 's \<Rightarrow> response \<times> 's" where
  "serve m s = (case m s of (Inl r, s') \<Rightarrow> (r, s') | (Inr r, s') \<Rightarrow> (r, s'))"

lemma hret_apply [simp]: "hret x s = (Inr x, s)" by (simp add: hret_def)

lemma hstop_apply [simp]: "hstop r s = (Inl r, s)" by (simp add: hstop_def)

lemma guard_True [simp]: "guard True r = hret ()" and guard_False [simp]: "guard False r = hstop r"
  by (simp_all add: guard_def)

lemma guard_Inr_iff [simp]: "guard b r s = (Inr x, s') \<longleftrightarrow> b \<and> s' = s"
  by (auto simp: guard_def)

lemma hbind_Inl [simp]: "m s = (Inl r, s') \<Longrightarrow> hbind m k s = (Inl r, s')"
  by (simp add: hbind_def)

lemma hbind_Inr [simp]: "m s = (Inr x, s') \<Longrightarrow> hbind m k s = k x s'"
  by (simp add: hbind_def)

lemma hbind_hret [simp]: "hbind (hret x) k = k x"
  by (simp add: hbind_def fun_eq_iff)

lemma hbind_hstop [simp]: "hbind (hstop r) k = hstop r"
  by (simp add: hbind_def fun_eq_iff)

lemma hbind_Inr_iff: "hbind m k s = (Inr y, t) \<longleftrightarrow> (\<exists>x s'. m s = (Inr x, s') \<and> k x s' = (Inr y, t))"
  by (auto simp: hbind_def split: prod.splits sum.splits)

lemma hbind_Inl_iff:
  "hbind m k s = (Inl r, t) \<longleftrightarrow> m s = (Inl r, t) \<or> (\<exists>x s'. m s = (Inr x, s') \<and> k x s' = (Inl r, t))"
  by (auto simp: hbind_def split: prod.splits sum.splits)

lemma attempt_Inr_iff [simp]: "attempt m f s = (Inr x, t) \<longleftrightarrow> m s = (Inr x, t)"
  by (auto simp: attempt_def split: prod.splits sum.splits)

lemma attempt_Inl_iff: "attempt m f s = (Inl r, t) \<longleftrightarrow> (\<exists>e. m s = (Inl e, t) \<and> r = f e)"
  by (auto simp: attempt_def split: prod.splits sum.splits)

lemma attempt_pure_Inr_iff [simp]: "attempt_pure r f s = (Inr x, t) \<longleftrightarrow> r = Inr x \<and> t = s"
  by (auto simp: attempt_pure_def split: sum.splits)

lemma attempt_pure_Inl_iff: "attempt_pure r f s = (Inl y, t) \<longleftrightarrow> (\<exists>e. r = Inl e \<and> y = f e) \<and> t = s"
  by (auto simp: attempt_pure_def split: sum.splits)

lemma outcome_iff [simp]: "outcome m s = (Inr r, t) \<longleftrightarrow> m s = (r, t)" "outcome m s \<noteq> (Inl y, t)"
  by (auto simp: outcome_def split: prod.splits)

lemma hlift_apply [simp]: "hlift x s = (x, s)" by (simp add: hlift_def)

text \<open>A step that keeps a predicate of the state, whatever it answers.\<close>

definition keeps :: "('s \<Rightarrow> bool) \<Rightarrow> ('s, 'a) hd_step \<Rightarrow> bool" where
  "keeps P m \<longleftrightarrow> (\<forall>s. P s \<longrightarrow> P (snd (m s)))"

named_theorems keeps_intros \<open>rules that show a handler step keeps a state predicate\<close>

lemma keepsE: "keeps P m \<Longrightarrow> m s = (r, s') \<Longrightarrow> P s \<Longrightarrow> P s'"
  by (metis keeps_def snd_conv)

lemma keeps_hret [keeps_intros]: "keeps P (hret x)"
  and keeps_hstop [keeps_intros]: "keeps P (hstop r)"
  and keeps_guard [keeps_intros]: "keeps P (guard b r)"
  by (simp_all add: keeps_def guard_def)

lemma keeps_hbind [keeps_intros]: "keeps P m \<Longrightarrow> (\<And>x. keeps P (k x)) \<Longrightarrow> keeps P (hbind m k)"
  by (auto simp: keeps_def hbind_def split: prod.splits sum.splits)

lemma keeps_attempt [keeps_intros]: "preserves P m \<Longrightarrow> keeps P (attempt m f)"
  by (auto simp: keeps_def attempt_def preserves_def split: prod.splits sum.splits)

lemma keeps_attempt_pure [keeps_intros]: "keeps P (attempt_pure r f)"
  by (auto simp: keeps_def attempt_pure_def split: sum.splits)

lemma keeps_outcome [keeps_intros]: "preserves P m \<Longrightarrow> keeps P (outcome m)"
  by (auto simp: keeps_def outcome_def preserves_def split: prod.splits)

lemma keeps_hlift [keeps_intros]: "keeps P (hlift x)"
  by (simp add: keeps_def)

lemma keeps_if [keeps_intros]: "(b \<Longrightarrow> keeps P m) \<Longrightarrow> (\<not> b \<Longrightarrow> keeps P n) \<Longrightarrow> keeps P (if b then m else n)"
  by simp

lemma keeps_serve: "keeps P m \<Longrightarrow> P s \<Longrightarrow> P (snd (serve m s))"
  by (auto simp: keeps_def serve_def split: prod.splits sum.splits)

text \<open>The statuses a step may stop with; \<open>refuses\<close> says that it stops only with an error.\<close>

definition stops_with :: "nat set \<Rightarrow> ('s, 'a) hd_step \<Rightarrow> bool" where
  "stops_with S m \<longleftrightarrow> (\<forall>s r s'. m s = (Inl r, s') \<longrightarrow> rsStatus r \<in> S)"

abbreviation refuses :: "('s, 'a) hd_step \<Rightarrow> bool" where
  "refuses \<equiv> stops_with (- {200})"

named_theorems stops_intros \<open>rules on the statuses a handler step may stop with\<close>

lemma stops_hret [stops_intros]: "stops_with S (hret x)"
  by (simp add: stops_with_def)

lemma stops_hstop [stops_intros]: "rsStatus r \<in> S \<Longrightarrow> stops_with S (hstop r)"
  by (simp add: stops_with_def)

lemma stops_guard [stops_intros]: "rsStatus r \<in> S \<Longrightarrow> stops_with S (guard b r)"
  by (simp add: stops_with_def guard_def)

lemma stops_hbind [stops_intros]: "stops_with S m \<Longrightarrow> (\<And>x. stops_with S (k x)) \<Longrightarrow> stops_with S (hbind m k)"
  unfolding stops_with_def hbind_Inl_iff by blast

lemma stops_attempt [stops_intros]: "(\<And>e. rsStatus (f e) \<in> S) \<Longrightarrow> stops_with S (attempt m f)"
  by (auto simp: stops_with_def attempt_Inl_iff)

lemma stops_attempt_pure [stops_intros]: "(\<And>e. rsStatus (f e) \<in> S) \<Longrightarrow> stops_with S (attempt_pure x f)"
  by (auto simp: stops_with_def attempt_pure_Inl_iff)

lemma stops_hlift [stops_intros]: "(\<And>r. x = Inl r \<Longrightarrow> rsStatus r \<in> S) \<Longrightarrow> stops_with S (hlift x)"
  by (simp add: stops_with_def)

lemma stops_outcome [stops_intros]: "stops_with S (outcome m)"
  by (simp add: stops_with_def)

lemma stops_if [stops_intros]: "(b \<Longrightarrow> stops_with S m) \<Longrightarrow> (\<not> b \<Longrightarrow> stops_with S n) \<Longrightarrow> stops_with S (if b then m else n)"
  by simp

lemma stops_case_option [stops_intros]:
  "stops_with S m \<Longrightarrow> (\<And>x. stops_with S (f x)) \<Longrightarrow> stops_with S (case y of None \<Rightarrow> m | Some x \<Rightarrow> f x)"
  by (simp split: option.split)

lemma stops_case_sum [stops_intros]:
  "(\<And>e. stops_with S (g e)) \<Longrightarrow> (\<And>x. stops_with S (f x)) \<Longrightarrow> stops_with S (case y of Inl e \<Rightarrow> g e | Inr x \<Rightarrow> f x)"
  by (simp split: sum.split)

lemma stops_case_prod [stops_intros]: "(\<And>a b. stops_with S (f a b)) \<Longrightarrow> stops_with S (case y of (a, b) \<Rightarrow> f a b)"
  by (simp split: prod.split)

lemma serve_ok: "serve m s = (r, s') \<Longrightarrow> rsStatus r = 200 \<Longrightarrow> refuses m \<Longrightarrow> m s = (Inr r, s')"
  by (auto simp: serve_def stops_with_def split: prod.splits sum.splits)

lemma serve_okE:
  assumes "serve m s = (r, s')" "rsStatus r = 200" "refuses m" "m s = (Inr r, s') \<Longrightarrow> P"
  shows P
  using assms(4) serve_ok [OF assms(1-3)] .

lemma keeps_case_option [keeps_intros]:
  "keeps P m \<Longrightarrow> (\<And>x. keeps P (f x)) \<Longrightarrow> keeps P (case y of None \<Rightarrow> m | Some x \<Rightarrow> f x)"
  by (simp split: option.split)

lemma keeps_case_sum [keeps_intros]:
  "(\<And>e. keeps P (g e)) \<Longrightarrow> (\<And>x. keeps P (f x)) \<Longrightarrow> keeps P (case y of Inl e \<Rightarrow> g e | Inr x \<Rightarrow> f x)"
  by (simp split: sum.split)

lemma keeps_case_prod [keeps_intros]: "(\<And>a b. keeps P (f a b)) \<Longrightarrow> keeps P (case y of (a, b) \<Rightarrow> f a b)"
  by (simp split: prod.split)

section \<open>JSON bodies\<close>

text \<open>
  \<^verbatim>\<open>json.Decoder.Decode\<close> (standard library): the next value and the bytes after it, the end of the
  input, or an error. It is a parameter; the limit of \<^verbatim>\<open>io.LimitReader\<close> and the check for a second
  value are the code's.
\<close>

datatype json_read = JsonEOF | JsonErr | JsonVal data bytes

definition maxJSONBodyBytes :: nat where "maxJSONBodyBytes = 2 ^ 20"

definition decodeJSON :: "(bytes \<Rightarrow> json_read) \<Rightarrow> request \<Rightarrow> data option" where
  "decodeJSON dec rq = (case dec (take (maxJSONBodyBytes + 1) (rqBody rq)) of
     JsonVal v rest \<Rightarrow> if dec rest = JsonEOF then Some v else None
   | _ \<Rightarrow> None)"

text \<open>
  Storing a JSON value into a Go struct: the key of an object selects a field without regard to
  case, the last one wins, \<^verbatim>\<open>null\<close> leaves the field as it is, and a value of another type is an
  error. A field that is absent keeps its zero value.
\<close>

definition lower :: "char \<Rightarrow> char" where
  "lower c = (if 65 \<le> (of_char c :: nat) \<and> (of_char c :: nat) \<le> 90 then char_of (of_char c + 32 :: nat) else c)"

definition same_key :: "string \<Rightarrow> string \<Rightarrow> bool" where
  "same_key a b \<longleftrightarrow> map lower a = map lower b"

definition field :: "(data \<Rightarrow> 'a option) \<Rightarrow> 'a \<Rightarrow> string \<Rightarrow> data \<Rightarrow> 'a option" where
  "field conv zero name v = (case v of
     DNull \<Rightarrow> Some zero
   | DMap kvs \<Rightarrow> foldl (\<lambda>acc (k, x). if acc \<noteq> None \<and> same_key k name \<and> x \<noteq> DNull then conv x else acc)
       (Some zero) kvs
   | _ \<Rightarrow> None)"

fun as_str :: "data \<Rightarrow> string option" where
  "as_str (DStr s) = Some s" | "as_str _ = None"

fun as_bool :: "data \<Rightarrow> bool option" where
  "as_bool (DBool b) = Some b" | "as_bool _ = None"

fun as_map :: "data \<Rightarrow> record_data option" where
  "as_map (DMap m) = Some m" | "as_map _ = None"

fun as_list :: "data \<Rightarrow> data list option" where
  "as_list (DList xs) = Some xs" | "as_list _ = None"

definition str_field :: "string \<Rightarrow> data \<Rightarrow> string option" where
  "str_field = field as_str ''''"

definition bool_field :: "string \<Rightarrow> data \<Rightarrow> bool option" where
  "bool_field = field as_bool False"

definition opt_field :: "(data \<Rightarrow> 'a option) \<Rightarrow> string \<Rightarrow> data \<Rightarrow> 'a option option" where
  "opt_field conv = field (\<lambda>x. map_option Some (conv x)) None"

text \<open>A \<^verbatim>\<open>json.RawMessage\<close>: \<open>None\<close> when the key is absent; \<^verbatim>\<open>null\<close> is a message like any other.\<close>

definition raw_field :: "string \<Rightarrow> data \<Rightarrow> data option option" where
  "raw_field name v = (case v of
     DNull \<Rightarrow> Some None
   | DMap kvs \<Rightarrow> Some (foldl (\<lambda>acc (k, x). if same_key k name then Some x else acc) None kvs)
   | _ \<Rightarrow> None)"

text \<open>Decoding a body with a reader for the struct; \<open>resp\<close> is the handler's answer to an error.\<close>

definition decode_body :: "(bytes \<Rightarrow> json_read) \<Rightarrow> request \<Rightarrow> (data \<Rightarrow> 'a option) \<Rightarrow> response \<Rightarrow> ('s, 'a) hd_step" where
  "decode_body dec rq read resp = (case Option.bind (decodeJSON dec rq) read of
     None \<Rightarrow> hstop resp | Some x \<Rightarrow> hret x)"

abbreviation malformed :: response where
  "malformed \<equiv> InvalidRequest ''malformed request body''"

lemma decode_body_Inr_iff [simp]:
  "decode_body dec rq read resp s = (Inr x, t) \<longleftrightarrow> Option.bind (decodeJSON dec rq) read = Some x \<and> t = s"
  by (auto simp: decode_body_def split: option.splits)

lemma keeps_decode_body [keeps_intros]: "keeps P (decode_body dec rq read resp)"
  by (auto simp: decode_body_def intro: keeps_intros split: option.split)

lemma stops_decode_body [stops_intros]: "rsStatus resp \<in> S \<Longrightarrow> stops_with S (decode_body dec rq read resp)"
  by (auto simp: decode_body_def intro: stops_intros split: option.split)

section \<open>The bearer token\<close>

definition bearerToken :: "request \<Rightarrow> string option" where
  "bearerToken rq = (let h = header_get rq ''Authorization'' in
     if has_prefix h ''Bearer '' then Some (trim_prefix h ''Bearer '') else None)"

section \<open>Cross-origin requests\<close>

text \<open>\<^verbatim>\<open>withCORS\<close>: the headers are set before the inner handler runs; a preflight stops here.\<close>

definition cors_headers :: "request \<Rightarrow> (string \<times> string) list" where
  "cors_headers rq =
     (let origin = header_get rq ''Origin'';
          asked = header_get rq ''Access-Control-Request-Headers''
      in header_add ''Vary'' ''Access-Control-Request-Headers'' (header_add ''Vary'' ''Origin''
        (header_set ''Access-Control-Expose-Headers'' ''Atproto-Content-Labelers, Atproto-Repo-Rev, Content-Type''
        (header_set ''Access-Control-Allow-Headers''
           (if asked \<noteq> '''' then asked
            else ''Content-Type, Authorization, Atproto-Accept-Labelers, Atproto-Proxy'')
        (header_set ''Access-Control-Allow-Methods'' ''GET, POST, PUT, DELETE, OPTIONS''
        (header_set ''Access-Control-Allow-Origin'' (if origin = '''' then ''*'' else origin) []))))))"

definition withCORS :: "(request \<Rightarrow> 's \<Rightarrow> response \<times> 's) \<Rightarrow> request \<Rightarrow> 's \<Rightarrow> response \<times> 's" where
  "withCORS inner rq s =
     (if rqMethod rq = ''OPTIONS''
      then (\<lparr>rsStatus = 204, rsHeaders = cors_headers rq, rsAdded = [], rsBody = NoBody\<rparr>, s)
      else (case inner rq s of (r, s') \<Rightarrow>
        (r\<lparr>rsHeaders := foldl (\<lambda>hs (k, v). header_set k v hs) (cors_headers rq) (rsHeaders r) @ rsAdded r,
           rsAdded := []\<rparr>, s')))"

end
