(* ===== verification/ClientIP.thy ===== *)
theory ClientIP
  imports Net Http
begin

text \<open>
  \<^verbatim>\<open>internal/xrpc/clientip.go\<close>: which address a request counts for, and the rate limiter of logins.
  The token bucket is \<^verbatim>\<open>golang.org/x/time/rate\<close>, a parameter: the state of a new limiter and the
  answer of \<^verbatim>\<open>Allow\<close> at an instant. Header names are in Go's canonical form.
\<close>

section \<open>The client's address\<close>

definition remote_host :: "request \<Rightarrow> string" where
  "remote_host rq = (case SplitHostPort (rqRemoteAddr rq) of Some (h, _) \<Rightarrow> h | None \<Rightarrow> rqRemoteAddr rq)"

definition clientAddr :: "request \<Rightarrow> addr" where
  "clientAddr rq = (case ParseAddr (remote_host rq) of
     None \<Rightarrow> NoAddr
   | Some p \<Rightarrow>
       (let peer = addr_unmap p; cf = header_get rq ''Cf-Connecting-Ip'' in
        if IsLoopback peer \<and> cf \<noteq> '''' then
          (case ParseAddr cf of None \<Rightarrow> NoAddr | Some a \<Rightarrow> addr_unmap a)
        else peer))"

definition addrInPrefixes :: "addr \<Rightarrow> prefix list \<Rightarrow> bool" where
  "addrInPrefixes a ps = list_ex (\<lambda>p. prefix_contains p a) ps"

text \<open>A client that connects from anywhere but loopback cannot choose its address: no header of its
  request changes the address that the admin allowlist and the rate limiter see, which is that of
  the TCP peer.\<close>

theorem client_addr_not_spoofable:
  assumes "ParseAddr (remote_host rq) = Some p" "\<not> IsLoopback p"
  shows "clientAddr (rq\<lparr>rqHeaders := hs, rqQuery := qs, rqBody := bs\<rparr>) = addr_unmap p"
proof -
  have "remote_host (rq\<lparr>rqHeaders := hs, rqQuery := qs, rqBody := bs\<rparr>) = remote_host rq"
    by (simp add: remote_host_def cong: option.case_cong)
  moreover have "\<not> IsLoopback (addr_unmap p)" using assms(2) by (simp add: IsLoopback_def)
  ultimately show ?thesis using assms(1) by (simp add: clientAddr_def Let_def)
qed

definition demo_request :: request where
  "demo_request = \<lparr>rqMethod = ''POST'', rqPath = ''/xrpc/x'', rqRawQuery = '''', rqQuery = [], rqHeaders = [], rqBody = [],
     rqHost = ''pds.test'', rqRemoteAddr = ''203.0.113.9:4711''\<rparr>"

theorem client_addr_not_spoofable_witness:
  "clientAddr (demo_request\<lparr>rqHeaders := [(''Cf-Connecting-Ip'', ''127.0.0.1'')], rqQuery := [], rqBody := []\<rparr>)
     = addr_unmap (V4 3405803785)"
proof (rule client_addr_not_spoofable)
  have "map_option (\<lambda>a. case a of V4 w \<Rightarrow> uint w | _ \<Rightarrow> 0) (ParseAddr (remote_host demo_request)) = Some 3405803785
      \<and> (\<forall>a \<in> set_option (ParseAddr (remote_host demo_request)). case a of V4 w \<Rightarrow> True | _ \<Rightarrow> False)"
    by code_simp
  then obtain w where w: "ParseAddr (remote_host demo_request) = Some (V4 w)" "uint w = 3405803785"
    by (auto split: addr.splits)
  have "w = 3405803785" using w(2) by (simp add: word_uint_eq_iff)
  then show "ParseAddr (remote_host demo_request) = Some (V4 3405803785)" using w(1) by simp
  show "\<not> IsLoopback (V4 3405803785)" by (simp add: IsLoopback_def addr_unmap_def)
qed

section \<open>The rate limiter\<close>

record 'l rate_lib =
  rl_new :: 'l
  rl_allow :: "int \<Rightarrow> 'l \<Rightarrow> bool \<times> 'l"

record 'l ip_bucket =
  bkLimiter :: 'l
  bkLastSeen :: int

record 'l ip_limiter =
  ilBuckets :: "addr \<Rightarrow> 'l ip_bucket option"
  ilLastSweep :: int

definition ipBucketIdleTTL :: int where "ipBucketIdleTTL = 15 * 60 * 1000000000"

definition newIPRateLimiter :: "int \<Rightarrow> 'l ip_limiter" where
  "newIPRateLimiter now = \<lparr>ilBuckets = (\<lambda>a. None), ilLastSweep = now\<rparr>"

definition bucket_key :: "addr \<Rightarrow> addr" where
  "bucket_key a = (if addr_is6 a then masked64 a else a)"

definition sweep :: "int \<Rightarrow> 'l ip_limiter \<Rightarrow> 'l ip_limiter" where
  "sweep now l = (if now - ilLastSweep l > ipBucketIdleTTL
     then l\<lparr>ilBuckets := (\<lambda>a. case ilBuckets l a of
              None \<Rightarrow> None | Some b \<Rightarrow> if now - bkLastSeen b > ipBucketIdleTTL then None else Some b),
            ilLastSweep := now\<rparr>
     else l)"

text \<open>\<open>now\<close> and \<open>now'\<close> are the two readings of the clock, the second inside the limiter.\<close>

definition limiter_Allow :: "'l rate_lib \<Rightarrow> int \<Rightarrow> int \<Rightarrow> addr \<Rightarrow> 'l ip_limiter \<Rightarrow> bool \<times> 'l ip_limiter" where
  "limiter_Allow lib now now' a l0 =
     (let k = bucket_key a; l = sweep now l0;
          lim = (case ilBuckets l k of None \<Rightarrow> rl_new lib | Some b \<Rightarrow> bkLimiter b)
      in case rl_allow lib now' lim of (ok, lim') \<Rightarrow>
           (ok, l\<lparr>ilBuckets := (ilBuckets l)(k \<mapsto> \<lparr>bkLimiter = lim', bkLastSeen = now\<rparr>)\<rparr>))"

text \<open>\<^verbatim>\<open>rateLimited\<close>: the limiter is a part of the server's state that the inner handler does not use.\<close>

definition rateLimited :: "'l rate_lib \<Rightarrow> int \<Rightarrow> int \<Rightarrow> (request \<Rightarrow> 's \<Rightarrow> response \<times> 's) \<Rightarrow>
    request \<Rightarrow> 'l ip_limiter \<times> 's \<Rightarrow> response \<times> 'l ip_limiter \<times> 's" where
  "rateLimited lib now now' inner rq s =
     (case limiter_Allow lib now now' (clientAddr rq) (fst s) of (ok, l) \<Rightarrow>
        if \<not> ok then (writeXRPCError 429 ''RateLimitExceeded'' ''too many attempts, try again later'', (l, snd s))
        else (case inner rq (snd s) of (r, s') \<Rightarrow> (r, (l, s'))))"

subsection \<open>Histories of attempts\<close>

text \<open>An attempt is its instant and its client; the answers of a history, and the answers that one
  limiter of its own gives to the attempts of one client.\<close>

type_synonym attempt = "int \<times> addr"

fun allow_run :: "'l rate_lib \<Rightarrow> attempt list \<Rightarrow> 'l ip_limiter \<Rightarrow> (attempt \<times> bool) list" where
  "allow_run lib [] l = []"
| "allow_run lib ((t, a) # es) l =
     (case limiter_Allow lib t t a l of (ok, l') \<Rightarrow> ((t, a), ok) # allow_run lib es l')"

fun single_run :: "'l rate_lib \<Rightarrow> int list \<Rightarrow> 'l \<Rightarrow> bool list" where
  "single_run lib [] l = []"
| "single_run lib (t # ts) l = (case rl_allow lib t l of (ok, l') \<Rightarrow> ok # single_run lib ts l')"

definition of_client :: "addr \<Rightarrow> attempt list \<Rightarrow> int list" where
  "of_client k es = map fst (filter (\<lambda>e. bucket_key (snd e) = k) es)"

definition answers :: "addr \<Rightarrow> (attempt \<times> bool) list \<Rightarrow> bool list" where
  "answers k xs = map snd (filter (\<lambda>x. bucket_key (snd (fst x)) = k) xs)"

fun close_together :: "int list \<Rightarrow> bool" where
  "close_together (s # t # ts) \<longleftrightarrow> t - s \<le> ipBucketIdleTTL \<and> close_together (t # ts)"
| "close_together ts \<longleftrightarrow> True"

text \<open>The bucket of client \<open>k\<close> stands for a limiter in state \<open>st\<close>, as far as its attempts \<open>ts\<close> to come
  can tell.\<close>

definition stands_for :: "'l rate_lib \<Rightarrow> addr \<Rightarrow> 'l \<Rightarrow> int list \<Rightarrow> 'l ip_limiter \<Rightarrow> bool" where
  "stands_for lib k st ts l \<longleftrightarrow> ts = [] \<or> (case ilBuckets l k of
     None \<Rightarrow> st = rl_new lib
   | Some b \<Rightarrow> bkLimiter b = st \<and> hd ts - bkLastSeen b \<le> ipBucketIdleTTL)"

lemma sweep_keeps:
  assumes "stands_for lib k st ts l" "ts \<noteq> [] \<longrightarrow> now \<le> hd ts"
  shows "stands_for lib k st ts (sweep now l)"
  using assms by (cases "ts = []") (auto simp: stands_for_def sweep_def split: option.splits)

lemma allow_other:
  assumes "stands_for lib k st ts l" "ts \<noteq> [] \<longrightarrow> t \<le> hd ts" "bucket_key a \<noteq> k"
  shows "stands_for lib k st ts (snd (limiter_Allow lib t t a l))"
  using sweep_keeps [OF assms(1,2)] assms(3)
  by (auto simp: limiter_Allow_def Let_def stands_for_def split: prod.split)

lemma allow_own:
  assumes "stands_for lib k st (t # ts) l" "bucket_key a = k" "close_together (t # ts)"
  shows "fst (limiter_Allow lib t t a l) = fst (rl_allow lib t st)
    \<and> stands_for lib k (snd (rl_allow lib t st)) ts (snd (limiter_Allow lib t t a l))"
proof -
  have s: "stands_for lib k st (t # ts) (sweep t l)" using sweep_keeps [OF assms(1)] by simp
  then have "(case ilBuckets (sweep t l) k of None \<Rightarrow> rl_new lib | Some b \<Rightarrow> bkLimiter b) = st"
    by (auto simp: stands_for_def split: option.splits)
  then show ?thesis using assms(2,3)
    by (cases ts) (auto simp: limiter_Allow_def Let_def stands_for_def split: prod.split)
qed

lemma of_client_Cons:
  "of_client k ((t, a) # es) = (if bucket_key a = k then t # of_client k es else of_client k es)"
  by (simp add: of_client_def)

lemma close_tail: "close_together (t # ts) \<Longrightarrow> close_together ts"
  by (cases ts) auto

lemma allow_run_client:
  assumes "sorted (map fst es)" "close_together (of_client k es)" "stands_for lib k st (of_client k es) l"
  shows "answers k (allow_run lib es l) = single_run lib (of_client k es) st"
  using assms
proof (induction es arbitrary: l st)
  case Nil
  then show ?case by (simp add: answers_def of_client_def)
next
  case (Cons e es)
  obtain t a where e: "e = (t, a)" by (cases e)
  obtain ok l' where step: "limiter_Allow lib t t a l = (ok, l')" by fastforce
  have sorted: "sorted (map fst es)" using Cons.prems(1) by simp
  show ?case
  proof (cases "bucket_key a = k")
    case True
    have close: "close_together (t # of_client k es)" and st: "stands_for lib k st (t # of_client k es) l"
      using Cons.prems(2,3) True e by (simp_all add: of_client_Cons)
    show ?thesis
      using allow_own [OF st True close] Cons.IH [OF sorted close_tail [OF close], of "snd (rl_allow lib t st)" l'] True
      by (simp add: e step of_client_Cons answers_def split: prod.split)
  next
    case False
    have "t \<le> hd (of_client k es)" if "of_client k es \<noteq> []"
    proof -
      have "hd (of_client k es) \<in> set (map fst es)"
        using hd_in_set [OF that] by (auto simp: of_client_def)
      then show ?thesis using Cons.prems(1) e by auto
    qed
    then have "stands_for lib k st (of_client k es) l'"
      using allow_other [of lib k st "of_client k es" l t a] Cons.prems(3) False e step by (simp add: of_client_Cons)
    then show ?thesis
      using Cons.IH [OF sorted] Cons.prems(2) False by (simp add: e step of_client_Cons answers_def)
  qed
qed

text \<open>C32. The login limiter refines one token bucket per client: in any history, the answers to a client
  whose attempts are at most 15 minutes apart are exactly those of a limiter of its own, whoever
  else attempts and whatever the sweeps drop; the attempts of an IPv6 host count together,
  whichever address of its /64 it uses.\<close>

theorem limiter_refines_own_bucket:
  assumes "sorted (map fst es)" "close_together (of_client k es)"
  shows "answers k (allow_run lib es (newIPRateLimiter t0)) = single_run lib (of_client k es) (rl_new lib)"
  using assms by (rule allow_run_client) (simp add: stands_for_def newIPRateLimiter_def)

text \<open>A token bucket that refills one token in two minutes up to ten, in units of a token's
  nanoseconds: what \<^verbatim>\<open>rate.NewLimiter(rate.Every(2*time.Minute), 10)\<close> does.\<close>

definition token_time :: int where "token_time = 2 * 60 * 1000000000"

definition login_bucket :: "(int \<times> int option) rate_lib" where
  "login_bucket = \<lparr>rl_new = (10 * token_time, None),
     rl_allow = (\<lambda>now (level, last).
       let have_now = min (10 * token_time) (case last of None \<Rightarrow> level | Some l \<Rightarrow> level + (now - l)) in
       if token_time \<le> have_now then (True, (have_now - token_time, Some now))
       else (False, (have_now, Some now)))\<rparr>"

theorem limiter_refines_own_bucket_witness:
  "answers (V4 1) (allow_run login_bucket [(0, V4 1), (1, V4 2), (900000000000, V4 1)] (newIPRateLimiter 0))
     = [True, True]"
  using limiter_refines_own_bucket [of "[(0, V4 1), (1, V4 2), (900000000000, V4 1)]" "V4 1" login_bucket 0]
  by (simp add: of_client_def bucket_key_def addr_is6_def ipBucketIdleTTL_def login_bucket_def token_time_def)

text \<open>Buckets are dropped after 15 minutes although a bucket needs 20 to refill: a client that spends
  its burst and comes back after 15 minutes and a nanosecond has all ten attempts again, where its
  bucket would have refilled to seven.\<close>

theorem idle_sweep_resets_bucket:
  "filter id (answers NoAddr (allow_run login_bucket
       (replicate 10 (0, NoAddr) @ replicate 10 (ipBucketIdleTTL + 1, NoAddr)) (newIPRateLimiter 0))) = replicate 20 True
   \<and> filter id (single_run login_bucket (replicate 10 0 @ replicate 10 (ipBucketIdleTTL + 1)) (rl_new login_bucket))
       = replicate 17 True"
  by code_simp

end
