(* ===== verification/Server.thy ===== *)
theory Server
  imports RepoOps ClientIP
begin

text \<open>
  What every handler of \<^verbatim>\<open>internal/xrpc\<close> reads: the configuration (\<^verbatim>\<open>internal/config\<close>), the
  libraries as parameters, and the clock and the random numbers of the request being served.
  \<open>svNow i\<close> is the \<open>i\<close>-th reading of the clock, \<open>svTid i\<close> the \<open>i\<close>-th one that a TID clock makes, \<open>svRand i\<close> the \<open>i\<close>-th read of
  \<^verbatim>\<open>crypto/rand\<close> and \<open>svGenKey i\<close> the \<open>i\<close>-th key generated while one request is served.

  Parameters for the indigo library: \<open>svParseDid\<close>, \<open>svParseHandle\<close>, \<open>svParseNSID\<close>,
  \<open>svParseRKey\<close> (\<^verbatim>\<open>syntax.Parse...\<close>, yielding the text), \<open>svParseKey\<close> and \<open>svPubKey\<close>
  (\<^verbatim>\<open>atcrypto\<close>: a private key is its multibase text, a public key its did:key), \<open>svServiceAuth\<close>
  (\<^verbatim>\<open>SignServiceAuth\<close>: issuer, audience, lifetime, method, key), \<open>svValidate\<close>
  (\<^verbatim>\<open>ServiceAuthValidator.Validate\<close>: audience, token, method), \<open>svResolve\<close>
  (\<^verbatim>\<open>ResolveDID\<close>, the flag chooses \<^verbatim>\<open>untrustedDir\<close>), \<open>svLookupKey\<close> (\<^verbatim>\<open>LookupDID\<close> and
  \<^verbatim>\<open>PublicKey\<close>), \<open>svResolveHandle\<close>, \<open>svRecord\<close> (\<^verbatim>\<open>atdata.UnmarshalJSON\<close> of a raw JSON value),
  \<open>svCidDecode\<close>, \<open>svCar\<close> (the header and blocks of a CAR file, up to the error that ends it),
  \<open>svVerifyStructure\<close>, \<open>svVerifySig\<close> (public key, commit), \<open>svSignBytes\<close>
  (\<^verbatim>\<open>HashAndSign\<close>), \<open>svDumpObject\<close> (\<^verbatim>\<open>cbornode.DumpObject\<close>). An HTTP request to another server is
  answered by \<open>svPlcGet\<close>, \<open>svPlcPost\<close> (status and body) or \<open>svUpstream\<close> (the flag says which of
  the two clients sends it); \<open>svNewRequest\<close> is \<^verbatim>\<open>http.NewRequest\<close> on a method and an URL. A raw
  message of a JSON document is the text \<open>svJsonText\<close> of its value, and \<open>svJsonValue\<close> the value of
  a text. \<open>svBodyErr\<close> is the error that cuts off the request body, if any.
\<close>

record out_request =
  orMethod :: string
  orURL :: string
  orHeaders :: "(string \<times> string) list"
  orBody :: bytes

record in_response =
  irStatus :: nat
  irHeaders :: "(string \<times> string) list"
  irBody :: bytes

record did_service =
  dsID :: string
  dsEndpoint :: string

record car_file =
  cfRoots :: "cid list"
  cfBlocks :: "block list"
  cfEnd :: "go_error option"

record ('t, 'k) server =
  cfHostname :: string
  cfPLCURL :: string
  cfAppviewURL :: string
  cfAppviewDID :: string
  cfJWTSecret :: string
  cfAdminPassword :: string
  svAdminNets :: "prefix list"
  svVersion :: string
  svNow :: "nat \<Rightarrow> int"
  svTid :: "nat \<Rightarrow> int"
  svRand :: "nat \<Rightarrow> go_error + bytes"
  svGenKey :: "nat \<Rightarrow> go_error + string"
  svScrypt :: scrypt_fn
  svJwt :: jwt_lib
  svSha :: "bytes \<Rightarrow> bytes"
  svJson :: "bytes \<Rightarrow> json_read"
  svJsonText :: "data \<Rightarrow> string"
  svJsonValue :: "string \<Rightarrow> data option"
  svBodyErr :: "go_error option"
  svParseDid :: "string \<Rightarrow> go_error + string"
  svDidMethod :: "string \<Rightarrow> string"
  svParseHandle :: "string \<Rightarrow> go_error + string"
  svParseNSID :: "string \<Rightarrow> go_error + string"
  svParseRKey :: "string \<Rightarrow> go_error + string"
  svParseKey :: "string \<Rightarrow> go_error + string"
  svPubKey :: "string \<Rightarrow> go_error + string"
  svServiceAuth :: "string \<Rightarrow> string \<Rightarrow> int \<Rightarrow> string option \<Rightarrow> string \<Rightarrow> go_error + string"
  svValidate :: "string \<Rightarrow> string \<Rightarrow> string \<Rightarrow> go_error + string"
  svResolve :: "bool \<Rightarrow> string \<Rightarrow> go_error + did_service list"
  svLookupKey :: "string \<Rightarrow> go_error + (go_error + string)"
  svResolveHandle :: "string \<Rightarrow> go_error + string"
  svRecord :: "data \<Rightarrow> go_error + record_data"
  svCidDecode :: "string \<Rightarrow> go_error + cid"
  svPlcGet :: "string \<Rightarrow> go_error + nat \<times> bytes"
  svPlcPost :: "string \<Rightarrow> data \<Rightarrow> go_error + nat \<times> bytes"
  svNewRequest :: "string \<Rightarrow> string \<Rightarrow> go_error + unit"
  svUpstream :: "bool \<Rightarrow> out_request \<Rightarrow> go_error + in_response"
  svCar :: "bytes \<Rightarrow> go_error + car_file"
  svVerifyStructure :: "commit \<Rightarrow> go_error + unit"
  svVerifySig :: "string \<Rightarrow> commit \<Rightarrow> go_error + unit"
  svSignBytes :: "string \<Rightarrow> bytes \<Rightarrow> go_error + bytes"
  svDumpObject :: "data \<Rightarrow> go_error + bytes"
  svLib :: "('t, 'k) repo_lib"
  svWire :: wire_lib

text \<open>\<^verbatim>\<open>ServiceDID\<close> of \<^verbatim>\<open>server.go\<close>.\<close>

definition ServiceDID :: "('t, 'k) server \<Rightarrow> string" where
  "ServiceDID sv = ''did:web:'' @ cfHostname sv"

definition time_text :: "('t, 'k) server \<Rightarrow> int \<Rightarrow> string" where
  "time_text sv t = rfc3339_text (w_fmt (svWire sv)) t"

section \<open>Shared steps\<close>

abbreviation NotFound :: "string \<Rightarrow> response" where
  "NotFound m \<equiv> writeXRPCError 404 ''NotFound'' m"

abbreviation Unauthorized :: "string \<Rightarrow> string \<Rightarrow> response" where
  "Unauthorized n m \<equiv> writeXRPCError 401 n m"

definition err_text :: "string \<Rightarrow> go_error \<Rightarrow> string" where
  "err_text m e = m @ error_text e"

text \<open>Opening an actor's store and working on it.\<close>

definition actors_Get :: "('t, 'k) server \<Rightarrow> string \<Rightarrow> (world, unit) op" where
  "actors_Get sv did = on_mgr (mgr_Get (svParseDid sv) did)"

definition actors_GetExisting :: "('t, 'k) server \<Rightarrow> string \<Rightarrow> (world, unit) op" where
  "actors_GetExisting sv did = on_mgr (mgr_GetExisting (svParseDid sv) did)"

definition actor_op :: "string \<Rightarrow> (actordb, 'a) op \<Rightarrow> (world, 'a) op" where
  "actor_op did f = on_mgr (on_actor did f)"

text \<open>Reading a numeric limit of a query: values that are not in the range are ignored.\<close>

definition query_limit :: "request \<Rightarrow> nat \<Rightarrow> nat \<Rightarrow> nat" where
  "query_limit rq deflt maximum = (let l = query_get rq ''limit'' in
     if l = '''' then deflt
     else (case ParseInt l of
        Some n \<Rightarrow> if 0 < n \<and> n \<le> int maximum then nat n else deflt
      | None \<Rightarrow> deflt))"

lemma query_limit_bounds: "0 < deflt \<Longrightarrow> deflt \<le> maximum \<Longrightarrow>
    0 < query_limit rq deflt maximum \<and> query_limit rq deflt maximum \<le> maximum"
  by (auto simp: query_limit_def Let_def split: option.split)

text \<open>Steps that leave everything but one component of the state alone.\<close>

definition reads_only :: "(world, 'a) hd_step \<Rightarrow> bool" where
  "reads_only m \<longleftrightarrow> (\<forall>w. \<exists>t. snd (m w) = w\<lparr>wAcct := (wAcct w)\<lparr>tape := t\<rparr>\<rparr>)"

end
