(* ===== verification/Session.thy ===== *)
theory Session
  imports Server StoreSpec
begin

text \<open>
  \<^verbatim>\<open>internal/xrpc/session.go\<close> and \<^verbatim>\<open>internal/xrpc/apppassword.go\<close>: sessions, the principal of a
  request, and app passwords.
\<close>

section \<open>The principal of a request\<close>

definition statusPermitted :: "string \<Rightarrow> bool \<Rightarrow> bool" where
  "statusPermitted status allowDeactivated =
     (if status = StatusActive then True else allowDeactivated \<and> status = StatusDeactivated)"

fun matchingAppCredential :: "app_password list \<Rightarrow> parsed_token \<Rightarrow> bool" where
  "matchingAppCredential [] p = False"
| "matchingAppCredential (ap # aps) p =
     (if apName ap \<noteq> ptAppPasswordName p then matchingAppCredential aps p
      else (apPrivileged ap \<and> ptCredentialKind p = CredentialPrivilegedAppPassword)
         \<or> (\<not> apPrivileged ap \<and> ptCredentialKind p = CredentialAppPassword))"

definition bearer :: "request \<Rightarrow> (world, string) hd_step" where
  "bearer rq = (case bearerToken rq of
     None \<Rightarrow> hstop (Unauthorized ''AuthenticationRequired'' ''missing bearer token'')
   | Some tok \<Rightarrow> hret tok)"

abbreviation session_revoked :: response where
  "session_revoked \<equiv> Unauthorized ''ExpiredToken'' ''session has been revoked''"

abbreviation app_password_revoked :: response where
  "app_password_revoked \<equiv> Unauthorized ''ExpiredToken'' ''app password has been revoked''"

definition check_app_credential :: "parsed_token \<Rightarrow> (world, unit) hd_step" where
  "check_app_credential p = (if ptAppPasswordName p = '''' then hret ()
     else hbind (attempt (on_acct (ListAppPasswords (ptDID p))) (\<lambda>_. app_password_revoked))
            (\<lambda>aps. guard (matchingAppCredential aps p) app_password_revoked))"

definition privileged_kind :: "string \<Rightarrow> bool" where
  "privileged_kind kind \<longleftrightarrow> kind = CredentialPrimary \<or> kind = CredentialPrivilegedAppPassword"

definition requirePrincipal :: "('t, 'k) server \<Rightarrow> request \<Rightarrow> bool \<Rightarrow> bool \<Rightarrow> (world, parsed_token) hd_step" where
  "requirePrincipal sv rq privileged allowDeactivated =
     hbind (bearer rq) (\<lambda>tok.
     hbind (attempt_pure (ParseAccessToken (svJwt sv) (svNow sv 0) (cfJWTSecret sv) tok)
       (\<lambda>_. Unauthorized ''ExpiredToken'' ''invalid or expired access token'')) (\<lambda>p.
     hbind (attempt (on_acct (GetAccountByDID (ptDID p))) (\<lambda>_. session_revoked)) (\<lambda>acct.
     hbind (guard (statusPermitted (acStatus acct) allowDeactivated \<and> acAuthVersion acct = ptAuthVersion p)
       session_revoked) (\<lambda>_.
     hbind (check_app_credential p) (\<lambda>_.
     hbind (guard (\<not> (privileged \<and> \<not> privileged_kind (ptCredentialKind p)))
       (writeXRPCError 403 ''AuthRequired'' ''privileged credentials required'')) (\<lambda>_.
     hret p))))))"

definition requireAccessToken :: "('t, 'k) server \<Rightarrow> request \<Rightarrow> (world, string) hd_step" where
  "requireAccessToken sv rq = hbind (requirePrincipal sv rq False False) (\<lambda>p. hret (ptDID p))"

definition requirePrivilegedAccessToken :: "('t, 'k) server \<Rightarrow> request \<Rightarrow> (world, string) hd_step" where
  "requirePrivilegedAccessToken sv rq = hbind (requirePrincipal sv rq True False) (\<lambda>p. hret (ptDID p))"

definition requireMigrationAccessToken :: "('t, 'k) server \<Rightarrow> request \<Rightarrow> (world, string) hd_step" where
  "requireMigrationAccessToken sv rq = hbind (requirePrincipal sv rq True True) (\<lambda>p. hret (ptDID p))"

definition requireMigratableAccessToken :: "('t, 'k) server \<Rightarrow> request \<Rightarrow> (world, string) hd_step" where
  "requireMigratableAccessToken sv rq = hbind (requirePrincipal sv rq False True) (\<lambda>p. hret (ptDID p))"

section \<open>Issuing sessions\<close>

abbreviation issue_failed :: response where
  "issue_failed \<equiv> InternalServerError ''failed to issue session''"

definition statusOrEmpty :: "string \<Rightarrow> string" where
  "statusOrEmpty status = (if status = StatusActive then '''' else status)"

text \<open>\<^verbatim>\<open>json:",omitempty"\<close>: an empty string is left out.\<close>

definition omitempty :: "string \<Rightarrow> string \<Rightarrow> (string \<times> data) list" where
  "omitempty k v = (if v = '''' then [] else [(k, DStr v)])"

definition session_output :: "string \<Rightarrow> string \<Rightarrow> account \<Rightarrow> data" where
  "session_output access refresh acct = DMap
     ([(''accessJwt'', DStr access), (''refreshJwt'', DStr refresh), (''handle'', DStr (acHandle acct)),
       (''did'', DStr (acDID acct)), (''active'', DBool (acStatus acct = StatusActive))]
      @ omitempty ''status'' (statusOrEmpty (acStatus acct)))"

definition refresh_row :: "('t, 'k) server \<Rightarrow> nat \<Rightarrow> account \<Rightarrow> credential \<Rightarrow> string \<Rightarrow> int \<Rightarrow> refresh_token" where
  "refresh_row sv i acct cred jti exp = \<lparr>rtTokenHash = HashToken (svSha sv) jti, rtDID = acDID acct,
     rtExpiresAt = exp, rtCreatedAt = svNow sv i, rtAuthVersion = acAuthVersion acct,
     rtCredentialKind = crKind cred, rtAppPasswordName = crAppPasswordName cred\<rparr>"

text \<open>\<open>i\<close> numbers the clock readings from here on and \<open>j\<close> the random read.\<close>

definition issueSession :: "('t, 'k) server \<Rightarrow> nat \<Rightarrow> nat \<Rightarrow> account \<Rightarrow> credential \<Rightarrow> (world, response) hd_step" where
  "issueSession sv i j acct cred =
     hbind (attempt_pure (IssueAccessToken (svJwt sv) (svNow sv i) (cfJWTSecret sv) (acDID acct) (ServiceDID sv)
       (acAuthVersion acct) cred) (\<lambda>_. issue_failed)) (\<lambda>(access, _).
     hbind (attempt_pure (IssueRefreshToken (svJwt sv) (svNow sv (i + 1)) (svRand sv j) (cfJWTSecret sv) (acDID acct)
       (ServiceDID sv) (acAuthVersion acct) cred) (\<lambda>_. issue_failed)) (\<lambda>(refresh, jti, exp).
     hbind (attempt (on_acct (CreateRefreshToken (svNow sv (i + 3)) (refresh_row sv (i + 2) acct cred jti exp)))
       (\<lambda>_. issue_failed)) (\<lambda>_.
     hret (writeJSON 200 (session_output access refresh acct)))))"

section \<open>createSession\<close>

text \<open>\<^verbatim>\<open>verifyAppPassword\<close>: an entry whose hash cannot be read counts as a mismatch.\<close>

definition app_password_matches :: "scrypt_fn \<Rightarrow> string \<Rightarrow> app_password \<Rightarrow> bool" where
  "app_password_matches scrypt password ap \<longleftrightarrow> VerifyPassword scrypt password (apPasswordHash ap) = Inr True"

definition verifyAppPassword :: "('t, 'k) server \<Rightarrow> string \<Rightarrow> string \<Rightarrow> (world, app_password option) hd_step" where
  "verifyAppPassword sv did password = hbind (outcome (on_acct (ListAppPasswords did)))
     (\<lambda>r. hret (case r of Inl _ \<Rightarrow> None | Inr aps \<Rightarrow> find (app_password_matches (svScrypt sv) password) aps))"

definition app_credential :: "app_password \<Rightarrow> credential" where
  "app_credential ap = \<lparr>crKind = (if apPrivileged ap then CredentialPrivilegedAppPassword else CredentialAppPassword),
     crAppPasswordName = apName ap\<rparr>"

abbreviation bad_login :: response where
  "bad_login \<equiv> Unauthorized ''AuthenticationRequired'' ''invalid identifier or password''"

definition credential_for :: "('t, 'k) server \<Rightarrow> account \<Rightarrow> string \<Rightarrow> (world, credential) hd_step" where
  "credential_for sv acct password =
     (if VerifyPassword (svScrypt sv) password (acPasswordHash acct) = Inr True
      then hret \<lparr>crKind = CredentialPrimary, crAppPasswordName = ''''\<rparr>
      else hbind (verifyAppPassword sv (acDID acct) password)
             (\<lambda>ap. case ap of None \<Rightarrow> hstop bad_login | Some a \<Rightarrow> hret (app_credential a)))"

definition read_login :: "data \<Rightarrow> (string \<times> string) option" where
  "read_login v = Option.bind (str_field ''identifier'' v) (\<lambda>i. map_option (Pair i) (str_field ''password'' v))"

definition handleCreateSession :: "('t, 'k) server \<Rightarrow> request \<Rightarrow> world \<Rightarrow> response \<times> world" where
  "handleCreateSession sv rq = serve
     (hbind (decode_body (svJson sv) rq read_login malformed) (\<lambda>(identifier, password).
      hbind (guard (identifier \<noteq> '''' \<and> password \<noteq> '''') (InvalidRequest ''identifier and password are required'')) (\<lambda>_.
      hbind (attempt (on_acct (GetAccountByIdentifier (trim_prefix identifier ''at://''))) (\<lambda>_. bad_login)) (\<lambda>acct.
      hbind (credential_for sv acct password) (\<lambda>cred.
      hbind (guard (acStatus acct \<noteq> StatusTakenDown) (Unauthorized ''AccountTakedown'' ''account has been taken down'')) (\<lambda>_.
      issueSession sv 0 0 acct cred))))))"

section \<open>refreshSession, deleteSession, getSession\<close>

abbreviation refresh_revoked :: response where
  "refresh_revoked \<equiv> Unauthorized ''ExpiredToken'' ''refresh token has been revoked''"

definition refresh_valid :: "parsed_token \<Rightarrow> refresh_token \<Rightarrow> account \<Rightarrow> bool" where
  "refresh_valid p stored acct \<longleftrightarrow> \<not> (acStatus acct \<noteq> StatusActive \<or> ptAuthVersion p \<noteq> acAuthVersion acct
     \<or> rtAuthVersion stored \<noteq> ptAuthVersion p \<or> rtCredentialKind stored \<noteq> ptCredentialKind p
     \<or> rtAppPasswordName stored \<noteq> ptAppPasswordName p)"

definition handleRefreshSession :: "('t, 'k) server \<Rightarrow> request \<Rightarrow> world \<Rightarrow> response \<times> world" where
  "handleRefreshSession sv rq = serve
     (hbind (bearer rq) (\<lambda>tok.
      hbind (attempt_pure (ParseRefreshToken (svJwt sv) (svNow sv 0) (cfJWTSecret sv) tok)
        (\<lambda>_. Unauthorized ''ExpiredToken'' ''invalid or expired refresh token'')) (\<lambda>p.
      hbind (attempt (on_acct (GetRefreshToken (HashToken (svSha sv) (ptJTI p)))) (\<lambda>_. refresh_revoked)) (\<lambda>stored.
      hbind (attempt (on_acct (GetAccountByDID (ptDID p)))
        (\<lambda>_. Unauthorized ''AuthenticationRequired'' ''account not found'')) (\<lambda>acct.
      hbind (guard (refresh_valid p stored acct) refresh_revoked) (\<lambda>_.
      hbind (attempt (on_acct (ConsumeRefreshToken (svNow sv 1) (HashToken (svSha sv) (ptJTI p)) (ptDID p)
        (ptAuthVersion p))) (\<lambda>_. refresh_revoked)) (\<lambda>_.
      issueSession sv 2 0 acct \<lparr>crKind = ptCredentialKind p, crAppPasswordName = ptAppPasswordName p\<rparr>)))))))"

definition handleDeleteSession :: "('t, 'k) server \<Rightarrow> request \<Rightarrow> world \<Rightarrow> response \<times> world" where
  "handleDeleteSession sv rq = serve
     (hbind (bearer rq) (\<lambda>tok.
      case ParseRefreshToken (svJwt sv) (svNow sv 0) (cfJWTSecret sv) tok of
        Inl _ \<Rightarrow> hret empty_object
      | Inr p \<Rightarrow> hbind (attempt (on_acct (DeleteRefreshToken (HashToken (svSha sv) (ptJTI p))))
          (\<lambda>_. InternalServerError ''failed to delete session'')) (\<lambda>_. hret empty_object)))"

definition handleGetSession :: "('t, 'k) server \<Rightarrow> request \<Rightarrow> world \<Rightarrow> response \<times> world" where
  "handleGetSession sv rq = serve
     (hbind (requireAccessToken sv rq) (\<lambda>did.
      hbind (attempt (on_acct (GetAccountByDID did))
        (\<lambda>_. Unauthorized ''AuthenticationRequired'' ''account not found'')) (\<lambda>acct.
      hret (writeJSON 200 (DMap [(''handle'', DStr (acHandle acct)), (''did'', DStr (acDID acct)),
        (''active'', DBool (acStatus acct = StatusActive)), (''status'', DStr (statusOrEmpty (acStatus acct)))])))))"

definition handleDescribeServer :: "('t, 'k) server \<Rightarrow> request \<Rightarrow> world \<Rightarrow> response \<times> world" where
  "handleDescribeServer sv rq = serve (hret (writeJSON 200 (DMap [(''did'', DStr (ServiceDID sv)),
     (''availableUserDomains'', DList []), (''inviteCodeRequired'', DBool False),
     (''phoneVerificationReq'', DBool False), (''links'', DMap []), (''contact'', DMap [])])))"

definition handleResolveHandle :: "('t, 'k) server \<Rightarrow> request \<Rightarrow> world \<Rightarrow> response \<times> world" where
  "handleResolveHandle sv rq = serve
     (let handle = query_get rq ''handle'' in
      hbind (guard (handle \<noteq> '''') (InvalidRequest ''handle is required'')) (\<lambda>_.
      hbind (outcome (on_acct (GetAccountByHandle handle))) (\<lambda>r. case r of
        Inr acct \<Rightarrow> hret (writeJSON 200 (DMap [(''did'', DStr (acDID acct))]))
      | Inl _ \<Rightarrow>
          hbind (attempt_pure (svParseHandle sv handle) (\<lambda>_. InvalidRequest ''invalid handle'')) (\<lambda>h.
          hbind (attempt_pure (svResolveHandle sv h)
            (\<lambda>_. writeXRPCError 400 ''UnableToResolveHandle'' ''could not resolve handle'')) (\<lambda>did.
          hret (writeJSON 200 (DMap [(''did'', DStr did)])))))))"

section \<open>App passwords\<close>

text \<open>The groups of the generated password: \<^verbatim>\<open>raw[i:end]\<close> in steps of four.\<close>

definition app_password_text :: "bytes \<Rightarrow> string" where
  "app_password_text b = join_with ''-'' (chunks 4 (base32_encode_lower b))"

definition generateAppPassword :: "go_error + bytes \<Rightarrow> go_error + string" where
  "generateAppPassword rnd = map_sum id app_password_text rnd"

definition app_password_output :: "('t, 'k) server \<Rightarrow> string \<Rightarrow> string \<Rightarrow> int \<Rightarrow> bool \<Rightarrow> data" where
  "app_password_output sv name password created privileged = DMap
     ([(''name'', DStr name)] @ omitempty ''password'' password
      @ [(''createdAt'', DStr (time_text sv created))]
      @ (if privileged then [(''privileged'', DBool True)] else []))"

definition read_app_password :: "data \<Rightarrow> (string \<times> bool) option" where
  "read_app_password v = Option.bind (str_field ''name'' v) (\<lambda>n. map_option (Pair n) (bool_field ''privileged'' v))"

definition handleCreateAppPassword :: "('t, 'k) server \<Rightarrow> request \<Rightarrow> world \<Rightarrow> response \<times> world" where
  "handleCreateAppPassword sv rq = serve
     (hbind (requirePrivilegedAccessToken sv rq) (\<lambda>did.
      hbind (decode_body (svJson sv) rq read_app_password malformed) (\<lambda>(name, privileged).
      hbind (guard (name \<noteq> '''') (InvalidRequest ''name is required'')) (\<lambda>_.
      hbind (attempt_pure (generateAppPassword (svRand sv 0))
        (\<lambda>_. InternalServerError ''failed to generate password'')) (\<lambda>password.
      hbind (attempt_pure (HashPassword (svScrypt sv) (svRand sv 1) password)
        (\<lambda>_. InternalServerError ''failed to hash password'')) (\<lambda>hash.
      hbind (attempt (on_acct (CreateAppPassword \<lparr>apDID = did, apName = name, apPasswordHash = hash,
          apPrivileged = privileged, apCreatedAt = svNow sv 1\<rparr>))
        (\<lambda>_. InvalidRequest ''an app password with this name already exists'')) (\<lambda>_.
      hret (writeJSON 200 (app_password_output sv name password (svNow sv 1) privileged)))))))))"

definition handleListAppPasswords :: "('t, 'k) server \<Rightarrow> request \<Rightarrow> world \<Rightarrow> response \<times> world" where
  "handleListAppPasswords sv rq = serve
     (hbind (requirePrivilegedAccessToken sv rq) (\<lambda>did.
      hbind (attempt (on_acct (ListAppPasswords did)) (\<lambda>_. InternalServerError ''failed to list app passwords'')) (\<lambda>aps.
      hret (writeJSON 200 (DMap [(''passwords'', DList (map (\<lambda>ap.
        app_password_output sv (apName ap) '''' (apCreatedAt ap) (apPrivileged ap)) aps))])))))"

definition handleRevokeAppPassword :: "('t, 'k) server \<Rightarrow> request \<Rightarrow> world \<Rightarrow> response \<times> world" where
  "handleRevokeAppPassword sv rq = serve
     (hbind (requirePrivilegedAccessToken sv rq) (\<lambda>did.
      hbind (decode_body (svJson sv) rq (str_field ''name'') malformed) (\<lambda>name.
      hbind (attempt (on_acct (RevokeAppPassword did name)) (\<lambda>_. NotFound ''app password not found'')) (\<lambda>_.
      hret empty_object))))"

end
