(* ===== verification/Demo.thy ===== *)
theory Demo
  imports Session RepoSync
begin

text \<open>
  A concrete server for the witnesses: the account \<^verbatim>\<open>did:plc:a\<close> whose password starts with \<^verbatim>\<open>h\<close>, a
  token library that knows one access and one refresh token for it, and small instances of the other
  libraries.
\<close>

definition demo_cred :: credential where
  "demo_cred = \<lparr>crKind = CredentialPrimary, crAppPasswordName = ''''\<rparr>"

definition demo_tokens :: jwt_lib where
  "demo_tokens = \<lparr>
     jwt_sign = (\<lambda>secret c. Inr (if clScope c = scopeAccess then ''access'' else ''refresh'')),
     jwt_parse = (\<lambda>now kf tok. if kf ''HS256'' \<noteq> Inr ''s3cret'' then Inl (ErrMsg ''token is invalid'')
       else if tok = ''access'' \<and> now < 7200000000000 then Inr (access_claims 0 ''did:plc:a'' ''did:web:pds.test'' 1 demo_cred)
       else if tok = ''refresh'' \<and> now < 7776000000000000
         then Inr (refresh_claims 0 ''did:plc:a'' ''did:web:pds.test'' 1 demo_cred ''00'')
       else Inl (ErrMsg ''token is invalid''))\<rparr>"

text \<open>A reader that knows one document: any text that is not empty.\<close>

definition demo_json :: "data \<Rightarrow> bytes \<Rightarrow> json_read" where
  "demo_json v b = (if b = [] then JsonEOF else JsonVal v [])"

definition demo_server :: "((string \<times> cid) list, string) server" where
  "demo_server = \<lparr>cfHostname = ''pds.test'', cfPLCURL = ''https://plc.test'', cfAppviewURL = ''https://view.test'',
     cfAppviewDID = ''did:web:view.test'', cfJWTSecret = ''s3cret'', cfAdminPassword = ''admin'',
     svAdminNets = [], svVersion = ''devel'', svNow = (\<lambda>i. 5000000000), svTid = demo_times, svRand = (\<lambda>i. Inr [1]), svGenKey = (\<lambda>i. Inr ''genkey''),
     svScrypt = demo_scrypt, svJwt = demo_tokens, svSha = (\<lambda>b. b), svJson = demo_json DNull,
     svJsonText = (\<lambda>v. ''[]''), svJsonValue = (\<lambda>s. Some (DList [])),
     svBodyErr = None, svParseDid = demo_parse_did, svDidMethod = (\<lambda>s. ''plc''), svParseHandle = Inr, svParseNSID = Inr, svParseRKey = Inr,
     svParseKey = Inr, svPubKey = (\<lambda>k. Inr (''did:key:'' @ k)),
     svServiceAuth = (\<lambda>iss aud ttl lxm key. Inr ''service-token''),
     svValidate = (\<lambda>aud tok lxm. if tok = ''svc'' then Inr ''did:plc:new'' else Inl (ErrMsg ''bad token'')),
     svResolve = (\<lambda>safe did. Inl (ErrMsg ''not found'')), svLookupKey = (\<lambda>did. Inr (Inr (''did:key:k''))),
     svResolveHandle = (\<lambda>h. Inl (ErrMsg ''not found'')),
     svRecord = (\<lambda>v. case v of DMap kvs \<Rightarrow> Inr kvs | _ \<Rightarrow> Inl (ErrMsg ''not an object'')),
     svCidDecode = Inr, svPlcGet = (\<lambda>url. Inl (ErrMsg ''offline'')), svPlcPost = (\<lambda>url v. Inr (200, [])),
     svNewRequest = (\<lambda>m u. Inr ()), svUpstream = (\<lambda>t rq. Inl (ErrMsg ''offline'')),
     svCar = (\<lambda>b. Inl (ErrMsg ''no CAR'')), svVerifyStructure = (\<lambda>c. Inr ()), svVerifySig = (\<lambda>k c. Inr ()),
     svSignBytes = (\<lambda>k b. Inr b), svDumpObject = (\<lambda>v. Inr []), svLib = demo_lib, svWire = demo_wire\<rparr>"

definition demo_login :: data where
  "demo_login = DMap [(''identifier'', DStr ''a.test''), (''password'', DStr ''hunter2'')]"

definition demo_post :: "string \<Rightarrow> request" where
  "demo_post tok = demo_request\<lparr>rqHeaders := [(''Authorization'', ''Bearer '' @ tok)], rqBody := [1]\<rparr>"

definition demo_user :: account where
  "demo_user = demo_account\<lparr>acPasswordHash := ''scrypt$1$1$1$AA$aA''\<rparr>"

definition demo_home :: world where
  "demo_home = demo_world\<lparr>wAcct := demo_db\<lparr>accounts := [demo_user], refresh_tokens := [demo_refresh ''3030'']\<rparr>\<rparr>"

lemma demo_hash [simp]: "HashToken (\<lambda>b. b) ''00'' = ''3030''" "hex_encode [1] = ''01''" "HashToken (\<lambda>b. b) ''01'' = ''3031''"
  by code_simp+

lemma demo_password [simp]: "VerifyPassword demo_scrypt ''hunter2'' (acPasswordHash demo_user) = Inr True"
proof -
  have "map_option (map uint) (base64_decode ''aA'') = Some [104] \<and> map_option (map uint) (base64_decode ''AA'') = Some [0]
      \<and> split_on (CHR ''$'') (acPasswordHash demo_user) = [''scrypt'', ''1'', ''1'', ''1'', ''AA'', ''aA'']
      \<and> Sscanf_d ''1'' = Some 1 \<and> map uint (bytes_of ''hunter2'') = [104, 117, 110, 116, 101, 114, 50]"
    by code_simp
  then obtain w s p ps where h: "base64_decode ''aA'' = Some [w]" "uint w = 104" "base64_decode ''AA'' = Some [s]"
    "split_on (CHR ''$'') (acPasswordHash demo_user) = [''scrypt'', ''1'', ''1'', ''1'', ''AA'', ''aA'']"
    "Sscanf_d ''1'' = Some 1" "bytes_of ''hunter2'' = p # ps" "uint p = 104"
    by (auto simp: map_eq_Cons_conv)
  have "p = w" using h(2,7) by (simp add: word_uint_eq_iff)
  then show ?thesis using h by (simp add: VerifyPassword_def demo_scrypt_def)
qed

text \<open>How the steps of a handler evaluate on it.\<close>

lemma demo_server_simps [simp]:
  "svJwt demo_server = demo_tokens" "svNow demo_server i = 5000000000" "svTid demo_server = demo_times" "svRand demo_server i = Inr [1]"
  "svScrypt demo_server = demo_scrypt" "svSha demo_server = (\<lambda>b. b)" "cfJWTSecret demo_server = ''s3cret''"
  "cfHostname demo_server = ''pds.test''" "svParseDid demo_server = demo_parse_did" "svParseHandle demo_server = Inr"
  "svLib demo_server = demo_lib" "svWire demo_server = demo_wire"
  by (simp_all add: demo_server_def)

lemma demo_user_simps [simp]:
  "acDID demo_user = ''did:plc:a''" "acHandle demo_user = ''a.test''" "acStatus demo_user = StatusActive"
  "acAuthVersion demo_user = 1" "acSigningKey demo_user = ''sk''" "acRotationKey demo_user = ''rk''"
  by (simp_all add: demo_user_def demo_account_def StatusActive_def)

lemma demo_home_simps [simp]:
  "accounts (wAcct demo_home) = [demo_user]" "refresh_tokens (wAcct demo_home) = [demo_refresh ''3030'']"
  "app_passwords (wAcct demo_home) = []" "tape (wAcct demo_home) = []"
  "reserved_signing_keys (wAcct demo_home) = []" "admin_tokens (wAcct demo_home) = []"
  by (simp_all add: demo_home_def demo_world_def demo_db_def empty_acctdb_def)

lemmas handler_simps = hbind_def attempt_def attempt_pure_def outcome_def guard_def serve_def on_acct_def decode_body_def
  bearer_def bearerToken_def

lemmas exec_simps = gobind_def wrapf_def stmt_def exec_defs Let_def sql_delete_def sql_insert_def checkRowsAffected_def

lemma demo_json_decoded [simp]: "decodeJSON (demo_json v) (demo_post tok) = Some v"
  by (simp add: decodeJSON_def demo_json_def demo_post_def maxJSONBodyBytes_def)

lemma read_demo_login [simp]: "read_login demo_login = Some (''a.test'', ''hunter2'')"
  by code_simp

lemma issue_demo:
  "IssueAccessToken demo_tokens now s did svc v c = Inr (''access'', now + AccessTokenTTL)"
  "IssueRefreshToken demo_tokens now (Inr [1]) s did svc v c = Inr (''refresh'', ''01'', now + RefreshTokenTTL)"
  by (simp_all add: IssueAccessToken_def IssueRefreshToken_def demo_tokens_def access_claims_def refresh_claims_def)

lemma demo_login_runs:
  "rsStatus (fst (handleCreateSession (demo_server\<lparr>svJson := demo_json demo_login\<rparr>) (demo_post '''') demo_home)) = 200"
  by (simp add: handleCreateSession_def handler_simps exec_simps
      GetAccountByIdentifier_def GetAccountByHandle_def scanAccount_def trim_prefix_def has_prefix_def
      credential_for_def issueSession_def issue_demo CreateRefreshToken_def refresh_row_def demo_refresh_def
      refresh_clash_def rfc3339_def)

lemma demo_bearer [simp]: "header_get (demo_post tok) ''Authorization'' = ''Bearer '' @ tok"
  by (simp add: header_get_def first_value_def demo_post_def)

lemma demo_parse:
  "ParseRefreshToken demo_tokens 5000000000 ''s3cret'' ''refresh'' = Inr \<lparr>ptDID = ''did:plc:a'', ptJTI = ''00'',
     ptScope = scopeRefresh, ptAuthVersion = 1, ptCredentialKind = CredentialPrimary, ptAppPasswordName = ''''\<rparr>"
  "ParseAccessToken demo_tokens 5000000000 ''s3cret'' ''access'' = Inr \<lparr>ptDID = ''did:plc:a'', ptJTI = '''',
     ptScope = scopeAccess, ptAuthVersion = 1, ptCredentialKind = CredentialPrimary, ptAppPasswordName = ''''\<rparr>"
  by (simp_all add: ParseRefreshToken_def ParseAccessToken_def parse_token_def demo_tokens_def hmac_keyfunc_def
     refresh_claims_def access_claims_def demo_cred_def CredentialPrimary_def)

lemma demo_principal:
  "requirePrincipal (demo_server\<lparr>svJson := j\<rparr>) (demo_post ''access'') priv ad demo_home = (Inr \<lparr>ptDID = ''did:plc:a'', ptJTI = '''',
     ptScope = scopeAccess, ptAuthVersion = 1, ptCredentialKind = CredentialPrimary, ptAppPasswordName = ''''\<rparr>, demo_home)"
  by (simp add: requirePrincipal_def handler_simps exec_simps GetAccountByDID_def scanAccount_def check_app_credential_def
    trim_prefix_def has_prefix_def demo_parse privileged_kind_def statusPermitted_def demo_home_def demo_world_def demo_db_def empty_acctdb_def)

lemma demo_refresh_runs:
  "rsStatus (fst (handleRefreshSession demo_server (demo_post ''refresh'') demo_home)) = 200"
  by (simp add: handleRefreshSession_def handler_simps exec_simps demo_parse GetRefreshToken_def
      GetAccountByDID_def scanAccount_def trim_prefix_def has_prefix_def refresh_valid_def ConsumeRefreshToken_def
      issueSession_def issue_demo CreateRefreshToken_def refresh_row_def demo_refresh_def
      refresh_clash_def rfc3339_def CredentialPrimary_def)

section \<open>The server with the account's store open\<close>

lemma demo_server_libs [simp]:
  "svJsonText demo_server v = ''[]''" "svJsonValue demo_server t = Some (DList [])" "svBodyErr demo_server = None"
  "svParseNSID demo_server = Inr" "svParseRKey demo_server = Inr" "svParseKey demo_server = Inr"
  "svServiceAuth demo_server iss aud ttl lxm key = Inr ''service-token''" "svAdminNets demo_server = []"
  "cfAdminPassword demo_server = ''admin''"
  by (simp_all add: demo_server_def)

lemma demo_valid: "validDID demo_parse_did ''did:plc:a'' = Inr ()"
  by code_simp

lemma demo_manager: "wMgr demo_home = empty_manager []" by (simp add: demo_home_def demo_world_def)

text \<open>The home once the account's store is open and holds \<open>d\<close>.\<close>

definition demo_opened :: "actordb \<Rightarrow> world" where
  "demo_opened d = demo_home\<lparr>wMgr := \<lparr>tape = [], disk = [''did:plc:a'' \<mapsto> d], fresh = (\<lambda>_. []), blob_dirs = [''did:plc:a''],
     cached = [''did:plc:a''], locks = []\<rparr>\<rparr>"

lemma demo_open: "actors_Get (demo_server\<lparr>svJson := j\<rparr>) ''did:plc:a'' demo_home = (Inr (), demo_opened (empty_actordb []))"
  by (simp add: actors_Get_def on_mgr_def mgr_Get_def demo_valid demo_manager Open_def gobind_def wrapf_def stmt_def create_db_def
     empty_manager_def demo_opened_def)

lemma demo_reopen: "actors_Get (demo_server\<lparr>svJson := j\<rparr>) ''did:plc:a'' (demo_opened d) = (Inr (), demo_opened d)"
  by (simp add: actors_Get_def on_mgr_def mgr_Get_def demo_valid demo_opened_def)

lemma demo_opened_op: "actor_op ''did:plc:a'' m (demo_opened d) = (case m d of (r, d') \<Rightarrow> (r, demo_opened d'))"
  by (simp add: actor_op_def on_actor_def on_mgr_def demo_opened_def split: prod.split)

lemma demo_principal_opened:
  "requirePrincipal (demo_server\<lparr>svJson := j\<rparr>) (demo_post ''access'') priv ad (demo_opened d) = (Inr \<lparr>ptDID = ''did:plc:a'', ptJTI = '''',
     ptScope = scopeAccess, ptAuthVersion = 1, ptCredentialKind = CredentialPrimary, ptAppPasswordName = ''''\<rparr>, demo_opened d)"
  by (simp add: requirePrincipal_def handler_simps exec_simps GetAccountByDID_def scanAccount_def check_app_credential_def demo_opened_def
    trim_prefix_def has_prefix_def demo_parse privileged_kind_def statusPermitted_def demo_home_def demo_world_def demo_db_def empty_acctdb_def)

end
