(* ===== verification/SessionSpec.thy ===== *)
theory SessionSpec
  imports Demo
begin

text \<open>
  What sessions guarantee: who a request speaks for, that revocation is final, that a login is
  justified by a password and a refresh neither survives its use nor gains privileges.
\<close>

section \<open>The reads and writes behind a session\<close>

lemma GetAccountByDID_ok:
  "GetAccountByDID did d = (Inr a, d') \<Longrightarrow> acct_lookup (accounts d) did = Some a \<and> d' = d\<lparr>tape := tl (tape d)\<rparr>"
  by (auto simp: GetAccountByDID_def gobind_Inr_iff query_row_def stmt_Inr_iff scanAccount_def acct_lookup_def
      split: option.splits)

lemma GetAccountByHandle_ok:
  "GetAccountByHandle h d = (Inr a, d') \<Longrightarrow> a \<in> set (accounts d) \<and> acHandle a = h \<and> d' = d\<lparr>tape := tl (tape d)\<rparr>"
  by (auto simp: GetAccountByHandle_def gobind_Inr_iff query_row_def stmt_Inr_iff scanAccount_def
      dest: find_SomeD split: option.splits)

lemma GetAccountByIdentifier_ok:
  assumes "GetAccountByIdentifier i d = (Inr a, d')"
  shows "a \<in> set (accounts d) \<and> (acDID a = i \<or> acHandle a = i) \<and> d' = d\<lparr>tape := tl (tape d)\<rparr>"
  using assms GetAccountByDID_ok [of i d a d'] GetAccountByHandle_ok [of i d a d'] acct_lookup_SomeD
  by (auto simp: GetAccountByIdentifier_def split: if_splits)

lemma ListAppPasswords_ok:
  "ListAppPasswords did d = (Inr aps, d') \<Longrightarrow>
     set aps = {ap \<in> set (app_passwords d). apDID ap = did} \<and> d' = d\<lparr>tape := tl (tape d)\<rparr>"
  by (auto simp: ListAppPasswords_def query_row_def stmt_Inr_iff)

lemma GetRefreshToken_ok:
  "GetRefreshToken h d = (Inr t, d') \<Longrightarrow> t \<in> set (refresh_tokens d) \<and> rtTokenHash t = h \<and> d' = d\<lparr>tape := tl (tape d)\<rparr>"
  by (auto simp: GetRefreshToken_def query_row_def stmt_def Let_def dest: find_SomeD
      split: option.splits if_splits prod.splits sum.splits)

definition stored_row :: "refresh_token \<Rightarrow> refresh_token" where
  "stored_row t = t\<lparr>rtExpiresAt := rfc3339 (rtExpiresAt t), rtCreatedAt := rfc3339 (rtCreatedAt t)\<rparr>"

lemma CreateRefreshToken_ok:
  assumes "CreateRefreshToken now t d = (Inr (), d')"
  shows "\<exists>tp. d' = d\<lparr>tape := tp, refresh_tokens := filter (\<lambda>r. \<not> (rtDID r = rtDID t \<and> rtExpiresAt r \<le> rfc3339 now))
    (refresh_tokens d) @ [stored_row t]\<rparr>"
  using assms
  by (auto simp: CreateRefreshToken_def gobind_Inr_iff exec_delete_def exec_insert_def stmt_Inr_iff
      sql_delete_def stored_row_def dest!: sql_insertD split: sum.splits)

lemma ConsumeRefreshToken_ok:
  assumes "ConsumeRefreshToken now h did av d = (Inr (), d')" "acct_inv d"
  shows "(\<exists>tp. d' = d\<lparr>tape := tp, refresh_tokens := filter (\<lambda>r. rtTokenHash r \<noteq> h) (refresh_tokens d)\<rparr>)
    \<and> (\<exists>r \<in> set (refresh_tokens d). rtTokenHash r = h \<and> rtDID r = did \<and> rtAuthVersion r = av \<and> rfc3339 now < rtExpiresAt r)"
proof -
  let ?p = "\<lambda>r. rtTokenHash r = h \<and> rtDID r = did \<and> rtAuthVersion r = av \<and> rfc3339 now < rtExpiresAt r"
  have d': "d' = d\<lparr>tape := tl (tape d), refresh_tokens := filter (\<lambda>r. \<not> ?p r) (refresh_tokens d)\<rparr>"
    and ex: "\<exists>r \<in> set (refresh_tokens d). ?p r"
    using assms(1)
    by (auto simp: ConsumeRefreshToken_def gobind_Inr_iff exec_delete_def stmt_Inr_iff checkRowsAffected_def
        sql_delete_def filter_empty_conv split: if_splits)
  obtain r where r: "r \<in> set (refresh_tokens d)" "?p r" using ex by blast
  have "distinct (map rtTokenHash (refresh_tokens d))" using assms(2) by (simp add: acct_inv_def no_clash_keys)
  then have "s = r" if "s \<in> set (refresh_tokens d)" "rtTokenHash s = h" for s
    using that r by (metis distinct_map inj_onD)
  then have "filter (\<lambda>r. \<not> ?p r) (refresh_tokens d) = filter (\<lambda>r. rtTokenHash r \<noteq> h) (refresh_tokens d)"
    using r by (intro filter_cong) auto
  then show ?thesis using d' ex by auto
qed

text \<open>The state after a step that only reads \<^verbatim>\<open>accounts.db\<close>.\<close>

definition same_tables :: "world \<Rightarrow> world \<Rightarrow> bool" where
  "same_tables w w' \<longleftrightarrow> (\<exists>t. w' = w\<lparr>wAcct := (wAcct w)\<lparr>tape := t\<rparr>\<rparr>)"

lemma same_tables_refl [simp]: "same_tables w w"
  unfolding same_tables_def by (rule exI [of _ "tape (wAcct w)"]) simp

lemma same_tables_tape [simp]: "same_tables w (w\<lparr>wAcct := (wAcct w)\<lparr>tape := t\<rparr>\<rparr>)"
  by (auto simp: same_tables_def)

lemma same_tables_trans [trans]: "same_tables w w' \<Longrightarrow> same_tables w' w'' \<Longrightarrow> same_tables w w''"
  by (auto simp: same_tables_def)

section \<open>The principal\<close>

text \<open>What an accepted token stands for in a database.\<close>

definition live_principal :: "acctdb \<Rightarrow> parsed_token \<Rightarrow> bool \<Rightarrow> bool" where
  "live_principal d p allowDeactivated \<longleftrightarrow>
     (\<exists>a. acct_lookup (accounts d) (ptDID p) = Some a \<and> acAuthVersion a = ptAuthVersion p
        \<and> (acStatus a = StatusActive \<or> allowDeactivated \<and> acStatus a = StatusDeactivated))
     \<and> (ptAppPasswordName p \<noteq> '''' \<longrightarrow> (\<exists>ap \<in> set (app_passwords d). apDID ap = ptDID p
          \<and> apName ap = ptAppPasswordName p \<and> crKind (app_credential ap) = ptCredentialKind p))"

lemma matching_credential:
  "matchingAppCredential aps p \<Longrightarrow>
     \<exists>ap \<in> set aps. apName ap = ptAppPasswordName p \<and> crKind (app_credential ap) = ptCredentialKind p"
  by (induction aps) (auto simp: app_credential_def split: if_splits)

lemma on_acct_lift:
  "on_acct m w = (r, w') \<Longrightarrow> (\<And>d. m (wAcct w) = (r, d) \<Longrightarrow> d = (wAcct w)\<lparr>tape := tl (tape (wAcct w))\<rparr>) \<Longrightarrow> same_tables w w'"
  by (auto simp: same_tables_def)

lemma account_step:
  assumes "attempt (on_acct (GetAccountByDID did)) f w = (Inr a, w')"
  shows "same_tables w w' \<and> acct_lookup (accounts (wAcct w)) did = Some a"
  using assms GetAccountByDID_ok [of did "wAcct w" a] by auto

lemma check_app_credential_ok:
  assumes "check_app_credential p w = (Inr u, w')"
  shows "same_tables w w' \<and> (ptAppPasswordName p \<noteq> '''' \<longrightarrow> (\<exists>ap \<in> set (app_passwords (wAcct w)). apDID ap = ptDID p
    \<and> apName ap = ptAppPasswordName p \<and> crKind (app_credential ap) = ptCredentialKind p))"
proof (cases "ptAppPasswordName p = ''''")
  case True
  then show ?thesis using assms by (simp add: check_app_credential_def)
next
  case False
  then obtain aps d where aps: "ListAppPasswords (ptDID p) (wAcct w) = (Inr aps, d)" "w' = w\<lparr>wAcct := d\<rparr>"
    and m: "matchingAppCredential aps p"
    using assms by (auto simp: check_app_credential_def hbind_Inr_iff)
  then show ?thesis using ListAppPasswords_ok [OF aps(1)] matching_credential [OF m] by auto
qed

lemma same_tables_keeps:
  "same_tables w w' \<Longrightarrow> accounts (wAcct w') = accounts (wAcct w)"
  "same_tables w w' \<Longrightarrow> app_passwords (wAcct w') = app_passwords (wAcct w)"
  "same_tables w w' \<Longrightarrow> refresh_tokens (wAcct w') = refresh_tokens (wAcct w)"
  by (auto simp: same_tables_def)

lemma requirePrincipal_ok:
  assumes "requirePrincipal sv rq priv ad w = (Inr p, w')"
  shows "same_tables w w' \<and> (\<exists>tok. bearerToken rq = Some tok
    \<and> ParseAccessToken (svJwt sv) (svNow sv 0) (cfJWTSecret sv) tok = Inr p)
    \<and> live_principal (wAcct w) p ad \<and> (priv \<longrightarrow> privileged_kind (ptCredentialKind p))"
proof -
  obtain tok a w1 u where tok: "bearerToken rq = Some tok"
    and parse: "ParseAccessToken (svJwt sv) (svNow sv 0) (cfJWTSecret sv) tok = Inr p"
    and acct: "attempt (on_acct (GetAccountByDID (ptDID p))) (\<lambda>_. session_revoked) w = (Inr a, w1)"
    and st: "statusPermitted (acStatus a) ad" "acAuthVersion a = ptAuthVersion p"
    and app: "check_app_credential p w1 = (Inr u, w')" and pr: "priv \<longrightarrow> privileged_kind (ptCredentialKind p)"
    using assms by (auto simp: requirePrincipal_def hbind_Inr_iff bearer_def split: option.splits)
  note a = account_step [OF acct] and ap = check_app_credential_ok [OF app]
  have "live_principal (wAcct w) p ad"
    using a ap st same_tables_keeps(2) by (fastforce simp: live_principal_def statusPermitted_def split: if_splits)
  then show ?thesis using tok parse pr a ap same_tables_trans by blast
qed

lemma preserves_read_acct [preserves_intros]:
  assumes "\<And>d r d'. m d = (r, d') \<Longrightarrow> d' = d\<lparr>tape := tl (tape d)\<rparr>"
  shows "preserves (same_tables w0) (on_acct m)"
proof (rule preservesI)
  fix w r w' assume "same_tables w0 w" "on_acct m w = (r, w')"
  then show "same_tables w0 w'" using on_acct_lift [of m w r w'] assms same_tables_trans by blast
qed

lemma query_row_tape: "query_row f d = (r, d') \<Longrightarrow> d' = d\<lparr>tape := tl (tape d)\<rparr>"
  by (auto simp: query_row_def stmt_def Let_def split: if_splits)

lemma scanAccount_state: "scanAccount x s = (r, s') \<Longrightarrow> s' = s"
  by (auto simp: scanAccount_def split: option.splits)

lemma reads_tape:
  "GetAccountByDID did d = (r, d') \<Longrightarrow> d' = d\<lparr>tape := tl (tape d)\<rparr>"
  "GetAccountByHandle h d = (r, d') \<Longrightarrow> d' = d\<lparr>tape := tl (tape d)\<rparr>"
  "ListAppPasswords did d = (r2, d') \<Longrightarrow> d' = d\<lparr>tape := tl (tape d)\<rparr>"
  by (auto simp: GetAccountByDID_def GetAccountByHandle_def ListAppPasswords_def gobind_def wrapf_def
      dest!: query_row_tape scanAccount_state split: prod.splits sum.splits)

lemma keeps_bearer [keeps_intros]: "keeps P (bearer rq)"
  by (auto simp: bearer_def intro: keeps_intros split: option.split)

lemma requirePrincipal_untouched [keeps_intros]: "keeps (same_tables w0) (requirePrincipal sv rq priv ad)"
  unfolding requirePrincipal_def check_app_credential_def
  by (intro keeps_intros preserves_intros) (auto dest: reads_tape)

lemma stops_bearer [stops_intros]: "401 \<in> S \<Longrightarrow> stops_with S (bearer rq)"
  unfolding bearer_def by (intro stops_intros) simp_all

lemma stops_requirePrincipal [stops_intros]:
  "{401, 403} \<subseteq> S \<Longrightarrow> stops_with S (requirePrincipal sv rq priv ad)"
  unfolding requirePrincipal_def check_app_credential_def by (intro stops_intros) simp_all

lemma requirePrincipal_status:
  "requirePrincipal sv rq priv ad w = (Inl r, w') \<Longrightarrow> rsStatus r \<in> {401, 403}"
  using stops_requirePrincipal [of "{401, 403}"] by (simp add: stops_with_def) blast

text \<open>C28. A request is let in only for who it can prove to be: its bearer token parses as an access
  token, the account it names exists with the token's auth version and is active (or deactivated,
  where the endpoint allows that; never taken down), a session opened with an app password still has
  that app password with the same privilege, and a privileged endpoint is never reached by an
  ordinary app password. Whatever the outcome, no table changes.\<close>

theorem principal_sound:
  "case requirePrincipal sv rq priv ad w of
     (Inr p, w') \<Rightarrow> same_tables w w' \<and> live_principal (wAcct w) p ad
        \<and> Some p = Option.bind (bearerToken rq) (\<lambda>tok.
            case ParseAccessToken (svJwt sv) (svNow sv 0) (cfJWTSecret sv) tok of Inl _ \<Rightarrow> None | Inr q \<Rightarrow> Some q)
        \<and> (if priv then privileged_kind (ptCredentialKind p) else True)
   | (Inl r, w') \<Rightarrow> same_tables w w' \<and> rsStatus r \<in> {401, 403}"
proof (cases "requirePrincipal sv rq priv ad w")
  case (Pair x w')
  have u: "same_tables w w'" using keepsE [OF requirePrincipal_untouched Pair, of w] by simp
  show ?thesis
  proof (cases x)
    case (Inl r)
    have "rsStatus r \<in> {401, 403}" using requirePrincipal_status Pair Inl by blast
    then show ?thesis using Pair u Inl by auto
  next
    case (Inr p)
    show ?thesis using requirePrincipal_ok [OF Pair [unfolded Inr]] Pair Inr by auto
  qed
qed

section \<open>Revocation\<close>

text \<open>C29. Revocation reaches every session: after a password reset or a status change of an account, no
  access token that was issued for it before is accepted again, by any endpoint, at any time and
  after any further history of the store, as long as the account is not deleted. (An account that is
  deleted and created again for the same DID starts over at auth version 1.)\<close>

theorem revoked_session_stays_out:
  assumes "IssueAccessToken (svJwt sv) t0 (cfJWTSecret sv) did svc issued cred = Inr (tok, exp)"
    and "jwt_faithful (svJwt sv) (cfJWTSecret sv) (access_claims t0 did svc issued cred) tok"
    and "auth_version d did = Some v" "issued \<le> v"
    and "oper = OpSetPasswordHash did h \<or> oper = OpSetStatus did st"
    and "store_exec now oper d = (Inr (), d')"
    and "OpDeleteAccount did \<notin> snd ` set later" "wAcct w = store_run later d'"
    and "bearerToken rq = Some tok"
  shows "\<exists>r w'. requirePrincipal sv rq priv ad w = (Inl r, w') \<and> rsStatus r \<in> {401, 403}"
proof -
  have version: "version_at_least did (v + 1) (wAcct w)"
    using bump_version [OF assms(3,6,5)] version_at_least_run [OF assms(7), of "v + 1" d'] assms(8)
    by (auto simp: version_at_least_def)
  have parse: "ptDID p = did \<and> ptAuthVersion p = issued"
    if parsed: "ParseAccessToken (svJwt sv) now (cfJWTSecret sv) tok = Inr p" for now p
  proof -
    have kf: "hmac_keyfunc (cfJWTSecret sv) ''HS256'' = Inr (cfJWTSecret sv)" by (simp add: hmac_keyfunc_def)
    obtain c where c: "jwt_parse (svJwt sv) now (hmac_keyfunc (cfJWTSecret sv)) tok = Inr c"
      "clSubject c = ptDID p" "clAuthVersion c = ptAuthVersion p"
      using parse_tokenD [of "svJwt sv" now "cfJWTSecret sv" tok scopeAccess p] parsed
      by (auto simp: ParseAccessToken_def)
    then have "c = access_claims t0 did svc issued cred"
      using assms(2) kf unfolding jwt_faithful_def by (metis Inl_Inr_False Inr_inject)
    then show ?thesis using c by (simp add: access_claims_def)
  qed
  obtain x w' where run: "requirePrincipal sv rq priv ad w = (x, w')" by fastforce
  have False if "x = Inr p" for p
  proof -
    have "live_principal (wAcct w) p ad" "ptDID p = did" "ptAuthVersion p = issued"
      using requirePrincipal_ok [OF run [unfolded that]] assms(9) parse by auto
    then have "auth_version (wAcct w) did = Some issued" by (auto simp: live_principal_def auth_version_def)
    then show False using version assms(4) by (auto simp: version_at_least_def)
  qed
  then obtain r where "x = Inl r" by (cases x) auto
  then show ?thesis using run requirePrincipal_status by blast
qed

theorem revoked_session_stays_out_witness:
  "\<exists>r w'. requirePrincipal demo_server (demo_post ''access'') True True
     (demo_home\<lparr>wAcct := snd (store_exec 5 (OpSetStatus ''did:plc:a'' ''active'') (wAcct demo_home))\<rparr>) = (Inl r, w')
     \<and> rsStatus r \<in> {401, 403}"
proof (rule revoked_session_stays_out [where ?t0.0 = 0 and issued = 1 and cred = demo_cred and v = 1 and later = "[]"
      and now = 5 and did = "''did:plc:a''" and svc = "''did:web:pds.test''" and d = "wAcct demo_home"
      and oper = "OpSetStatus ''did:plc:a'' ''active''" and st = "''active''" and h = "''''"])
  show "IssueAccessToken (svJwt demo_server) 0 (cfJWTSecret demo_server) ''did:plc:a'' ''did:web:pds.test'' 1 demo_cred
      = Inr (''access'', 0 + AccessTokenTTL)"
    by (simp add: issue_demo)
  show "jwt_faithful (svJwt demo_server) (cfJWTSecret demo_server)
      (access_claims 0 ''did:plc:a'' ''did:web:pds.test'' 1 demo_cred) ''access''"
    by (simp add: jwt_faithful_def demo_tokens_def access_claims_def numeric_date_def AccessTokenTTL_def nanos_def)
  show "store_exec 5 (OpSetStatus ''did:plc:a'' ''active'') (wAcct demo_home)
      = (Inr (), snd (store_exec 5 (OpSetStatus ''did:plc:a'' ''active'') (wAcct demo_home)))"
    by (simp add: SetStatus_def exec_simps sql_update_def)
qed (simp_all add: auth_version_def acct_lookup_def bearerToken_def trim_prefix_def has_prefix_def)

section \<open>Logging in\<close>

definition row_for :: "account \<Rightarrow> credential \<Rightarrow> refresh_token \<Rightarrow> bool" where
  "row_for a cred row \<longleftrightarrow> rtDID row = acDID a \<and> rtAuthVersion row = acAuthVersion a
     \<and> rtCredentialKind row = crKind cred \<and> rtAppPasswordName row = crAppPasswordName cred"

text \<open>The DID for which a response hands out tokens.\<close>

definition granted_did :: "response \<Rightarrow> string option" where
  "granted_did r = (case rsBody r of
     Json (DMap kvs) \<Rightarrow> if rsStatus r \<noteq> 200 \<or> map_of kvs ''accessJwt'' = None then None else data_string kvs ''did''
   | _ \<Rightarrow> None)"

lemma granted_200: "granted_did r = Some did \<Longrightarrow> rsStatus r = 200"
  by (auto simp: granted_did_def split: body.splits data.splits if_splits)

text \<open>The two tokens of a response are signed over claims that say what the stored row of the session says:
  who, at which auth version and by which credential; the access token lives two hours from the clock
  reading \<open>i\<close>, the refresh token 90 days from the next one, and the row holds the hash of its id.\<close>

definition response_field :: "response \<Rightarrow> string \<Rightarrow> string option" where
  "response_field r k = (case rsBody r of Json (DMap kvs) \<Rightarrow> data_string kvs k | _ \<Rightarrow> None)"

definition tokens_match :: "('t, 'k) server \<Rightarrow> nat \<Rightarrow> response \<Rightarrow> refresh_token \<Rightarrow> bool" where
  "tokens_match sv i r row \<longleftrightarrow> (\<exists>access refresh jti.
     response_field r ''accessJwt'' = Some access \<and> response_field r ''refreshJwt'' = Some refresh
     \<and> rtTokenHash row = HashToken (svSha sv) jti
     \<and> jwt_sign (svJwt sv) (cfJWTSecret sv) \<lparr>clScope = ''com.atproto.access'', clAuthVersion = rtAuthVersion row,
         clCredentialKind = rtCredentialKind row, clAppPasswordName = rtAppPasswordName row, clSubject = rtDID row,
         clAudience = [ServiceDID sv], clIssuedAt = numeric_date (svNow sv i),
         clExpiresAt = numeric_date (svNow sv i + 2 * 3600 * 1000000000), clID = ''''\<rparr> = Inr access
     \<and> jwt_sign (svJwt sv) (cfJWTSecret sv) \<lparr>clScope = ''com.atproto.refresh'', clAuthVersion = rtAuthVersion row,
         clCredentialKind = rtCredentialKind row, clAppPasswordName = rtAppPasswordName row, clSubject = rtDID row,
         clAudience = [ServiceDID sv], clIssuedAt = numeric_date (svNow sv (i + 1)),
         clExpiresAt = numeric_date (svNow sv (i + 1) + 90 * 24 * 3600 * 1000000000), clID = jti\<rparr> = Inr refresh)"

lemma issueSession_ok:
  assumes "issueSession sv i j acct cred w = (Inr r, w')"
  shows "rsStatus r = 200 \<and> granted_did r = Some (acDID acct) \<and> (\<exists>tp kept row. row_for acct cred row \<and> tokens_match sv i r row
    \<and> w' = w\<lparr>wAcct := (wAcct w)\<lparr>tape := tp, refresh_tokens := filter kept (refresh_tokens (wAcct w)) @ [row]\<rparr>\<rparr>)"
proof -
  obtain access e refresh jti exp d where create:
      "CreateRefreshToken (svNow sv (i + 3)) (refresh_row sv (i + 2) acct cred jti exp) (wAcct w) = (Inr (), d)"
    and w': "w' = w\<lparr>wAcct := d\<rparr>" and r: "r = writeJSON 200 (session_output access refresh acct)"
    and minted: "IssueAccessToken (svJwt sv) (svNow sv i) (cfJWTSecret sv) (acDID acct) (ServiceDID sv) (acAuthVersion acct) cred
        = Inr (access, e)"
      "IssueRefreshToken (svJwt sv) (svNow sv (i + 1)) (svRand sv j) (cfJWTSecret sv) (acDID acct) (ServiceDID sv)
        (acAuthVersion acct) cred = Inr (refresh, jti, exp)"
    using assms by (auto simp: issueSession_def hbind_Inr_iff split: prod.splits)
  have "row_for acct cred (stored_row (refresh_row sv (i + 2) acct cred jti exp))"
    by (simp add: row_for_def stored_row_def refresh_row_def)
  moreover have "tokens_match sv i r (stored_row (refresh_row sv (i + 2) acct cred jti exp))"
    using minted
    by (auto simp: tokens_match_def r response_field_def writeJSON_def session_output_def data_string_def omitempty_def
        stored_row_def refresh_row_def IssueAccessToken_def IssueRefreshToken_def access_claims_def refresh_claims_def
        scopeAccess_def scopeRefresh_def AccessTokenTTL_def RefreshTokenTTL_def nanos_def Let_def split: sum.splits)
  moreover have "granted_did r = Some (acDID acct)"
    by (simp add: r granted_did_def writeJSON_def session_output_def data_string_def omitempty_def)
  ultimately show ?thesis using CreateRefreshToken_ok [OF create] w' r by auto
qed

text \<open>What a session row says about the credential behind it.\<close>

definition justified_by :: "scrypt_fn \<Rightarrow> acctdb \<Rightarrow> string \<Rightarrow> account \<Rightarrow> refresh_token \<Rightarrow> bool" where
  "justified_by scrypt d password a row \<longleftrightarrow>
     rtDID row = acDID a \<and> rtAuthVersion row = acAuthVersion a
     \<and> (if rtCredentialKind row = CredentialPrimary then VerifyPassword scrypt password (acPasswordHash a) = Inr True
        else \<exists>ap \<in> set (app_passwords d). apDID ap = acDID a \<and> apName ap = rtAppPasswordName row
          \<and> VerifyPassword scrypt password (apPasswordHash ap) = Inr True
          \<and> rtCredentialKind row = (if apPrivileged ap then CredentialPrivilegedAppPassword else CredentialAppPassword))"

lemma verifyAppPassword_ok:
  assumes "verifyAppPassword sv did password w = (Inr (Some ap), w')"
  shows "\<exists>aps. on_acct (ListAppPasswords did) w = (Inr aps, w') \<and> find (app_password_matches (svScrypt sv) password) aps = Some ap"
proof (cases "on_acct (ListAppPasswords did) w")
  case (Pair x w1)
  then show ?thesis using assms
    by (cases x) (simp_all add: verifyAppPassword_def hbind_def outcome_def del: on_acct_eq)
qed

lemma credential_for_ok:
  assumes "credential_for sv acct password w = (Inr cred, w')"
  shows "same_tables w w' \<and> (if crKind cred = CredentialPrimary
      then VerifyPassword (svScrypt sv) password (acPasswordHash acct) = Inr True
      else \<exists>ap \<in> set (app_passwords (wAcct w)). apDID ap = acDID acct \<and> apName ap = crAppPasswordName cred
        \<and> VerifyPassword (svScrypt sv) password (apPasswordHash ap) = Inr True \<and> crKind cred = crKind (app_credential ap))"
proof (cases "VerifyPassword (svScrypt sv) password (acPasswordHash acct) = Inr True")
  case True
  then show ?thesis using assms by (auto simp: credential_for_def)
next
  case False
  then obtain ap where v: "verifyAppPassword sv (acDID acct) password w = (Inr (Some ap), w')" and c: "cred = app_credential ap"
    using assms by (auto simp: credential_for_def hbind_Inr_iff split: option.splits)
  then obtain aps where aps: "on_acct (ListAppPasswords (acDID acct)) w = (Inr aps, w')"
    and find: "find (app_password_matches (svScrypt sv) password) aps = Some ap"
    using verifyAppPassword_ok by blast
  have "same_tables w w'" using on_acct_lift [OF aps] reads_tape(3) by blast
  moreover have "ap \<in> set (app_passwords (wAcct w))" "apDID ap = acDID acct"
    using aps ListAppPasswords_ok [of "acDID acct" "wAcct w" aps] find_SomeD [OF find] by auto
  moreover have "crKind cred \<noteq> CredentialPrimary" by (simp add: c app_credential_def)
  ultimately show ?thesis using find_SomeD [OF find] c by (auto simp: app_password_matches_def app_credential_def)
qed

text \<open>The login a request carries.\<close>

definition login_of :: "('t, 'k) server \<Rightarrow> request \<Rightarrow> (string \<times> string) option" where
  "login_of sv rq = Option.bind (decodeJSON (svJson sv) rq) read_login"

definition login_spec :: "('t, 'k) server \<Rightarrow> request \<Rightarrow> world \<Rightarrow> response \<Rightarrow> world \<Rightarrow> string \<Rightarrow> account \<Rightarrow> bool" where
  "login_spec sv rq w r w' password a \<longleftrightarrow>
     (\<exists>ident kept row. login_of sv rq = Some (ident, password) \<and> trim_prefix ident ''at://'' \<in> {acDID a, acHandle a}
    \<and> a \<in> set (accounts (wAcct w)) \<and> acStatus a \<noteq> StatusTakenDown \<and> granted_did r = Some (acDID a)
    \<and> refresh_tokens (wAcct w') = filter kept (refresh_tokens (wAcct w)) @ [row]
    \<and> justified_by (svScrypt sv) (wAcct w) password a row \<and> tokens_match sv 0 r row)"

lemma create_session_ok:
  assumes "handleCreateSession sv rq w = (r, w')" "rsStatus r = 200"
  shows "\<exists>password a. login_spec sv rq w r w' password a"
proof -
  have issue_refuses: "refuses (issueSession sv 0 0 acct cred)" for acct cred
    unfolding issueSession_def by (intro stops_intros) simp_all
  have cred_refuses: "refuses (credential_for sv acct password)" for acct password
    unfolding credential_for_def verifyAppPassword_def by (intro stops_intros) simp_all
  obtain ident password a w1 cred w2 where login: "login_of sv rq = Some (ident, password)"
    and acct: "on_acct (GetAccountByIdentifier (trim_prefix ident ''at://'')) w = (Inr a, w1)"
    and cred: "credential_for sv a password w1 = (Inr cred, w2)" and st: "acStatus a \<noteq> StatusTakenDown"
    and issue: "issueSession sv 0 0 a cred w2 = (Inr r, w')"
  proof (atomize_elim, rule serve_okE [OF assms(1) [unfolded handleCreateSession_def] assms(2)], goal_cases)
    case 1
    show ?case by (intro stops_intros issue_refuses cred_refuses) simp_all
  next
    case 2
    then show ?case by (auto simp: hbind_Inr_iff login_of_def simp del: on_acct_eq)
  qed
  have a: "a \<in> set (accounts (wAcct w))" "trim_prefix ident ''at://'' \<in> {acDID a, acHandle a}" "same_tables w w1"
    using acct GetAccountByIdentifier_ok [of "trim_prefix ident ''at://''" "wAcct w" a] by auto
  note c = credential_for_ok [OF cred] and u = same_tables_keeps [OF a(3)] same_tables_keeps [of w1 w2]
  obtain kept row where "row_for a cred row" "tokens_match sv 0 r row"
    "refresh_tokens (wAcct w') = filter kept (refresh_tokens (wAcct w2)) @ [row]"
    using issueSession_ok [OF issue] by auto
  moreover from this have "justified_by (svScrypt sv) (wAcct w) password a row"
    using c u by (fastforce simp: justified_by_def row_for_def app_credential_def)
  ultimately show ?thesis using login a st c u issueSession_ok [OF issue] unfolding login_spec_def by auto
qed

text \<open>C30. A login is justified: \<open>createSession\<close> hands out tokens only for an account that the identifier
  names, that is not taken down and of which the password is the own one or that of one of its app
  passwords, and the one session it stores carries the account's auth version and the privilege of
  exactly the password that was given. So do both tokens of the answer: their claims name the account,
  its auth version and that credential, so a session opened with an app password is never a primary one.\<close>

theorem create_session_justified:
  assumes "handleCreateSession sv rq w = (r, w')" "rsStatus r = 200"
  shows "\<exists>ident password a kept row. login_of sv rq = Some (ident, password)
    \<and> trim_prefix ident ''at://'' \<in> {acDID a, acHandle a}
    \<and> a \<in> set (accounts (wAcct w)) \<and> acStatus a \<noteq> StatusTakenDown \<and> granted_did r = Some (acDID a)
    \<and> refresh_tokens (wAcct w') = filter kept (refresh_tokens (wAcct w)) @ [row]
    \<and> justified_by (svScrypt sv) (wAcct w) password a row \<and> tokens_match sv 0 r row"
  using create_session_ok [OF assms] unfolding login_spec_def by blast

theorem create_session_justified_witness:
  "\<exists>r. fst (handleCreateSession (demo_server\<lparr>svJson := demo_json demo_login\<rparr>) (demo_post '''') demo_home) = r
     \<and> granted_did r = Some ''did:plc:a''"
proof -
  let ?sv = "demo_server\<lparr>svJson := demo_json demo_login\<rparr>"
  obtain r w' where run: "handleCreateSession ?sv (demo_post '''') demo_home = (r, w')" by fastforce
  then have "rsStatus r = 200" using demo_login_runs by simp
  from create_session_justified [OF run this] show ?thesis using run by auto
qed

section \<open>Refreshing\<close>

lemma acct_inv_tape [simp]: "acct_inv (d\<lparr>tape := t\<rparr>) = acct_inv d"
  by (simp add: acct_inv_def)

lemma refresh_token_step:
  assumes "attempt (on_acct (GetRefreshToken h)) f w = (Inr t, w')"
  shows "same_tables w w' \<and> t \<in> set (refresh_tokens (wAcct w)) \<and> rtTokenHash t = h"
  using assms GetRefreshToken_ok [of h "wAcct w" t] by auto

definition refresh_spec :: "('t, 'k) server \<Rightarrow> request \<Rightarrow> world \<Rightarrow> response \<Rightarrow> world \<Rightarrow> parsed_token \<Rightarrow> account \<Rightarrow> bool" where
  "refresh_spec sv rq w r w' p a \<longleftrightarrow> (\<exists>tok old new kept. bearerToken rq = Some tok
    \<and> ParseRefreshToken (svJwt sv) (svNow sv 0) (cfJWTSecret sv) tok = Inr p
    \<and> old \<in> set (refresh_tokens (wAcct w)) \<and> rtTokenHash old = HashToken (svSha sv) (ptJTI p)
    \<and> rfc3339 (svNow sv 1) < rtExpiresAt old
    \<and> acct_lookup (accounts (wAcct w)) (ptDID p) = Some a \<and> acStatus a = StatusActive \<and> granted_did r = Some (acDID a)
    \<and> refresh_tokens (wAcct w') = filter kept (filter (\<lambda>t. rtTokenHash t \<noteq> rtTokenHash old) (refresh_tokens (wAcct w))) @ [new]
    \<and> rtDID new = rtDID old \<and> rtAuthVersion new = rtAuthVersion old \<and> rtAuthVersion old = acAuthVersion a
    \<and> rtCredentialKind new = rtCredentialKind old \<and> rtAppPasswordName new = rtAppPasswordName old
    \<and> tokens_match sv 2 r new)"

lemma refresh_session_ok:
  assumes "acct_inv (wAcct w)" "handleRefreshSession sv rq w = (r, w')" "rsStatus r = 200"
  shows "\<exists>p a. refresh_spec sv rq w r w' p a"
proof -
  let ?h = "\<lambda>p. HashToken (svSha sv) (ptJTI p)"
  let ?cred = "\<lambda>p. \<lparr>crKind = ptCredentialKind p, crAppPasswordName = ptAppPasswordName p\<rparr>"
  have issue_refuses: "refuses (issueSession sv 2 0 acct cred)" for acct cred
    unfolding issueSession_def by (intro stops_intros) simp_all
  obtain tok p stored a w1 w2 w3 where tok: "bearerToken rq = Some tok"
    and parse: "ParseRefreshToken (svJwt sv) (svNow sv 0) (cfJWTSecret sv) tok = Inr p"
    and get: "attempt (on_acct (GetRefreshToken (?h p))) (\<lambda>_. refresh_revoked) w = (Inr stored, w1)"
    and acct: "attempt (on_acct (GetAccountByDID (ptDID p)))
      (\<lambda>_. Unauthorized ''AuthenticationRequired'' ''account not found'') w1 = (Inr a, w2)"
    and valid: "refresh_valid p stored a"
    and consume: "on_acct (ConsumeRefreshToken (svNow sv 1) (?h p) (ptDID p) (ptAuthVersion p)) w2 = (Inr (), w3)"
    and issue: "issueSession sv 2 0 a (?cred p) w3 = (Inr r, w')"
  proof (atomize_elim, rule serve_okE [OF assms(2) [unfolded handleRefreshSession_def] assms(3)], goal_cases)
    case 1
    show ?case by (intro stops_intros issue_refuses) simp_all
  next
    case 2
    then show ?case by (fastforce simp: hbind_Inr_iff bearer_def simp del: on_acct_eq split: option.splits)
  qed
  note g = refresh_token_step [OF get] and ac = account_step [OF acct]
  have u: "same_tables w w2" using g ac same_tables_trans by blast
  have a: "acct_lookup (accounts (wAcct w)) (ptDID p) = Some a" using ac g same_tables_keeps(1) [of w w1] by simp
  obtain d where d: "ConsumeRefreshToken (svNow sv 1) (?h p) (ptDID p) (ptAuthVersion p) (wAcct w2) = (Inr (), d)" "w3 = w2\<lparr>wAcct := d\<rparr>"
    using consume by auto
  have inv: "acct_inv (wAcct w2)" using assms(1) u by (auto simp: same_tables_def)
  obtain old where old: "old \<in> set (refresh_tokens (wAcct w2))" "rtTokenHash old = ?h p" "rtDID old = ptDID p"
    "rtAuthVersion old = ptAuthVersion p" "rfc3339 (svNow sv 1) < rtExpiresAt old"
    using ConsumeRefreshToken_ok [OF d(1) inv] by blast
  have d_rows: "refresh_tokens d = filter (\<lambda>t. rtTokenHash t \<noteq> ?h p) (refresh_tokens (wAcct w))"
    using ConsumeRefreshToken_ok [OF d(1) inv] u by (auto simp: same_tables_keeps)
  have "distinct (map rtTokenHash (refresh_tokens (wAcct w)))" using assms(1) by (simp add: acct_inv_def no_clash_keys)
  then have same: "stored = old"
    using g old u same_tables_keeps(3) [OF u] by (metis distinct_map inj_onD)
  obtain kept new where new: "row_for a (?cred p) new" and match: "tokens_match sv 2 r new"
    and rows: "refresh_tokens (wAcct w') = filter kept (refresh_tokens d) @ [new]"
    using issueSession_ok [OF issue] d(2) by auto
  have "old \<in> set (refresh_tokens (wAcct w))" using old(1) same_tables_keeps(3) [OF u] by simp
  moreover have "acStatus a = StatusActive" "rtAuthVersion old = acAuthVersion a"
    "rtCredentialKind new = rtCredentialKind old" "rtAppPasswordName new = rtAppPasswordName old"
    "rtAuthVersion new = rtAuthVersion old" "rtDID new = rtDID old"
    using valid same new old(3) acct_lookup_SomeD [OF a] by (auto simp: refresh_valid_def row_for_def)
  moreover have "refresh_tokens (wAcct w') = filter kept (filter (\<lambda>t. rtTokenHash t \<noteq> rtTokenHash old)
      (refresh_tokens (wAcct w))) @ [new]"
    using rows d_rows old(2) by simp
  ultimately show ?thesis using tok parse a old(2,5) match issueSession_ok [OF issue] unfolding refresh_spec_def by blast
qed

text \<open>C31. Refreshing rotates: \<open>refreshSession\<close> answers with tokens only for a stored, unexpired refresh
  token of an active account at its current auth version; the old row is gone, exactly one row is
  added, for the same account, auth version, credential kind and app password, and both tokens of the
  answer carry the same, so that neither the old token works again nor a session gains privileges by
  refreshing.\<close>

theorem refresh_rotates:
  assumes "acct_inv (wAcct w)" "handleRefreshSession sv rq w = (r, w')" "rsStatus r = 200"
  shows "\<exists>tok p a old new kept. bearerToken rq = Some tok
    \<and> ParseRefreshToken (svJwt sv) (svNow sv 0) (cfJWTSecret sv) tok = Inr p
    \<and> old \<in> set (refresh_tokens (wAcct w)) \<and> rtTokenHash old = HashToken (svSha sv) (ptJTI p)
    \<and> rfc3339 (svNow sv 1) < rtExpiresAt old
    \<and> acct_lookup (accounts (wAcct w)) (ptDID p) = Some a \<and> acStatus a = StatusActive \<and> granted_did r = Some (acDID a)
    \<and> refresh_tokens (wAcct w') = filter kept (filter (\<lambda>t. rtTokenHash t \<noteq> rtTokenHash old) (refresh_tokens (wAcct w))) @ [new]
    \<and> rtDID new = rtDID old \<and> rtAuthVersion new = rtAuthVersion old \<and> rtAuthVersion old = acAuthVersion a
    \<and> rtCredentialKind new = rtCredentialKind old \<and> rtAppPasswordName new = rtAppPasswordName old
    \<and> tokens_match sv 2 r new"
  using refresh_session_ok [OF assms] unfolding refresh_spec_def by blast

theorem refresh_rotates_witness:
  "\<exists>new. refresh_tokens (wAcct (snd (handleRefreshSession demo_server (demo_post ''refresh'') demo_home))) = [new]"
proof -
  obtain r w' where run: "handleRefreshSession demo_server (demo_post ''refresh'') demo_home = (r, w')" by fastforce
  have ok: "rsStatus r = 200" using run demo_refresh_runs by simp
  have "acct_inv (wAcct demo_home)" by (simp add: acct_inv_def)
  from refresh_rotates [OF this run ok] show ?thesis using run by (auto simp: demo_refresh_def)
qed

section \<open>Taken-down accounts\<close>

lemma account_unique:
  assumes "acct_inv d" "a \<in> set (accounts d)" "acct_lookup (accounts d) (acDID a) = Some b"
  shows "a = b"
proof -
  have "distinct (map acDID t)" if "no_clash account_clash t" for t
    using that by (induction t) (auto simp: account_clash_def list_all_iff)
  then have "acct_lookup (accounts d) (acDID a) = Some a"
    using assms(1,2) unfolding acct_lookup_def by (intro find_key_unique) (auto simp: acct_inv_def)
  then show ?thesis using assms(3) by simp
qed

text \<open>A taken-down account is shut out: nobody logs in to it, refreshes one of its sessions or passes
  for it at any endpoint, the migration endpoints included.\<close>

theorem taken_down_shut_out:
  assumes "acct_inv (wAcct w)" "acct_lookup (accounts (wAcct w)) did = Some a" "acStatus a = StatusTakenDown"
  shows "granted_did (fst (handleCreateSession sv rq w)) \<noteq> Some did
    \<and> granted_did (fst (handleRefreshSession sv rq w)) \<noteq> Some did
    \<and> Some did \<noteq> (case fst (requirePrincipal sv rq priv ad w) of Inl _ \<Rightarrow> None | Inr p \<Rightarrow> Some (ptDID p))"
proof (intro conjI)
  obtain r w' where run: "handleCreateSession sv rq w = (r, w')" by fastforce
  have False if g: "granted_did r = Some did"
  proof -
    obtain password b where "login_spec sv rq w r w' password b"
      using create_session_ok [OF run granted_200 [OF g]] by blast
    then have "b \<in> set (accounts (wAcct w))" "acDID b = did" "acStatus b \<noteq> StatusTakenDown"
      using g by (auto simp: login_spec_def)
    then show False using account_unique [OF assms(1), of b a] assms(2,3) by auto
  qed
  then show "granted_did (fst (handleCreateSession sv rq w)) \<noteq> Some did" using run by auto
next
  obtain r w' where run: "handleRefreshSession sv rq w = (r, w')" by fastforce
  have False if g: "granted_did r = Some did"
  proof -
    obtain p b where "refresh_spec sv rq w r w' p b"
      using refresh_session_ok [OF assms(1) run granted_200 [OF g]] by blast
    then have b: "acct_lookup (accounts (wAcct w)) (ptDID p) = Some b" "acStatus b = StatusActive" "acDID b = did"
      using g by (auto simp: refresh_spec_def)
    then show False using acct_lookup_SomeD [OF b(1)] assms(2,3) by auto
  qed
  then show "granted_did (fst (handleRefreshSession sv rq w)) \<noteq> Some did" using run by auto
next
  obtain x w' where run: "requirePrincipal sv rq priv ad w = (x, w')" by fastforce
  have "ptDID p \<noteq> did" if "x = Inr p" for p
    using requirePrincipal_ok [OF run [unfolded that]] assms(2,3) by (auto simp: live_principal_def)
  then show "Some did \<noteq> (case fst (requirePrincipal sv rq priv ad w) of Inl _ \<Rightarrow> None | Inr p \<Rightarrow> Some (ptDID p))"
    using run by (auto split: sum.split)
qed

theorem taken_down_shut_out_witness:
  "granted_did (fst (handleCreateSession (demo_server\<lparr>svJson := demo_json demo_login\<rparr>) (demo_post '''')
     (demo_home\<lparr>wAcct := (wAcct demo_home)\<lparr>accounts := [demo_user\<lparr>acStatus := StatusTakenDown\<rparr>]\<rparr>\<rparr>))) \<noteq> Some ''did:plc:a''"
  using taken_down_shut_out [where sv = "demo_server\<lparr>svJson := demo_json demo_login\<rparr>" and rq = "demo_post ''''"
      and did = "''did:plc:a''" and a = "demo_user\<lparr>acStatus := StatusTakenDown\<rparr>" and priv = True and ad = True
      and w = "demo_home\<lparr>wAcct := (wAcct demo_home)\<lparr>accounts := [demo_user\<lparr>acStatus := StatusTakenDown\<rparr>]\<rparr>\<rparr>"]
  by (simp add: acct_inv_def acct_lookup_def)

section \<open>App passwords\<close>

lemma length_join: "length (join_with sep xs) = sum_list (map length xs) + length sep * (length xs - 1)"
  by (induction sep xs rule: join_with.induct) auto

lemma set_join: "set (join_with sep xs) \<subseteq> \<Union> (set (map set xs)) \<union> set sep"
  by (induction sep xs rule: join_with.induct) auto

text \<open>A generated app password is six groups of four characters of the lower-case base32 alphabet
  between hyphens, 120 random bits in 29 characters (the comment in the code shows four groups).\<close>

theorem app_password_shape:
  assumes "length b = 15"
  shows "length (app_password_text b) = 29 \<and> set (app_password_text b) \<subseteq> set (''-'' @ base32_lower)
    \<and> map length (split_on (CHR ''-'') (app_password_text b)) = [4, 4, 4, 4, 4, 4]"
proof -
  let ?raw = "base32_encode_lower b"
  have len: "length ?raw = 24" using assms by (simp add: base32_encode_lower_def length_base_encode)
  have chars: "set ?raw \<subseteq> set base32_lower"
    unfolding base32_encode_lower_def by (rule base_encode_chars) (simp_all add: base32_lower_def)
  have sep: "CHR ''-'' \<notin> set base32_lower" by (simp add: base32_lower_def)
  obtain g1 g2 g3 g4 g5 g6 where raw: "?raw = concat [g1, g2, g3, g4, g5, g6]" and g: "\<forall>g \<in> set [g1, g2, g3, g4, g5, g6]. length g = 4"
  proof
    let ?g = "\<lambda>i. take 4 (drop (4 * i) ?raw)"
    show "?raw = concat [?g 0, ?g 1, ?g 2, ?g 3, ?g 4, ?g 5]"
      using len by (intro nth_equalityI) (auto simp: nth_append nth_drop)
    show "\<forall>g \<in> set [?g 0, ?g 1, ?g 2, ?g 3, ?g 4, ?g 5]. length g = 4" using len by simp
  qed
  have ch: "chunks 4 ?raw = [g1, g2, g3, g4, g5, g6]"
    using chunks_concat [of "[g1, g2, g3, g4, g5, g6]" 4] raw g by simp
  have apt: "app_password_text b = g1 @ ''-'' @ g2 @ ''-'' @ g3 @ ''-'' @ g4 @ ''-'' @ g5 @ ''-'' @ g6"
    by (simp add: app_password_text_def ch)
  have no: "CHR ''-'' \<notin> set g" if "g \<in> set [g1, g2, g3, g4, g5, g6]" for g
    using that chars sep raw by auto
  have "split_on (CHR ''-'') (app_password_text b) = [g1, g2, g3, g4, g5, g6]"
    using no by (simp add: apt split_on_append split_on_notin)
  then show ?thesis using g raw chars by (auto simp: apt)
qed

theorem app_password_shape_witness: "length (app_password_text (replicate 15 0)) = 29"
  using app_password_shape [of "replicate 15 0"] by simp

end
