(* ===== verification/RepoApi.thy ===== *)
theory RepoApi
  imports Session
begin

text \<open>
  \<^verbatim>\<open>internal/xrpc/repo.go\<close>: writing, reading and listing records, and uploading blobs.
\<close>

section \<open>The repository of a request\<close>

abbreviation RepoNotFound :: response where
  "RepoNotFound \<equiv> writeXRPCError 404 ''RepoNotFound'' ''repo not found''"

abbreviation open_failed :: response where
  "open_failed \<equiv> InternalServerError ''failed to open repo''"

definition resolveRepoDID :: "string \<Rightarrow> (world, string) op" where
  "resolveRepoDID repoParam =
     gobind (on_acct (GetAccountByIdentifier (trim_prefix repoParam ''at://''))) (\<lambda>a. goret (acDID a))"

definition requireOwnRepo :: "('t, 'k) server \<Rightarrow> request \<Rightarrow> string \<Rightarrow> (world, string) hd_step" where
  "requireOwnRepo sv rq repoParam =
     hbind (requireAccessToken sv rq) (\<lambda>authDID.
     hbind (attempt (resolveRepoDID repoParam) (\<lambda>_. RepoNotFound)) (\<lambda>targetDID.
     hbind (guard (targetDID = authDID) (writeXRPCError 403 ''AuthRequired'' ''not authorized to write to this repo'')) (\<lambda>_.
     hret authDID)))"

definition signingKeyFor :: "('t, 'k) server \<Rightarrow> string \<Rightarrow> (world, string) op" where
  "signingKeyFor sv did = gobind (on_acct (GetAccountByDID did)) (\<lambda>a. liftE (svParseKey sv (acSigningKey a)))"

abbreviation no_signing_key :: response where
  "no_signing_key \<equiv> InternalServerError ''failed to load signing key''"

definition recordURI :: "string \<Rightarrow> string \<Rightarrow> string \<Rightarrow> string" where
  "recordURI did collection rkey = ''at://'' @ did @ ''/'' @ collection @ ''/'' @ rkey"

section \<open>Writing records\<close>

definition parseRecord :: "('t, 'k) server \<Rightarrow> data option \<Rightarrow> go_error + record_data" where
  "parseRecord sv raw = (case raw of
     None \<Rightarrow> Inl (ErrMsg ''record is required'') | Some v \<Rightarrow> svRecord sv v)"

record record_input =
  riRepo :: string
  riCollection :: string
  riRKey :: string
  riRecord :: "data option"

definition read_record_input :: "data \<Rightarrow> record_input option" where
  "read_record_input v = (case (str_field ''repo'' v, str_field ''collection'' v, str_field ''rkey'' v, raw_field ''record'' v) of
     (Some r, Some c, Some k, Some x) \<Rightarrow> Some \<lparr>riRepo = r, riCollection = c, riRKey = k, riRecord = x\<rparr>
   | _ \<Rightarrow> None)"

definition commit_summary :: "applied \<Rightarrow> data" where
  "commit_summary a = DMap [(''cid'', DStr (apCID a)), (''rev'', DStr (coRev (apCommit a)))]"

definition writeWriteError :: "go_error \<Rightarrow> response" where
  "writeWriteError e = (if e = ActorErrNotFound then writeXRPCError 400 ''RecordNotFound'' ''record not found''
     else InvalidRequest (error_text e))"

text \<open>Only the results of deletions have no CID, and \<^verbatim>\<open>results[0]\<close> exists because the batch has one write.\<close>

definition result_cid :: "write_result \<Rightarrow> string" where
  "result_cid res = (case wrCID res of None \<Rightarrow> '''' | Some c \<Rightarrow> c)"

definition write_output :: "string \<Rightarrow> applied \<Rightarrow> data" where
  "write_output did a = (let res = apResults a ! 0 in
     if wrAction res = ActionDelete then DMap [(''commit'', commit_summary a)]
     else DMap [(''uri'', DStr (recordURI did (wrCollection res) (wrRKey res))),
       (''cid'', DStr (result_cid res)), (''commit'', commit_summary a)])"

definition apply_as :: "('t, 'k) server \<Rightarrow> string \<Rightarrow> write_op list \<Rightarrow> (world, applied) hd_step" where
  "apply_as sv did ops =
     hbind (attempt (signingKeyFor sv did) (\<lambda>_. no_signing_key)) (\<lambda>key.
     attempt (ApplyWrites (svLib sv) (svWire sv) (svParseDid sv) (svTid sv) (svNow sv 1) did key ops) writeWriteError)"

definition doWrite :: "('t, 'k) server \<Rightarrow> string \<Rightarrow> write_op list \<Rightarrow> (world, response) hd_step" where
  "doWrite sv did ops = hbind (apply_as sv did ops) (\<lambda>a. hret (writeJSON 200 (write_output did a)))"

abbreviation invalid_record :: "go_error \<Rightarrow> response" where
  "invalid_record e \<equiv> InvalidRequest (err_text ''invalid record data: '' e)"

definition handleCreateRecord :: "('t, 'k) server \<Rightarrow> request \<Rightarrow> world \<Rightarrow> response \<times> world" where
  "handleCreateRecord sv rq = serve
     (hbind (decode_body (svJson sv) rq read_record_input malformed) (\<lambda>i.
      hbind (attempt_pure (svParseNSID sv (riCollection i)) (\<lambda>_. InvalidRequest ''invalid collection NSID'')) (\<lambda>_.
      hbind (if riRKey i \<noteq> '''' then attempt_pure (svParseRKey sv (riRKey i)) (\<lambda>_. InvalidRequest ''invalid rkey'')
             else hret '''') (\<lambda>_.
      hbind (requireOwnRepo sv rq (riRepo i)) (\<lambda>did.
      hbind (attempt_pure (parseRecord sv (riRecord i)) invalid_record) (\<lambda>r.
      doWrite sv did [\<lparr>woAction = ActionCreate, woCollection = riCollection i, woRKey = riRKey i, woRecord = Some r\<rparr>]))))))"

definition put_action :: "('t, 'k) server \<Rightarrow> string \<Rightarrow> string \<Rightarrow> string \<Rightarrow> (world, string) hd_step" where
  "put_action sv did collection rkey =
     hbind (outcome (gobind (actors_Get sv did) (\<lambda>_. actor_op did (GetRecordCID collection rkey))))
       (\<lambda>r. hret (case r of Inl _ \<Rightarrow> ActionCreate | Inr _ \<Rightarrow> ActionUpdate))"

definition handlePutRecord :: "('t, 'k) server \<Rightarrow> request \<Rightarrow> world \<Rightarrow> response \<times> world" where
  "handlePutRecord sv rq = serve
     (hbind (decode_body (svJson sv) rq read_record_input malformed) (\<lambda>i.
      hbind (attempt_pure (svParseNSID sv (riCollection i)) (\<lambda>_. InvalidRequest ''invalid collection NSID'')) (\<lambda>_.
      hbind (attempt_pure (svParseRKey sv (riRKey i)) (\<lambda>_. InvalidRequest ''invalid rkey'')) (\<lambda>_.
      hbind (requireOwnRepo sv rq (riRepo i)) (\<lambda>did.
      hbind (attempt_pure (parseRecord sv (riRecord i)) invalid_record) (\<lambda>r.
      hbind (put_action sv did (riCollection i) (riRKey i)) (\<lambda>action.
      doWrite sv did [\<lparr>woAction = action, woCollection = riCollection i, woRKey = riRKey i, woRecord = Some r\<rparr>])))))))"

definition read_delete_input :: "data \<Rightarrow> (string \<times> string \<times> string) option" where
  "read_delete_input v = (case (str_field ''repo'' v, str_field ''collection'' v, str_field ''rkey'' v) of
     (Some r, Some c, Some k) \<Rightarrow> Some (r, c, k) | _ \<Rightarrow> None)"

definition handleDeleteRecord :: "('t, 'k) server \<Rightarrow> request \<Rightarrow> world \<Rightarrow> response \<times> world" where
  "handleDeleteRecord sv rq = serve
     (hbind (decode_body (svJson sv) rq read_delete_input malformed) (\<lambda>(repo, collection, rkey).
      hbind (requireOwnRepo sv rq repo) (\<lambda>did.
      doWrite sv did [\<lparr>woAction = ActionDelete, woCollection = collection, woRKey = rkey, woRecord = None\<rparr>])))"

subsection \<open>Batches\<close>

definition read_write_head :: "data \<Rightarrow> (string \<times> string \<times> string \<times> data option) option" where
  "read_write_head v = (case (str_field ''$type'' v, str_field ''collection'' v, str_field ''rkey'' v, raw_field ''value'' v) of
     (Some t, Some c, Some k, Some x) \<Rightarrow> Some (t, c, k, x) | _ \<Rightarrow> None)"

definition write_action :: "string \<Rightarrow> string option" where
  "write_action t =
     (if t = ''com.atproto.repo.applyWrites#create'' then Some ActionCreate
      else if t = ''com.atproto.repo.applyWrites#update'' then Some ActionUpdate
      else if t = ''com.atproto.repo.applyWrites#delete'' then Some ActionDelete
      else None)"

definition parse_write :: "('t, 'k) server \<Rightarrow> data \<Rightarrow> response + write_op" where
  "parse_write sv raw = (case read_write_head raw of
     None \<Rightarrow> Inl (InvalidRequest ''malformed write entry'')
   | Some (t, c, k, x) \<Rightarrow>
       (case write_action t of
          None \<Rightarrow> Inl (InvalidRequest (''unknown write $type: '' @ t))
        | Some action \<Rightarrow>
            if action = ActionDelete
            then Inr \<lparr>woAction = action, woCollection = c, woRKey = k, woRecord = None\<rparr>
            else (case parseRecord sv x of
               Inl e \<Rightarrow> Inl (invalid_record e)
             | Inr r \<Rightarrow> Inr \<lparr>woAction = action, woCollection = c, woRKey = k, woRecord = Some r\<rparr>)))"

fun parse_writes :: "('t, 'k) server \<Rightarrow> data list \<Rightarrow> response + write_op list" where
  "parse_writes sv [] = Inr []"
| "parse_writes sv (raw # raws) = (case parse_write sv raw of
     Inl r \<Rightarrow> Inl r
   | Inr x \<Rightarrow> (case parse_writes sv raws of Inl r \<Rightarrow> Inl r | Inr xs \<Rightarrow> Inr (x # xs)))"

definition batch_result :: "string \<Rightarrow> write_result \<Rightarrow> data" where
  "batch_result did res =
     (if wrAction res = ActionDelete then DMap [(''$type'', DStr ''com.atproto.repo.applyWrites#deleteResult'')]
      else DMap [(''$type'', DStr (''com.atproto.repo.applyWrites#'' @ wrAction res @ ''Result'')),
        (''uri'', DStr (recordURI did (wrCollection res) (wrRKey res))), (''cid'', DStr (result_cid res))])"

definition read_batch_input :: "data \<Rightarrow> (string \<times> data list) option" where
  "read_batch_input v = (case (str_field ''repo'' v, field as_list [] ''writes'' v) of
     (Some r, Some ws) \<Rightarrow> Some (r, ws) | _ \<Rightarrow> None)"

definition handleApplyWrites :: "('t, 'k) server \<Rightarrow> request \<Rightarrow> world \<Rightarrow> response \<times> world" where
  "handleApplyWrites sv rq = serve
     (hbind (decode_body (svJson sv) rq read_batch_input malformed) (\<lambda>(repo, writes).
      hbind (requireOwnRepo sv rq repo) (\<lambda>did.
      hbind (hlift (parse_writes sv writes)) (\<lambda>ops.
      hbind (apply_as sv did ops) (\<lambda>a.
      hret (writeJSON 200 (DMap [(''commit'', commit_summary a),
        (''results'', DList (map (batch_result did) (apResults a)))])))))))"

section \<open>Reading records\<close>

abbreviation record_not_found :: response where
  "record_not_found \<equiv> writeXRPCError 404 ''RecordNotFound'' ''record not found''"

definition record_view :: "string \<Rightarrow> string \<Rightarrow> string \<Rightarrow> cid \<Rightarrow> record_data \<Rightarrow> data" where
  "record_view did collection rkey c r = DMap [(''uri'', DStr (recordURI did collection rkey)),
     (''cid'', DStr c), (''value'', DMap r)]"

definition read_record :: "('t, 'k) server \<Rightarrow> string \<Rightarrow> cid \<Rightarrow> (world, record_data) hd_step" where
  "read_record sv did c =
     hbind (attempt (actor_op did (bs_Get c)) (\<lambda>_. InternalServerError ''failed to read record block'')) (\<lambda>b.
     attempt_pure (unmarshal_data (svLib sv) b) (\<lambda>_. InternalServerError ''failed to decode record''))"

definition handleGetRecord :: "('t, 'k) server \<Rightarrow> request \<Rightarrow> world \<Rightarrow> response \<times> world" where
  "handleGetRecord sv rq = serve
     (let repo = query_get rq ''repo''; collection = query_get rq ''collection''; rkey = query_get rq ''rkey'' in
      hbind (guard (repo \<noteq> '''' \<and> collection \<noteq> '''' \<and> rkey \<noteq> '''')
        (InvalidRequest ''repo, collection, and rkey are required'')) (\<lambda>_.
      hbind (attempt (resolveRepoDID repo) (\<lambda>_. RepoNotFound)) (\<lambda>did.
      hbind (attempt (actors_Get sv did) (\<lambda>_. open_failed)) (\<lambda>_.
      hbind (attempt (actor_op did (GetRecordCID collection rkey)) (\<lambda>_. record_not_found)) (\<lambda>c.
      hbind (read_record sv did c) (\<lambda>r.
      hret (writeJSON 200 (record_view did collection rkey c r))))))))"

fun list_views :: "('t, 'k) server \<Rightarrow> string \<Rightarrow> record_row list \<Rightarrow> (world, data list) hd_step" where
  "list_views sv did [] = hret []"
| "list_views sv did (e # es) =
     hbind (read_record sv did (recCID e)) (\<lambda>r.
     hbind (list_views sv did es) (\<lambda>vs.
     hret (record_view did (recCollection e) (recRKey e) (recCID e) r # vs)))"

definition handleListRecords :: "('t, 'k) server \<Rightarrow> request \<Rightarrow> world \<Rightarrow> response \<times> world" where
  "handleListRecords sv rq = serve
     (let repo = query_get rq ''repo''; collection = query_get rq ''collection''; limit = query_limit rq 50 100 in
      hbind (guard (repo \<noteq> '''' \<and> collection \<noteq> '''') (InvalidRequest ''repo and collection are required'')) (\<lambda>_.
      hbind (attempt (resolveRepoDID repo) (\<lambda>_. RepoNotFound)) (\<lambda>did.
      hbind (attempt (actors_Get sv did) (\<lambda>_. open_failed)) (\<lambda>_.
      hbind (attempt (actor_op did (ListRecords collection (query_get rq ''cursor'') (int limit)
          (query_get rq ''reverse'' = ''true''))) (\<lambda>_. InternalServerError ''failed to list records'')) (\<lambda>entries.
      hbind (list_views sv did entries) (\<lambda>views.
      hret (writeJSON 200 (DMap ((''records'', DList views) #
        (if length entries = limit then [(''cursor'', DStr (recRKey (last entries)))] else []))))))))))"

definition handleDescribeRepo :: "('t, 'k) server \<Rightarrow> request \<Rightarrow> world \<Rightarrow> response \<times> world" where
  "handleDescribeRepo sv rq = serve
     (let repo = query_get rq ''repo'' in
      hbind (guard (repo \<noteq> '''') (InvalidRequest ''repo is required'')) (\<lambda>_.
      hbind (attempt (on_acct (GetAccountByIdentifier (trim_prefix repo ''at://''))) (\<lambda>_. RepoNotFound)) (\<lambda>a.
      hret (writeJSON 200 (DMap [(''handle'', DStr (acHandle a)), (''did'', DStr (acDID a)), (''didDoc'', DMap []),
        (''collections'', DList []), (''handleIsCorrect'', DBool True)])))))"

section \<open>Uploading blobs\<close>

definition maxBlobSize :: nat where "maxBlobSize = 100 * 2 ^ 20"

text \<open>\<^verbatim>\<open>io.ReadAll(io.LimitReader(r.Body, n))\<close>.\<close>

definition read_body :: "('t, 'k) server \<Rightarrow> request \<Rightarrow> nat \<Rightarrow> go_error + bytes" where
  "read_body sv rq n = (case svBodyErr sv of Some e \<Rightarrow> Inl e | None \<Rightarrow> Inr (take n (rqBody rq)))"

definition handleUploadBlob :: "('t, 'k) server \<Rightarrow> request \<Rightarrow> world \<Rightarrow> response \<times> world" where
  "handleUploadBlob sv rq = serve
     (hbind (requireMigratableAccessToken sv rq) (\<lambda>did.
      hbind (attempt_pure (read_body sv rq (maxBlobSize + 1)) (\<lambda>_. InvalidRequest ''failed to read blob body'')) (\<lambda>content.
      hbind (guard (length content \<le> maxBlobSize) (InvalidRequest ''blob exceeds max size'')) (\<lambda>_.
      let ct = header_get rq ''Content-Type''; mime = (if ct = '''' then ''application/octet-stream'' else ct) in
      hbind (attempt_pure (BlobCID (svLib sv) content) (\<lambda>_. InternalServerError ''failed to hash blob'')) (\<lambda>c.
      hbind (attempt (actors_Get sv did) (\<lambda>_. open_failed)) (\<lambda>_.
      hbind (attempt (actor_op did (WriteBlobFile c content)) (\<lambda>_. InternalServerError ''failed to store blob'')) (\<lambda>_.
      hbind (attempt (actor_op did (with_tx id id (PutBlobMeta c mime (int (length content)))))
        (\<lambda>_. InternalServerError ''failed to store blob metadata'')) (\<lambda>_.
      hret (writeJSON 200 (DMap [(''blob'', DMap [(''$type'', DStr ''blob''), (''ref'', DMap [(''$link'', DStr c)]),
        (''mimeType'', DStr mime), (''size'', DInt (int (length content)))])]))))))))))"

end
