(* ===== verification/Sync.thy ===== *)
theory Sync
  imports RepoApi
begin

text \<open>
  \<^verbatim>\<open>internal/xrpc/sync.go\<close>: the public read endpoints of \<^verbatim>\<open>com.atproto.sync\<close>.
\<close>

definition writeCARResponse :: "('t, 'k) server \<Rightarrow> cid list \<Rightarrow> block list \<Rightarrow> response" where
  "writeCARResponse sv roots blks = \<lparr>rsStatus = 200, rsHeaders = [(''Content-Type'', ''application/vnd.ipld.car'')],
     rsAdded = [], rsBody = Binary (fst (WriteCAR (w_car (svWire sv)) roots blks))\<rparr>"

definition map_error :: "(go_error \<Rightarrow> go_error) \<Rightarrow> ('s, 'a) op \<Rightarrow> ('s, 'a) op" where
  "map_error f m s = (case m s of (Inl e, s') \<Rightarrow> (Inl (f e), s') | (Inr x, s') \<Rightarrow> (Inr x, s'))"

definition not_hosted :: "go_error \<Rightarrow> go_error \<Rightarrow> go_error" where
  "not_hosted sentinel e = (if errors_is e sentinel then ErrRepoNotHosted else e)"

definition hostedActorStore :: "('t, 'k) server \<Rightarrow> string \<Rightarrow> (world, unit) op" where
  "hostedActorStore sv did =
     gobind (map_error (not_hosted StoreErrNotFound) (on_acct (GetAccountByDID did))) (\<lambda>_.
     map_error (not_hosted ErrNotExist) (actors_GetExisting sv did))"

definition writeActorStoreError :: "go_error \<Rightarrow> response" where
  "writeActorStoreError e = (if errors_is e ErrRepoNotHosted then RepoNotFound else open_failed)"

abbreviation hosted :: "('t, 'k) server \<Rightarrow> string \<Rightarrow> (world, unit) hd_step" where
  "hosted sv did \<equiv> attempt (hostedActorStore sv did) writeActorStoreError"

abbreviation did_required :: response where
  "did_required \<equiv> InvalidRequest ''did is required''"

abbreviation blocks_failed :: response where
  "blocks_failed \<equiv> InternalServerError ''failed to read repo blocks''"

definition handleSyncGetRepo :: "('t, 'k) server \<Rightarrow> request \<Rightarrow> world \<Rightarrow> response \<times> world" where
  "handleSyncGetRepo sv rq = serve
     (let did = query_get rq ''did'' in
      hbind (guard (did \<noteq> '''') did_required) (\<lambda>_.
      hbind (hosted sv did) (\<lambda>_.
      hbind (attempt (actor_op did GetRepoRoot) (\<lambda>_. RepoNotFound)) (\<lambda>root.
      hbind (attempt (actor_op did AllBlocks) (\<lambda>_. blocks_failed)) (\<lambda>blks.
      hret (writeCARResponse sv [rrCommitCID root] blks))))))"

definition status_field :: "string \<Rightarrow> (string \<times> data) list" where
  "status_field status = (if status \<noteq> StatusActive then [(''status'', DStr status)] else [])"

definition handleSyncGetRepoStatus :: "('t, 'k) server \<Rightarrow> request \<Rightarrow> world \<Rightarrow> response \<times> world" where
  "handleSyncGetRepoStatus sv rq = serve
     (let did = query_get rq ''did'' in
      hbind (guard (did \<noteq> '''') did_required) (\<lambda>_.
      hbind (attempt (on_acct (GetAccountByDID did)) (\<lambda>_. RepoNotFound)) (\<lambda>a.
      hbind (outcome (gobind (hostedActorStore sv did) (\<lambda>_. actor_op did GetRepoRoot))) (\<lambda>r.
      hret (writeJSON 200 (DMap ([(''did'', DStr (acDID a)), (''active'', DBool (acStatus a = StatusActive))]
        @ status_field (acStatus a) @ (case r of Inl _ \<Rightarrow> [] | Inr root \<Rightarrow> [(''rev'', DStr (rrRev root))]))))))))"

definition handleSyncGetLatestCommit :: "('t, 'k) server \<Rightarrow> request \<Rightarrow> world \<Rightarrow> response \<times> world" where
  "handleSyncGetLatestCommit sv rq = serve
     (let did = query_get rq ''did'' in
      hbind (guard (did \<noteq> '''') did_required) (\<lambda>_.
      hbind (hosted sv did) (\<lambda>_.
      hbind (attempt (actor_op did GetRepoRoot) (\<lambda>_. RepoNotFound)) (\<lambda>root.
      hret (writeJSON 200 (DMap [(''cid'', DStr (rrCommitCID root)), (''rev'', DStr (rrRev root))]))))))"

definition handleSyncGetRecord :: "('t, 'k) server \<Rightarrow> request \<Rightarrow> world \<Rightarrow> response \<times> world" where
  "handleSyncGetRecord sv rq = serve
     (let did = query_get rq ''did''; collection = query_get rq ''collection''; rkey = query_get rq ''rkey'' in
      hbind (guard (did \<noteq> '''' \<and> collection \<noteq> '''' \<and> rkey \<noteq> '''')
        (InvalidRequest ''did, collection, and rkey are required'')) (\<lambda>_.
      hbind (hosted sv did) (\<lambda>_.
      hbind (attempt (actor_op did GetRepoRoot) (\<lambda>_. RepoNotFound)) (\<lambda>root.
      hbind (attempt (actor_op did (GetRecordCID collection rkey)) (\<lambda>_. record_not_found)) (\<lambda>_.
      hbind (attempt (actor_op did AllBlocks) (\<lambda>_. blocks_failed)) (\<lambda>blks.
      hret (writeCARResponse sv [rrCommitCID root] blks)))))))"

fun get_blocks :: "('t, 'k) server \<Rightarrow> string \<Rightarrow> string list \<Rightarrow> (world, block list) hd_step" where
  "get_blocks sv did [] = hret []"
| "get_blocks sv did (cs # css) =
     hbind (attempt_pure (svCidDecode sv cs) (\<lambda>_. InvalidRequest (''invalid cid: '' @ cs))) (\<lambda>c.
     hbind (attempt (actor_op did (bs_Get c)) (\<lambda>_. writeXRPCError 404 ''BlockNotFound'' (''block not found: '' @ cs))) (\<lambda>b.
     hbind (get_blocks sv did css) (\<lambda>bs. hret ((c, b) # bs))))"

definition handleSyncGetBlocks :: "('t, 'k) server \<Rightarrow> request \<Rightarrow> world \<Rightarrow> response \<times> world" where
  "handleSyncGetBlocks sv rq = serve
     (let did = query_get rq ''did''; cids = map snd (filter (\<lambda>q. fst q = ''cids'') (rqQuery rq)) in
      hbind (guard (did \<noteq> '''' \<and> cids \<noteq> []) (InvalidRequest ''did and cids are required'')) (\<lambda>_.
      hbind (hosted sv did) (\<lambda>_.
      hbind (get_blocks sv did cids) (\<lambda>blks.
      hret (writeCARResponse sv [] blks)))))"

definition cidStrings :: "cid list \<Rightarrow> data" where
  "cidStrings cids = DList (map DStr cids)"

definition handleSyncListBlobs :: "('t, 'k) server \<Rightarrow> request \<Rightarrow> world \<Rightarrow> response \<times> world" where
  "handleSyncListBlobs sv rq = serve
     (let did = query_get rq ''did''; limit = query_limit rq 500 1000 in
      hbind (guard (did \<noteq> '''') did_required) (\<lambda>_.
      hbind (hosted sv did) (\<lambda>_.
      hbind (attempt (actor_op did (ListBlobCIDs (query_get rq ''cursor'') (int limit)))
        (\<lambda>_. InternalServerError ''failed to list blobs'')) (\<lambda>cids.
      hret (writeJSON 200 (DMap ((''cids'', cidStrings cids) #
        (if length cids = limit then [(''cursor'', DStr (last cids))] else []))))))))"

abbreviation blob_not_found :: response where
  "blob_not_found \<equiv> writeXRPCError 404 ''BlobNotFound'' ''blob not found''"

definition handleSyncGetBlob :: "('t, 'k) server \<Rightarrow> request \<Rightarrow> world \<Rightarrow> response \<times> world" where
  "handleSyncGetBlob sv rq = serve
     (let did = query_get rq ''did''; cs = query_get rq ''cid'' in
      hbind (guard (did \<noteq> '''' \<and> cs \<noteq> '''') (InvalidRequest ''did and cid are required'')) (\<lambda>_.
      hbind (attempt_pure (svCidDecode sv cs) (\<lambda>_. InvalidRequest ''invalid cid'')) (\<lambda>c.
      hbind (hosted sv did) (\<lambda>_.
      hbind (attempt (actor_op did (GetBlobMeta c)) (\<lambda>_. blob_not_found)) (\<lambda>meta.
      hbind (attempt (actor_op did (ReadBlobFile c)) (\<lambda>_. blob_not_found)) (\<lambda>content.
      hret \<lparr>rsStatus = 200, rsHeaders = [(''Content-Type'', blMime meta)], rsAdded = [], rsBody = Binary content\<rparr>))))))"

section \<open>Listing the repositories\<close>

record repo_entry =
  reDID :: string
  reHead :: cid
  reRev :: string
  reStatus :: string

definition entry_view :: "repo_entry \<Rightarrow> data" where
  "entry_view e = DMap ([(''did'', DStr (reDID e)), (''head'', DStr (reHead e)), (''rev'', DStr (reRev e)),
     (''active'', DBool (reStatus e = StatusActive))] @ status_field (reStatus e))"

definition repo_head :: "('t, 'k) server \<Rightarrow> string \<Rightarrow> (world, repo_root_row) op" where
  "repo_head sv did = gobind (actors_GetExisting sv did) (\<lambda>_. actor_op did GetRepoRoot)"

text \<open>The loop over the accounts, which skips what it cannot open and stops at the limit; \<open>acc\<close> is
  \<^verbatim>\<open>repos\<close>.\<close>

fun list_repos :: "('t, 'k) server \<Rightarrow> string \<Rightarrow> nat \<Rightarrow> account list \<Rightarrow> repo_entry list \<Rightarrow> (world, repo_entry list) hd_step" where
  "list_repos sv cursor limit [] acc = hret acc"
| "list_repos sv cursor limit (a # accts) acc =
     (if cursor \<noteq> '''' \<and> acDID a \<le> cursor then list_repos sv cursor limit accts acc
      else hbind (outcome (repo_head sv (acDID a))) (\<lambda>r. case r of
        Inl _ \<Rightarrow> list_repos sv cursor limit accts acc
      | Inr root \<Rightarrow> (let acc' = acc @ [\<lparr>reDID = acDID a, reHead = rrCommitCID root, reRev = rrRev root, reStatus = acStatus a\<rparr>]
          in if length acc' = limit then hret acc' else list_repos sv cursor limit accts acc')))"

definition handleSyncListRepos :: "('t, 'k) server \<Rightarrow> request \<Rightarrow> world \<Rightarrow> response \<times> world" where
  "handleSyncListRepos sv rq = serve
     (let limit = query_limit rq 500 1000 in
      hbind (attempt (on_acct ListAccounts) (\<lambda>_. InternalServerError ''failed to list accounts'')) (\<lambda>accts.
      hbind (list_repos sv (query_get rq ''cursor'') limit accts []) (\<lambda>repos.
      hret (writeJSON 200 (DMap ((''repos'', DList (map entry_view repos)) #
        (if length repos = limit then [(''cursor'', DStr (reDID (last repos)))] else [])))))))"

end
