(* ===== verification/Private.thy ===== *)
theory Private
  imports RepoApi
begin

text \<open>
  \<^verbatim>\<open>internal/xrpc/preferences.go\<close> and \<^verbatim>\<open>internal/xrpc/serviceauth.go\<close>: private preferences, and the
  tokens with which an account talks to another service.
\<close>

section \<open>Preferences\<close>

text \<open>A raw message that is not JSON makes the encoder fail after the status is written.\<close>

definition preferences_view :: "('t, 'k) server \<Rightarrow> string \<Rightarrow> response" where
  "preferences_view sv raw = (case svJsonValue sv raw of
     Some v \<Rightarrow> writeJSON 200 (DMap [(''preferences'', v)])
   | None \<Rightarrow> (writeJSON 200 DNull)\<lparr>rsBody := NoBody\<rparr>)"

definition handleGetPreferences :: "('t, 'k) server \<Rightarrow> request \<Rightarrow> world \<Rightarrow> response \<times> world" where
  "handleGetPreferences sv rq = serve
     (hbind (requireAccessToken sv rq) (\<lambda>did.
      hbind (attempt (actors_Get sv did) (\<lambda>_. open_failed)) (\<lambda>_.
      hbind (outcome (actor_op did GetPreferences)) (\<lambda>r. case r of
        Inr raw \<Rightarrow> hret (preferences_view sv raw)
      | Inl e \<Rightarrow> if e = ActorErrNotFound then hret (writeJSON 200 (DMap [(''preferences'', DList [])]))
          else hstop (InternalServerError ''failed to load preferences'')))))"

definition read_preferences :: "data \<Rightarrow> data option" where
  "read_preferences v = Option.bind (raw_field ''preferences'' v) (\<lambda>raw. raw)"

definition handlePutPreferences :: "('t, 'k) server \<Rightarrow> request \<Rightarrow> world \<Rightarrow> response \<times> world" where
  "handlePutPreferences sv rq = serve
     (hbind (requireMigratableAccessToken sv rq) (\<lambda>did.
      hbind (decode_body (svJson sv) rq read_preferences (InvalidRequest ''preferences is required'')) (\<lambda>prefs.
      hbind (attempt (actors_Get sv did) (\<lambda>_. open_failed)) (\<lambda>_.
      hbind (attempt (actor_op did (SetPreferences (svJsonText sv prefs)))
        (\<lambda>_. InternalServerError ''failed to store preferences'')) (\<lambda>_.
      hret empty_object)))))"

section \<open>Service auth\<close>

definition defaultServiceAuthTTL :: int where "defaultServiceAuthTTL = nanos 60"

definition maxServiceAuthTTL :: int where "maxServiceAuthTTL = nanos 600"

text \<open>\<^verbatim>\<open>time.Until(time.Unix(sec, 0))\<close>: the seconds are counted from the year 1 in 64 bits, where the
  addition wraps around, and the difference is a \<^verbatim>\<open>time.Duration\<close>, which saturates.\<close>

definition unix_offset :: int where "unix_offset = 62135596800"

definition time_until_unix :: "int \<Rightarrow> int \<Rightarrow> int" where
  "time_until_unix now sec =
     (let d = (sint (word_of_int (sec + unix_offset) :: 64 word) - unix_offset) * 1000000000 - now
      in max (- (2 ^ 63)) (min (2 ^ 63 - 1) d))"

definition service_auth_ttl :: "int \<Rightarrow> string \<Rightarrow> response + int" where
  "service_auth_ttl now expStr =
     (if expStr = '''' then Inr defaultServiceAuthTTL
      else (case ParseInt expStr of
        None \<Rightarrow> Inl (InvalidRequest ''invalid exp'')
      | Some sec \<Rightarrow>
          (let ttl = time_until_unix now sec in
           if ttl \<le> 0 then Inl (writeXRPCError 400 ''BadExpiration'' ''exp must be in the future'')
           else if maxServiceAuthTTL < ttl then Inl (writeXRPCError 400 ''BadExpiration'' ''exp is too far in the future'')
           else Inr ttl)))"

definition lex_method :: "('t, 'k) server \<Rightarrow> string \<Rightarrow> response + string option" where
  "lex_method sv lxm = (if lxm = '''' then Inr None
     else (case svParseNSID sv lxm of Inl _ \<Rightarrow> Inl (InvalidRequest ''invalid lxm'') | Inr n \<Rightarrow> Inr (Some n)))"

definition handleGetServiceAuth :: "('t, 'k) server \<Rightarrow> request \<Rightarrow> world \<Rightarrow> response \<times> world" where
  "handleGetServiceAuth sv rq = serve
     (hbind (requirePrivilegedAccessToken sv rq) (\<lambda>did.
      let aud = query_get rq ''aud'' in
      hbind (guard (aud \<noteq> '''') (InvalidRequest ''aud is required'')) (\<lambda>_.
      hbind (attempt_pure (svParseDid sv aud) (\<lambda>_. InvalidRequest ''invalid aud'')) (\<lambda>_.
      hbind (hlift (service_auth_ttl (svNow sv 1) (query_get rq ''exp''))) (\<lambda>ttl.
      hbind (hlift (lex_method sv (query_get rq ''lxm''))) (\<lambda>lxm.
      hbind (attempt (signingKeyFor sv did) (\<lambda>_. no_signing_key)) (\<lambda>key.
      hbind (attempt_pure (svServiceAuth sv did aud ttl lxm key)
        (\<lambda>_. InternalServerError ''failed to sign service auth token'')) (\<lambda>token.
      hret (writeJSON 200 (DMap [(''token'', DStr token)]))))))))))"

end
