(* ===== verification/Plc.thy ===== *)
theory Plc
  imports RepoApi
begin

text \<open>
  \<^verbatim>\<open>internal/plc/plc.go\<close>, the operations of the PLC directory, and the events that the handlers
  of \<^verbatim>\<open>internal/xrpc/admin.go\<close> and \<^verbatim>\<open>identity.go\<close> append to the firehose.
\<close>

section \<open>Signing operations\<close>

record op_fields =
  ofRotationKeys :: "string list"
  ofVerificationMethods :: record_data
  ofAlsoKnownAs :: "string list"
  ofServices :: record_data

definition unsigned_op :: "string option \<Rightarrow> op_fields \<Rightarrow> record_data" where
  "unsigned_op prev f = [(''type'', DStr ''plc_operation''),
     (''rotationKeys'', DList (map DStr (ofRotationKeys f))),
     (''verificationMethods'', DMap (ofVerificationMethods f)),
     (''alsoKnownAs'', DList (map DStr (ofAlsoKnownAs f))),
     (''services'', DMap (ofServices f)),
     (''prev'', case prev of None \<Rightarrow> DNull | Some c \<Rightarrow> DStr c)]"

definition SignOp :: "('t, 'k) server \<Rightarrow> string \<Rightarrow> string option \<Rightarrow> op_fields \<Rightarrow> go_error + record_data" where
  "SignOp sv rotationKey prev f = (case svDumpObject sv (DMap (unsigned_op prev f)) of
     Inl e \<Rightarrow> Inl (Wrapf ''encoding operation'' e)
   | Inr b \<Rightarrow> (case svSignBytes sv rotationKey b of
       Inl e \<Rightarrow> Inl (Wrapf ''signing operation'' e)
     | Inr sig \<Rightarrow> Inr (unsigned_op prev f @ [(''sig'', DStr (base64url_encode sig))])))"

definition didFromOp :: "(bytes \<Rightarrow> bytes) \<Rightarrow> bytes \<Rightarrow> string" where
  "didFromOp sha256 signedCBOR = ''did:plc:'' @ take 24 (base32_encode_lower (sha256 signedCBOR))"

definition pds_services :: "string \<Rightarrow> record_data" where
  "pds_services pdsURL = [(''atproto_pds'', DMap [(''type'', DStr ''AtprotoPersonalDataServer''), (''endpoint'', DStr pdsURL)])]"

definition genesis_fields :: "string \<Rightarrow> string \<Rightarrow> string \<Rightarrow> string \<Rightarrow> op_fields" where
  "genesis_fields rotationPub signingPub handle pdsURL =
     \<lparr>ofRotationKeys = [rotationPub], ofVerificationMethods = [(''atproto'', DStr signingPub)],
      ofAlsoKnownAs = [''at://'' @ handle], ofServices = pds_services pdsURL\<rparr>"

definition Genesis :: "('t, 'k) server \<Rightarrow> string \<Rightarrow> string \<Rightarrow> string \<Rightarrow> string \<Rightarrow> go_error + string \<times> record_data" where
  "Genesis sv rotationKey signingPub handle pdsURL = (case svPubKey sv rotationKey of
     Inl e \<Rightarrow> Inl (Wrapf ''deriving rotation public key'' e)
   | Inr rotationPub \<Rightarrow>
       (case SignOp sv rotationKey None (genesis_fields rotationPub signingPub handle pdsURL) of
          Inl e \<Rightarrow> Inl e
        | Inr signedOp \<Rightarrow>
            (case svDumpObject sv (DMap signedOp) of
               Inl e \<Rightarrow> Inl (Wrapf ''encoding signed operation'' e)
             | Inr b \<Rightarrow> Inr (didFromOp (svSha sv) b, signedOp))))"

section \<open>The client of the directory\<close>

definition plc_url :: "('t, 'k) server \<Rightarrow> string \<Rightarrow> string" where
  "plc_url sv did = trim_right (CHR ''/'') (cfPLCURL sv) @ ''/'' @ did"

definition rejected :: "string \<Rightarrow> nat \<Rightarrow> bytes \<Rightarrow> go_error" where
  "rejected what status b =
     ErrMsg (what @ '' (status '' @ dec_string status @ ''): '' @ string_of (take 4096 b))"

text \<open>The request leaves the server, whatever the directory answers.\<close>

definition log_sent :: "string \<Rightarrow> data \<Rightarrow> world \<Rightarrow> world" where
  "log_sent url v w = w\<lparr>wSent := wSent w @ [(url, v)]\<rparr>"

definition Submit :: "('t, 'k) server \<Rightarrow> string \<Rightarrow> record_data \<Rightarrow> (world, unit) op" where
  "Submit sv did signedOp w = (case svNewRequest sv ''POST'' (plc_url sv did) of
     Inl e \<Rightarrow> (Inl e, w)
   | Inr _ \<Rightarrow> (case svPlcPost sv (plc_url sv did) (DMap signedOp) of
       Inl e \<Rightarrow> (Inl (Wrapf ''submitting PLC operation'' e), log_sent (plc_url sv did) (DMap signedOp) w)
     | Inr (status, b) \<Rightarrow>
         (if 300 \<le> status then Inl (rejected ''PLC server rejected operation'' status b) else Inr (),
          log_sent (plc_url sv did) (DMap signedOp) w)))"

record audit_entry =
  aeCID :: string
  aeOperation :: record_data

definition read_entry :: "data \<Rightarrow> audit_entry option" where
  "read_entry v = (case (str_field ''cid'' v, field as_map [] ''operation'' v) of
     (Some c, Some m) \<Rightarrow> Some \<lparr>aeCID = c, aeOperation = m\<rparr> | _ \<Rightarrow> None)"

fun read_entries :: "data list \<Rightarrow> audit_entry list option" where
  "read_entries [] = Some []"
| "read_entries (v # vs) = (case (read_entry v, read_entries vs) of
     (Some e, Some es) \<Rightarrow> Some (e # es) | _ \<Rightarrow> None)"

definition read_audit_log :: "json_read \<Rightarrow> audit_entry list option" where
  "read_audit_log j = (case j of
     JsonVal (DList vs) _ \<Rightarrow> read_entries vs | JsonVal DNull _ \<Rightarrow> Some [] | _ \<Rightarrow> None)"

definition last_op :: "string \<Rightarrow> audit_entry list \<Rightarrow> go_error + string \<times> record_data" where
  "last_op did es = (if es = [] then Inl (ErrMsg (''no PLC operations found for '' @ did))
     else if aeCID (last es) = '''' then Inl (ErrMsg ''PLC audit log entry missing cid'')
     else Inr (aeCID (last es), aeOperation (last es)))"

definition GetLastOp :: "('t, 'k) server \<Rightarrow> string \<Rightarrow> go_error + string \<times> record_data" where
  "GetLastOp sv did =
     (let url = plc_url sv did @ ''/log/audit'' in
      case svNewRequest sv ''GET'' url of
        Inl e \<Rightarrow> Inl e
      | Inr _ \<Rightarrow> (case svPlcGet sv url of
          Inl e \<Rightarrow> Inl (Wrapf ''fetching PLC audit log'' e)
        | Inr (status, b) \<Rightarrow>
            if 300 \<le> status then Inl (rejected ''PLC server rejected audit log request'' status b)
            else (case read_audit_log (svJson sv b) of
               None \<Rightarrow> Inl (Wrapf ''decoding PLC audit log'' (ErrMsg ''json''))
             | Some es \<Rightarrow> last_op did es)))"

section \<open>Firehose events of the handlers\<close>

text \<open>The Go code reads the clock for the time in the event and again, in \<^verbatim>\<open>Append\<close>, for the row; \<open>now\<close> is both.\<close>

definition append_event :: "('t, 'k) server \<Rightarrow> int \<Rightarrow> string \<Rightarrow> event \<Rightarrow> (world, unit) op" where
  "append_event sv now did e =
     gobind (on_seq (Append (w_cbor (svWire sv)) (w_fmt (svWire sv)) now did e)) (\<lambda>_. goret ())"

definition emitSyncEvent :: "('t, 'k) server \<Rightarrow> int \<Rightarrow> string \<Rightarrow> cid \<Rightarrow> string \<Rightarrow> (world, unit) op" where
  "emitSyncEvent sv now did commitCID rv =
     gobind (actors_Get sv did) (\<lambda>_.
     gobind (actor_op did (bs_Get commitCID)) (\<lambda>b.
     case WriteCAR (w_car (svWire sv)) [commitCID] [(commitCID, b)] of
       (_, Some e) \<Rightarrow> gofail e
     | (car, None) \<Rightarrow> append_event sv now did (no_event\<lparr>RepoSync := Some
         \<lparr>smDid = did, smRev = rv, smBlocks = car, smTime = time_text sv now, smSeq = 0\<rparr>\<rparr>)))"

definition emitAccountEvent :: "('t, 'k) server \<Rightarrow> int \<Rightarrow> string \<Rightarrow> bool \<Rightarrow> string option \<Rightarrow> (world, unit) op" where
  "emitAccountEvent sv now did active status = append_event sv now did (no_event\<lparr>RepoAccount := Some
     \<lparr>amDid = did, amActive = active, amStatus = status, amTime = time_text sv now, amSeq = 0\<rparr>\<rparr>)"

definition emitIdentityEvent :: "('t, 'k) server \<Rightarrow> int \<Rightarrow> string \<Rightarrow> string \<Rightarrow> (world, unit) op" where
  "emitIdentityEvent sv now did handle = append_event sv now did (no_event\<lparr>RepoIdentity := Some
     \<lparr>imDid = did, imHandle = (if handle \<noteq> '''' then Some handle else None), imTime = time_text sv now, imSeq = 0\<rparr>\<rparr>)"

end
