(* ===== verification/Admin.thy ===== *)
theory Admin
  imports Plc
begin

text \<open>
  \<^verbatim>\<open>internal/xrpc/admin.go\<close>: the administration API.
\<close>

section \<open>The guard\<close>

text \<open>\<^verbatim>\<open>r.BasicAuth()\<close>: the password of a Basic authorization header.\<close>

definition basic_password :: "request \<Rightarrow> string option" where
  "basic_password rq = (let h = header_get rq ''Authorization'' in
     if map lower (take 6 h) \<noteq> map lower ''Basic '' then None
     else (case base64_std_decode (drop 6 h) of
       None \<Rightarrow> None
     | Some b \<Rightarrow> (case cut (CHR '':'') (string_of b) of
         (user, pass, ok) \<Rightarrow> if ok then Some pass else None)))"

type_synonym ('t, 'k) handler = "('t, 'k) server \<Rightarrow> request \<Rightarrow> world \<Rightarrow> response \<times> world"

definition admin_forbidden :: response where
  "admin_forbidden = writeXRPCError 403 ''Forbidden'' ''admin API is not reachable from this network''"

definition admin_challenge :: response where
  "admin_challenge = (writeXRPCError 401 ''AuthenticationRequired'' ''invalid admin credentials'')\<lparr>rsHeaders :=
     [(''Www-Authenticate'', ''Basic realm=\"robby-admin\"''), (''Content-Type'', ''application/json'')]\<rparr>"

definition requireAdmin :: "('t, 'k) handler \<Rightarrow> ('t, 'k) handler" where
  "requireAdmin next_handler sv rq w =
     (if \<not> addrInPrefixes (clientAddr rq) (svAdminNets sv) then (admin_forbidden, w)
      else (case basic_password rq of
        None \<Rightarrow> (admin_challenge, w)
      | Some pass \<Rightarrow> if pass \<noteq> cfAdminPassword sv then (admin_challenge, w) else next_handler sv rq w))"

section \<open>Creating accounts\<close>

definition defaultSeedRecords :: "write_op list" where
  "defaultSeedRecords = [\<lparr>woAction = ActionCreate, woCollection = ''app.bsky.notification.declaration'',
     woRKey = ''self'', woRecord = Some [(''$type'', DStr ''app.bsky.notification.declaration''),
       (''allowSubscriptions'', DStr ''followers'')]\<rparr>]"

definition read_pair :: "string \<Rightarrow> string \<Rightarrow> data \<Rightarrow> (string \<times> string) option" where
  "read_pair a b v = (case (str_field a v, str_field b v) of (Some x, Some y) \<Rightarrow> Some (x, y) | _ \<Rightarrow> None)"

definition account_view :: "account \<Rightarrow> data" where
  "account_view a = DMap [(''did'', DStr (acDID a)), (''handle'', DStr (acHandle a)), (''status'', DStr (acStatus a))]"

abbreviation failed :: "string \<Rightarrow> go_error \<Rightarrow> response" where
  "failed m e \<equiv> InternalServerError (err_text m e)"

abbreviation handle_taken :: response where
  "handle_taken \<equiv> writeXRPCError 400 ''HandleNotAvailable'' ''handle already in use''"

text \<open>The keys, the signed genesis operation and the account row of a new account.\<close>

definition genesis_account :: "('t, 'k) server \<Rightarrow> string \<Rightarrow> (world, string \<times> string \<times> string \<times> record_data) hd_step" where
  "genesis_account sv handle =
     hbind (attempt_pure (svGenKey sv 0) (\<lambda>_. InternalServerError ''failed to generate signing key'')) (\<lambda>signing.
     hbind (attempt_pure (svPubKey sv signing) (\<lambda>_. InternalServerError ''failed to derive signing key'')) (\<lambda>signingPub.
     hbind (attempt_pure (svGenKey sv 1) (\<lambda>_. InternalServerError ''failed to generate rotation key'')) (\<lambda>rotation.
     hbind (attempt_pure (Genesis sv rotation signingPub handle (''https://'' @ cfHostname sv))
       (failed ''failed to build PLC genesis operation: '')) (\<lambda>(did, signedOp).
     hret (signing, rotation, did, signedOp)))))"

definition new_account :: "string \<Rightarrow> string \<Rightarrow> string \<Rightarrow> string \<Rightarrow> string \<Rightarrow> int \<Rightarrow> account" where
  "new_account did handle hash signing rotation now = \<lparr>acDID = did, acHandle = handle, acPasswordHash = hash,
     acSigningKey = signing, acRotationKey = rotation, acStatus = StatusActive, acAuthVersion = 0, acCreatedAt = now\<rparr>"

definition init_repo :: "('t, 'k) server \<Rightarrow> string \<Rightarrow> string \<Rightarrow> (world, unit) hd_step" where
  "init_repo sv did signing =
     hbind (attempt (ApplyWrites (svLib sv) (svWire sv) (svParseDid sv) (svTid sv) (svNow sv 1) did signing defaultSeedRecords)
       (failed ''failed to initialize repo: '')) (\<lambda>a.
     hbind (attempt (emitSyncEvent sv (svNow sv 2) did (apCID a) (coRev (apCommit a)))
       (failed ''failed to sequence sync event: '')) (\<lambda>_.
     attempt (emitAccountEvent sv (svNow sv 3) did True None) (failed ''failed to sequence account event: '')))"

text \<open>An endpoint that takes arguments is split in two: reading them from the body, and what it does with them.\<close>

definition admin_create :: "('t, 'k) server \<Rightarrow> string \<Rightarrow> string \<Rightarrow> (world, response) hd_step" where
  "admin_create sv h password =
     (hbind (attempt_pure (svParseHandle sv h) (\<lambda>e. InvalidRequest (err_text ''invalid handle: '' e))) (\<lambda>handle.
      hbind (guard (password \<noteq> '''') (InvalidRequest ''password is required'')) (\<lambda>_.
      hbind (outcome (on_acct (GetAccountByHandle handle))) (\<lambda>r.
      hbind (guard (isl r) handle_taken) (\<lambda>_.
      hbind (genesis_account sv handle) (\<lambda>(signing, rotation, did, signedOp).
      hbind (attempt (Submit sv did signedOp) (failed ''failed to submit PLC operation: '')) (\<lambda>_.
      hbind (attempt_pure (HashPassword (svScrypt sv) (svRand sv 0) password)
        (\<lambda>_. InternalServerError ''failed to hash password'')) (\<lambda>hash.
      let acct = new_account did handle hash signing rotation (svNow sv 0) in
      hbind (attempt (on_acct (CreateAccount acct)) (failed ''failed to store account: '')) (\<lambda>_.
      hbind (init_repo sv did signing) (\<lambda>_.
      hret (writeJSON 200 (account_view acct))))))))))))"

definition handleAdminCreateAccount :: "('t, 'k) handler" where
  "handleAdminCreateAccount sv rq = serve
     (hbind (decode_body (svJson sv) rq (read_pair ''handle'' ''password'') malformed)
        (\<lambda>(h, password). admin_create sv h password))"

definition handleAdminListAccounts :: "('t, 'k) handler" where
  "handleAdminListAccounts sv rq = serve
     (hbind (attempt (on_acct ListAccounts) (\<lambda>_. InternalServerError ''failed to list accounts'')) (\<lambda>accts.
      hret (writeJSON 200 (DMap [(''accounts'', DList (map account_view accts))]))))"

section \<open>Changing accounts\<close>

abbreviation account_not_found :: response where
  "account_not_found \<equiv> NotFound ''account not found''"

definition admin_set_password :: "('t, 'k) server \<Rightarrow> string \<Rightarrow> string \<Rightarrow> (world, response) hd_step" where
  "admin_set_password sv did password =
     (hbind (guard (did \<noteq> '''' \<and> password \<noteq> '''') (InvalidRequest ''did and password are required'')) (\<lambda>_.
      hbind (attempt_pure (HashPassword (svScrypt sv) (svRand sv 0) password)
        (\<lambda>_. InternalServerError ''failed to hash password'')) (\<lambda>hash.
      hbind (attempt (on_acct (SetPasswordHash did hash)) (\<lambda>_. account_not_found)) (\<lambda>_.
      hbind (outcome (on_acct (DeleteRefreshTokensForDID did))) (\<lambda>_.
      hret empty_object)))))"

definition handleAdminSetPassword :: "('t, 'k) handler" where
  "handleAdminSetPassword sv rq = serve
     (hbind (decode_body (svJson sv) rq (read_pair ''did'' ''password'') malformed)
        (\<lambda>(did, password). admin_set_password sv did password))"

text \<open>A status change, the end of the account's sessions and the \<^verbatim>\<open>#account\<close> event; \<open>f\<close> answers a
  failure of the last.\<close>

definition change_status :: "('t, 'k) server \<Rightarrow> int \<Rightarrow> string \<Rightarrow> string \<Rightarrow> (go_error \<Rightarrow> response) \<Rightarrow> (world, response) hd_step" where
  "change_status sv now did status f =
     hbind (attempt (on_acct (SetStatus did status)) (\<lambda>_. account_not_found)) (\<lambda>_.
     hbind (outcome (on_acct (DeleteRefreshTokensForDID did))) (\<lambda>_.
     hbind (attempt (emitAccountEvent sv now did False (Some status)) f) (\<lambda>_.
     hret empty_object)))"

definition admin_deactivate :: "('t, 'k) server \<Rightarrow> string \<Rightarrow> (world, response) hd_step" where
  "admin_deactivate sv did =
     hbind (guard (did \<noteq> '''') (InvalidRequest ''did is required'')) (\<lambda>_.
     change_status sv (svNow sv 0) did StatusDeactivated (failed ''failed to sequence account event: ''))"

definition handleAdminDeactivateAccount :: "('t, 'k) handler" where
  "handleAdminDeactivateAccount sv rq = serve
     (hbind (decode_body (svJson sv) rq (str_field ''did'') malformed) (admin_deactivate sv))"

definition admin_takedown :: "('t, 'k) server \<Rightarrow> string \<Rightarrow> (world, response) hd_step" where
  "admin_takedown sv did =
     hbind (guard (did \<noteq> '''') (InvalidRequest ''did is required'')) (\<lambda>_.
     change_status sv (svNow sv 0) did StatusTakenDown
       (\<lambda>_. InternalServerError ''failed to sequence account event''))"

definition handleAdminTakedownAccount :: "('t, 'k) handler" where
  "handleAdminTakedownAccount sv rq = serve
     (hbind (decode_body (svJson sv) rq (str_field ''did'') malformed) (admin_takedown sv))"

section \<open>One-time tokens and identity refresh\<close>

definition adminTokenTTL :: int where "adminTokenTTL = nanos 900"

definition randomToken :: "go_error + bytes \<Rightarrow> go_error + string" where
  "randomToken rnd = map_sum id hex_encode rnd"

definition token_purpose :: "string \<Rightarrow> string" where
  "token_purpose p = (if p = '''' then TokenPurposePLCSign else p)"

definition admin_approve :: "('t, 'k) server \<Rightarrow> string \<Rightarrow> string \<Rightarrow> (world, response) hd_step" where
  "admin_approve sv did p =
     (hbind (guard (did \<noteq> '''') (InvalidRequest ''did is required'')) (\<lambda>_.
      let purpose = token_purpose p in
      hbind (guard (purpose = TokenPurposePLCSign \<or> purpose = TokenPurposeDeleteAccount)
        (InvalidRequest ''unknown purpose'')) (\<lambda>_.
      hbind (attempt (on_acct (GetAccountByDID did)) (\<lambda>_. account_not_found)) (\<lambda>_.
      hbind (attempt_pure (randomToken (svRand sv 0)) (\<lambda>_. InternalServerError ''failed to generate token'')) (\<lambda>token.
      let expiresAt = svNow sv 0 + adminTokenTTL in
      hbind (attempt (on_acct (CreateAdminToken (svNow sv 1) token did purpose expiresAt))
        (\<lambda>_. InternalServerError ''failed to store token'')) (\<lambda>_.
      hret (writeJSON 200 (DMap [(''token'', DStr token), (''purpose'', DStr purpose),
        (''expiresAt'', DStr (time_text sv expiresAt))]))))))))"

definition handleAdminApproveToken :: "('t, 'k) handler" where
  "handleAdminApproveToken sv rq = serve
     (hbind (decode_body (svJson sv) rq (read_pair ''did'' ''purpose'') malformed) (\<lambda>(did, p). admin_approve sv did p))"

definition admin_refresh :: "('t, 'k) server \<Rightarrow> string \<Rightarrow> (world, response) hd_step" where
  "admin_refresh sv did =
     (hbind (guard (did \<noteq> '''') (InvalidRequest ''did is required'')) (\<lambda>_.
      hbind (attempt (on_acct (GetAccountByDID did)) (\<lambda>_. account_not_found)) (\<lambda>a.
      hbind (attempt (emitIdentityEvent sv (svNow sv 0) (acDID a) (acHandle a))
        (failed ''failed to sequence identity event: '')) (\<lambda>_.
      hret (writeJSON 200 (DMap [(''did'', DStr (acDID a)), (''handle'', DStr (acHandle a))]))))))"

definition handleAdminRefreshIdentity :: "('t, 'k) handler" where
  "handleAdminRefreshIdentity sv rq = serve
     (hbind (decode_body (svJson sv) rq (str_field ''did'') malformed) (admin_refresh sv))"

end
