(* ===== verification/Identity.thy ===== *)
theory Identity
  imports Admin
begin

text \<open>
  \<^verbatim>\<open>internal/xrpc/identity.go\<close>: handles and the operations on an account's DID.
\<close>

section \<open>Fields of an operation\<close>

text \<open>A JSON object as a Go map: of two entries with one key the last counts.\<close>

definition json_get :: "record_data \<Rightarrow> string \<Rightarrow> data option" where
  "json_get m k = map_of (rev m) k"

definition json_value :: "record_data \<Rightarrow> string \<Rightarrow> data" where
  "json_value m k = (case json_get m k of None \<Rightarrow> DNull | Some v \<Rightarrow> v)"

fun strings_of :: "data list \<Rightarrow> string list" where
  "strings_of [] = []"
| "strings_of (DStr s # vs) = s # strings_of vs"
| "strings_of (_ # vs) = strings_of vs"

definition toStringSlice :: "data \<Rightarrow> string list" where
  "toStringSlice v = (case v of DList xs \<Rightarrow> strings_of xs | _ \<Rightarrow> [])"

definition toMap :: "data \<Rightarrow> record_data" where
  "toMap v = (case v of DMap m \<Rightarrow> m | _ \<Rightarrow> [])"

definition pickStringSlice :: "record_data \<Rightarrow> string \<Rightarrow> data \<Rightarrow> string list" where
  "pickStringSlice m key fallback = (case json_get m key of Some v \<Rightarrow> toStringSlice v | None \<Rightarrow> toStringSlice fallback)"

definition pickMap :: "record_data \<Rightarrow> string \<Rightarrow> data \<Rightarrow> record_data" where
  "pickMap m key fallback = (case json_get m key of Some v \<Rightarrow> toMap v | None \<Rightarrow> toMap fallback)"

section \<open>Changing the handle\<close>

definition update_fields :: "record_data \<Rightarrow> string \<Rightarrow> op_fields" where
  "update_fields lastOp handle = \<lparr>ofRotationKeys = toStringSlice (json_value lastOp ''rotationKeys''),
     ofVerificationMethods = toMap (json_value lastOp ''verificationMethods''),
     ofAlsoKnownAs = [''at://'' @ handle], ofServices = toMap (json_value lastOp ''services'')\<rparr>"

definition taken_by_other :: "string \<Rightarrow> go_error + account \<Rightarrow> bool" where
  "taken_by_other did r = (case r of Inl _ \<Rightarrow> False | Inr a \<Rightarrow> acDID a \<noteq> did)"

text \<open>The account, its rotation key and the last operation of its DID.\<close>

definition plc_state :: "('t, 'k) server \<Rightarrow> string \<Rightarrow> (world, string \<times> string \<times> record_data) hd_step" where
  "plc_state sv did =
     hbind (attempt (on_acct (GetAccountByDID did)) (\<lambda>_. account_not_found)) (\<lambda>a.
     hbind (attempt_pure (svParseKey sv (acRotationKey a)) (\<lambda>_. InternalServerError ''failed to load rotation key'')) (\<lambda>key.
     hbind (attempt_pure (GetLastOp sv did) (failed ''failed to fetch current PLC state: '')) (\<lambda>(prev, lastOp).
     hret (key, prev, lastOp))))"

abbreviation upstream_failure :: "string \<Rightarrow> go_error \<Rightarrow> response" where
  "upstream_failure m e \<equiv> writeXRPCError 502 ''UpstreamFailure'' (err_text m e)"

abbreviation sign_failed :: response where
  "sign_failed \<equiv> InternalServerError ''failed to sign PLC operation''"

abbreviation identity_event_failed :: response where
  "identity_event_failed \<equiv> InternalServerError ''failed to sequence identity event''"

definition handleUpdateHandle :: "('t, 'k) handler" where
  "handleUpdateHandle sv rq = serve
     (hbind (requirePrivilegedAccessToken sv rq) (\<lambda>did.
      hbind (decode_body (svJson sv) rq (str_field ''handle'') malformed) (\<lambda>h.
      hbind (attempt_pure (svParseHandle sv h) (\<lambda>_. InvalidRequest ''invalid handle'')) (\<lambda>newHandle.
      hbind (outcome (on_acct (GetAccountByHandle newHandle))) (\<lambda>r.
      hbind (guard (\<not> taken_by_other did r) handle_taken) (\<lambda>_.
      hbind (plc_state sv did) (\<lambda>(key, prev, lastOp).
      hbind (attempt_pure (SignOp sv key (Some prev) (update_fields lastOp newHandle)) (\<lambda>_. sign_failed)) (\<lambda>signedOp.
      hbind (attempt (Submit sv did signedOp) (upstream_failure ''failed to submit PLC operation: '')) (\<lambda>_.
      hbind (attempt (on_acct (SetHandle did newHandle)) (\<lambda>_. InternalServerError ''failed to update local handle record'')) (\<lambda>_.
      hbind (attempt (emitIdentityEvent sv (svNow sv 1) did newHandle) (\<lambda>_. identity_event_failed)) (\<lambda>_.
      hret empty_object)))))))))))"

section \<open>Recommended credentials\<close>

definition publicKeyOf :: "('t, 'k) server \<Rightarrow> string \<Rightarrow> go_error + string" where
  "publicKeyOf sv multibasePriv = (case svParseKey sv multibasePriv of Inl e \<Rightarrow> Inl e | Inr key \<Rightarrow> svPubKey sv key)"

definition handleGetRecommendedDidCredentials :: "('t, 'k) handler" where
  "handleGetRecommendedDidCredentials sv rq = serve
     (hbind (requirePrivilegedAccessToken sv rq) (\<lambda>did.
      hbind (attempt (on_acct (GetAccountByDID did)) (\<lambda>_. account_not_found)) (\<lambda>a.
      hbind (attempt_pure (publicKeyOf sv (acSigningKey a)) (\<lambda>_. no_signing_key)) (\<lambda>signingPub.
      hbind (attempt_pure (publicKeyOf sv (acRotationKey a)) (\<lambda>_. InternalServerError ''failed to load rotation key'')) (\<lambda>rotationPub.
      hret (writeJSON 200 (DMap [(''rotationKeys'', DList [DStr rotationPub]),
        (''alsoKnownAs'', DList [DStr (''at://'' @ acHandle a)]),
        (''verificationMethods'', DMap [(''atproto'', DStr signingPub)]),
        (''services'', DMap (pds_services (''https://'' @ cfHostname sv)))])))))))"

section \<open>Signing and submitting operations\<close>

definition read_object :: "data \<Rightarrow> record_data option" where
  "read_object v = (case v of DNull \<Rightarrow> Some [] | DMap m \<Rightarrow> Some m | _ \<Rightarrow> None)"

definition string_value :: "record_data \<Rightarrow> string \<Rightarrow> string" where
  "string_value m k = (case json_get m k of Some (DStr s) \<Rightarrow> s | _ \<Rightarrow> '''')"

definition merged_fields :: "record_data \<Rightarrow> record_data \<Rightarrow> op_fields" where
  "merged_fields m lastOp =
     \<lparr>ofRotationKeys = pickStringSlice m ''rotationKeys'' (json_value lastOp ''rotationKeys''),
      ofVerificationMethods = pickMap m ''verificationMethods'' (json_value lastOp ''verificationMethods''),
      ofAlsoKnownAs = pickStringSlice m ''alsoKnownAs'' (json_value lastOp ''alsoKnownAs''),
      ofServices = pickMap m ''services'' (json_value lastOp ''services'')\<rparr>"

definition handleSignPlcOperation :: "('t, 'k) handler" where
  "handleSignPlcOperation sv rq = serve
     (hbind (requirePrivilegedAccessToken sv rq) (\<lambda>did.
      hbind (decode_body (svJson sv) rq read_object malformed) (\<lambda>m.
      let token = string_value m ''token'' in
      hbind (guard (token \<noteq> '''') (InvalidRequest ''token is required'')) (\<lambda>_.
      hbind (attempt (on_acct (ConsumeAdminToken (svNow sv 1) token did TokenPurposePLCSign))
        (\<lambda>_. Unauthorized ''InvalidToken'' ''invalid or expired token'')) (\<lambda>_.
      hbind (plc_state sv did) (\<lambda>(key, prev, lastOp).
      hbind (attempt_pure (SignOp sv key (Some prev) (merged_fields m lastOp)) (\<lambda>_. sign_failed)) (\<lambda>signedOp.
      hret (writeJSON 200 (DMap [(''operation'', DMap signedOp)])))))))))"

definition read_operation :: "data \<Rightarrow> record_data option" where
  "read_operation v = Option.bind (opt_field as_map ''operation'' v) (\<lambda>x. x)"

definition op_handle :: "record_data \<Rightarrow> string" where
  "op_handle m = (case json_get m ''alsoKnownAs'' of
     Some (DList (DStr h # _)) \<Rightarrow> trim_prefix h ''at://'' | _ \<Rightarrow> '''')"

text \<open>A handle that another account has is left as it was, without an error.\<close>

definition sync_handle :: "string \<Rightarrow> string \<Rightarrow> (world, unit) hd_step" where
  "sync_handle did newHandle = (if newHandle \<noteq> ''''
     then hbind (outcome (on_acct (SetHandle did newHandle))) (\<lambda>_. hret ()) else hret ())"

definition handleSubmitPlcOperation :: "('t, 'k) handler" where
  "handleSubmitPlcOperation sv rq = serve
     (hbind (requirePrivilegedAccessToken sv rq) (\<lambda>did.
      hbind (decode_body (svJson sv) rq read_operation (InvalidRequest ''operation is required'')) (\<lambda>operation.
      hbind (attempt (Submit sv did operation) (upstream_failure ''failed to submit PLC operation: '')) (\<lambda>_.
      hbind (sync_handle did (op_handle operation)) (\<lambda>_.
      hbind (attempt (emitIdentityEvent sv (svNow sv 1) did (op_handle operation)) (\<lambda>_. identity_event_failed)) (\<lambda>_.
      hret empty_object))))))"

end
