(* ===== verification/Migration.thy ===== *)
theory Migration
  imports Admin
begin

text \<open>
  \<^verbatim>\<open>internal/xrpc/migration.go\<close>: moving an account in, and ending one.
\<close>

section \<open>Reserving a signing key\<close>

text \<open>The body is optional and its error dropped: what was stored before the error counts.\<close>

definition first_json :: "(bytes \<Rightarrow> json_read) \<Rightarrow> request \<Rightarrow> data" where
  "first_json dec rq = (case dec (take (maxJSONBodyBytes + 1) (rqBody rq)) of JsonVal v _ \<Rightarrow> v | _ \<Rightarrow> DNull)"

definition lenient_str :: "string \<Rightarrow> data \<Rightarrow> string" where
  "lenient_str name v = (case v of
     DMap kvs \<Rightarrow> foldl (\<lambda>acc (k, x). case (same_key k name, x) of (True, DStr s) \<Rightarrow> s | _ \<Rightarrow> acc) '''' kvs
   | _ \<Rightarrow> '''')"

definition key_view :: "string \<Rightarrow> response" where
  "key_view pub = writeJSON 200 (DMap [(''signingKey'', DStr pub)])"

abbreviation derive_failed :: response where
  "derive_failed \<equiv> InternalServerError ''failed to derive signing key''"

definition fresh_key :: "('t, 'k) server \<Rightarrow> string \<Rightarrow> (world, response) hd_step" where
  "fresh_key sv did =
     hbind (attempt_pure (svGenKey sv 0) (\<lambda>_. InternalServerError ''failed to generate signing key'')) (\<lambda>key.
     hbind (attempt_pure (svPubKey sv key) (\<lambda>_. derive_failed)) (\<lambda>pub.
     hbind (if did \<noteq> '''' then attempt (on_acct (ReserveSigningKey (svNow sv 1) did key))
              (\<lambda>_. InternalServerError ''failed to reserve signing key'') else hret ()) (\<lambda>_.
     hret (key_view pub))))"

definition handleReserveSigningKey :: "('t, 'k) handler" where
  "handleReserveSigningKey sv rq = serve
     (let did = lenient_str ''did'' (first_json (svJson sv) rq) in
      if did = '''' then fresh_key sv did
      else hbind (attempt_pure (svParseDid sv did) (\<lambda>_. InvalidRequest ''invalid did'')) (\<lambda>_.
        hbind (outcome (on_acct (GetReservedSigningKey (svNow sv 0) did))) (\<lambda>r. case r of
          Inl _ \<Rightarrow> fresh_key sv did
        | Inr existing \<Rightarrow>
            hbind (attempt_pure (svParseKey sv existing) (\<lambda>_. InternalServerError ''invalid reserved signing key'')) (\<lambda>key.
            hbind (attempt_pure (svPubKey sv key) (\<lambda>_. derive_failed)) (\<lambda>pub.
            hret (key_view pub))))))"

section \<open>Creating an account for an existing DID\<close>

record create_input =
  ciDID :: string
  ciHandle :: string
  ciPassword :: string

definition read_create_input :: "data \<Rightarrow> create_input option" where
  "read_create_input v = (case (str_field ''did'' v, str_field ''handle'' v, str_field ''password'' v,
       str_field ''email'' v, str_field ''inviteCode'' v) of
     (Some d, Some h, Some p, Some _, Some _) \<Rightarrow> Some \<lparr>ciDID = d, ciHandle = h, ciPassword = p\<rparr>
   | _ \<Rightarrow> None)"

text \<open>\<^verbatim>\<open>callerDID != did\<close>: both are parsed DIDs.\<close>

definition require_service_auth :: "('t, 'k) server \<Rightarrow> request \<Rightarrow> string \<Rightarrow> (world, unit) hd_step" where
  "require_service_auth sv rq did = (case bearerToken rq of
     None \<Rightarrow> hstop (Unauthorized ''AuthenticationRequired'' ''missing service-auth bearer token'')
   | Some tok \<Rightarrow> guard (svValidate sv (ServiceDID sv) tok ''com.atproto.server.createAccount'' = Inr did)
       (Unauthorized ''AuthenticationRequired'' ''invalid or non-matching service-auth token''))"

text \<open>The signing key, reserved or new, and a new rotation key.\<close>

definition account_keys :: "('t, 'k) server \<Rightarrow> string \<Rightarrow> (world, string \<times> string) hd_step" where
  "account_keys sv did =
     hbind (outcome (on_acct (GetReservedSigningKey (svNow sv 0) did))) (\<lambda>r.
     hbind (attempt_pure (case r of Inr reserved \<Rightarrow> svParseKey sv reserved | Inl _ \<Rightarrow> svGenKey sv 0)
       (\<lambda>_. InternalServerError ''failed to establish signing key'')) (\<lambda>signing.
     hbind (attempt_pure (svGenKey sv (if isl r then 1 else 0))
       (\<lambda>_. InternalServerError ''failed to generate rotation key'')) (\<lambda>rotation.
     hret (signing, rotation))))"

definition migrated_account :: "string \<Rightarrow> string \<Rightarrow> string \<Rightarrow> string \<Rightarrow> string \<Rightarrow> int \<Rightarrow> account" where
  "migrated_account did handle hash signing rotation now =
     (new_account did handle hash signing rotation now)\<lparr>acStatus := StatusDeactivated, acAuthVersion := 1\<rparr>"

definition handleServerCreateAccount :: "('t, 'k) handler" where
  "handleServerCreateAccount sv rq = serve
     (hbind (decode_body (svJson sv) rq read_create_input malformed) (\<lambda>i.
      hbind (guard (ciDID i \<noteq> '''') (InvalidRequest
        ''this server only creates accounts via migration (did is required); new accounts are created by the admin'')) (\<lambda>_.
      hbind (attempt_pure (svParseDid sv (ciDID i)) (\<lambda>_. InvalidRequest ''invalid did'')) (\<lambda>did.
      hbind (attempt_pure (svParseHandle sv (ciHandle i)) (\<lambda>_. writeXRPCError 400 ''InvalidHandle'' ''invalid handle'')) (\<lambda>handle.
      hbind (guard (ciPassword i \<noteq> '''') (writeXRPCError 400 ''InvalidPassword'' ''password is required'')) (\<lambda>_.
      hbind (require_service_auth sv rq did) (\<lambda>_.
      hbind (outcome (on_acct (GetAccountByDID did))) (\<lambda>r.
      hbind (guard (isl r) (InvalidRequest ''this DID is already registered on this server'')) (\<lambda>_.
      hbind (outcome (on_acct (GetAccountByHandle handle))) (\<lambda>r.
      hbind (guard (isl r) handle_taken) (\<lambda>_.
      hbind (account_keys sv did) (\<lambda>(signing, rotation).
      hbind (attempt_pure (HashPassword (svScrypt sv) (svRand sv 0) (ciPassword i))
        (\<lambda>_. InternalServerError ''failed to hash password'')) (\<lambda>hash.
      let acct = migrated_account did handle hash signing rotation (svNow sv 1) in
      hbind (attempt (on_acct (CreateAccount acct)) (failed ''failed to store account: '')) (\<lambda>_.
      issueSession sv 2 1 acct \<lparr>crKind = CredentialPrimary, crAppPasswordName = ''''\<rparr>))))))))))))))"

section \<open>Importing a repository\<close>

definition maxImportSize :: nat where "maxImportSize = 500 * 2 ^ 20"

text \<open>\<^verbatim>\<open>BeginTx\<close>, handler steps on the store, \<^verbatim>\<open>Commit\<close>, with a deferred \<^verbatim>\<open>Rollback\<close>.\<close>

definition tx_steps :: "response \<Rightarrow> response \<Rightarrow> ('a dbconn_scheme, 'r) hd_step \<Rightarrow> ('a dbconn_scheme, 'r) hd_step" where
  "tx_steps begin_failed commit_failed m s =
     (case stmt (goret ()) s of
        (Inl _, s1) \<Rightarrow> (Inl begin_failed, s1)
      | (Inr _, s1) \<Rightarrow>
          (case m s1 of
             (Inl r, s2) \<Rightarrow> (Inl r, s1\<lparr>tape := tape s2\<rparr>)
           | (Inr x, s2) \<Rightarrow>
               (case stmt (goret ()) s2 of
                  (Inl _, s3) \<Rightarrow> (Inl commit_failed, s1\<lparr>tape := tape s3\<rparr>)
                | (Inr _, s3) \<Rightarrow> (Inr x, s3))))"

text \<open>Handler steps on the store of \<open>did\<close>, which \<open>actors_Get\<close> has opened.\<close>

definition actor_steps :: "string \<Rightarrow> (actordb, 'a) hd_step \<Rightarrow> (world, 'a) hd_step" where
  "actor_steps did m w = (case disk (wMgr w) did of
     None \<Rightarrow> (Inl open_failed, w)
   | Some d \<Rightarrow> (case m d of (r, d') \<Rightarrow> (r, w\<lparr>wMgr := (wMgr w)\<lparr>disk := (disk (wMgr w))(did \<mapsto> d')\<rparr>\<rparr>)))"

text \<open>The loop over the blocks; \<open>acc\<close> is \<^verbatim>\<open>commitBytes\<close>.\<close>

fun import_blocks :: "cid \<Rightarrow> block list \<Rightarrow> go_error option \<Rightarrow> bytes option \<Rightarrow> (actordb, bytes option) hd_step" where
  "import_blocks commitCID [] err acc =
     (if err = None then hret acc else hstop (InvalidRequest ''malformed CAR block stream''))"
| "import_blocks commitCID (b # bs) err acc =
     hbind (attempt (bs_Put b) (\<lambda>_. InternalServerError ''failed to store block'')) (\<lambda>_.
     import_blocks commitCID bs err (if fst b = commitCID then Some (snd b) else acc))"

definition check_commit :: "('t, 'k) server \<Rightarrow> string \<Rightarrow> bytes option \<Rightarrow> ('s, commit) hd_step" where
  "check_commit sv did commitBytes = (case commitBytes of
     None \<Rightarrow> hstop (InvalidRequest ''CAR file did not include the commit block'')
   | Some b \<Rightarrow>
       hbind (attempt_pure (unmarshal_commit (svLib sv) b) (\<lambda>e. InvalidRequest (err_text ''failed to parse commit: '' e))) (\<lambda>c.
       hbind (attempt_pure (svVerifyStructure sv c) (\<lambda>e. InvalidRequest (err_text ''invalid commit: '' e))) (\<lambda>_.
       hbind (guard (coDID c = did) (InvalidRequest ''commit DID does not match authenticated account'')) (\<lambda>_.
       hbind (attempt_pure (svParseDid sv did) (\<lambda>_. InternalServerError ''invalid account DID'')) (\<lambda>parsedDID.
       hbind (attempt_pure (svLookupKey sv parsedDID)
         (\<lambda>e. InvalidRequest (err_text ''failed to resolve current identity: '' e))) (\<lambda>ident.
       hbind (attempt_pure ident (\<lambda>e. InvalidRequest (err_text ''failed to resolve current signing key: '' e))) (\<lambda>pubKey.
       hbind (attempt_pure (svVerifySig sv pubKey c)
         (\<lambda>e. InvalidRequest (err_text ''commit signature verification failed: '' e))) (\<lambda>_.
       hret c))))))))"

text \<open>One entry of the tree walk.\<close>

definition walk_entry :: "('t, 'k) repo_lib \<Rightarrow> string \<times> cid \<Rightarrow> (actordb, unit) op" where
  "walk_entry lib e = (case e of (key, val) \<Rightarrow> (case cut (CHR ''/'') key of (collection, rkey, ok) \<Rightarrow>
     if \<not> ok then gofail (ErrMsg (''malformed record path in MST: \"'' @ key @ ''\"''))
     else gobind (PutRecordIndex collection rkey val) (\<lambda>_.
       gobind (wrapf (''reading record block '' @ val) (bs_Get val)) (\<lambda>b.
       gobind (wrapf (''decoding record '' @ val) (liftE (unmarshal_data lib b))) (\<lambda>r.
       goeach (put_blob collection rkey) (extract_blobs lib r))))))"

definition importWalk :: "('t, 'k) repo_lib \<Rightarrow> 't \<Rightarrow> (actordb, unit) op" where
  "importWalk lib tree = goeach (walk_entry lib) (mst_entries lib tree)"

definition load_mst :: "('t, 'k) repo_lib \<Rightarrow> cid \<Rightarrow> (actordb, 't) op" where
  "load_mst lib root = gobind (query_row (\<lambda>d. mst_load lib (map_of (blocks d)) root)) liftE"

definition import_body :: "('t, 'k) server \<Rightarrow> string \<Rightarrow> cid \<Rightarrow> car_file \<Rightarrow> (actordb, commit) hd_step" where
  "import_body sv did commitCID cr =
     hbind (attempt ClearRepo (\<lambda>_. InternalServerError ''failed to clear existing repo'')) (\<lambda>_.
     hbind (import_blocks commitCID (cfBlocks cr) (cfEnd cr) None) (\<lambda>commitBytes.
     hbind (check_commit sv did commitBytes) (\<lambda>c.
     hbind (attempt (load_mst (svLib sv) (coData c)) (\<lambda>e. InvalidRequest (err_text ''failed to load MST: '' e))) (\<lambda>tree.
     hbind (attempt (importWalk (svLib sv) tree)
       (\<lambda>e. InvalidRequest (err_text ''failed to index imported records: '' e))) (\<lambda>_.
     hbind (attempt (SetRepoRoot commitCID (coRev c)) (\<lambda>_. InternalServerError ''failed to set repo root'')) (\<lambda>_.
     hret c))))))"

definition handleImportRepo :: "('t, 'k) handler" where
  "handleImportRepo sv rq = serve
     (hbind (requireMigrationAccessToken sv rq) (\<lambda>did.
      hbind (attempt_pure (read_body sv rq (maxImportSize + 1)) (\<lambda>_. InvalidRequest ''failed to read CAR body'')) (\<lambda>carBytes.
      hbind (guard (length carBytes \<le> maxImportSize) (InvalidRequest ''CAR exceeds max import size'')) (\<lambda>_.
      hbind (attempt_pure (svCar sv carBytes) (\<lambda>e. InvalidRequest (err_text ''failed to parse CAR: '' e))) (\<lambda>cr.
      hbind (guard (cfRoots cr \<noteq> []) (InvalidRequest ''CAR file missing root CID'')) (\<lambda>_.
      let commitCID = hd (cfRoots cr) in
      hbind (attempt (actors_Get sv did) (\<lambda>_. open_failed)) (\<lambda>_.
      hbind (actor_steps did (tx_steps (InternalServerError ''failed to begin import'')
        (InternalServerError ''failed to commit import'') (import_body sv did commitCID cr))) (\<lambda>c.
      hbind (attempt (emitSyncEvent sv (svNow sv 1) did commitCID (coRev c))
        (\<lambda>_. InternalServerError ''failed to sequence sync event'')) (\<lambda>_.
      hret empty_object)))))))))"

section \<open>Missing blobs\<close>

definition missing_view :: "string \<Rightarrow> blob_ref_row \<Rightarrow> data" where
  "missing_view did r = DMap [(''cid'', DStr (brCID r)), (''recordUri'', DStr (recordURI did (brCollection r) (brRKey r)))]"

text \<open>The loop that skips up to the cursor and stops at the limit.\<close>

fun missing_page :: "string \<Rightarrow> nat \<Rightarrow> blob_ref_row list \<Rightarrow> blob_ref_row list \<Rightarrow> blob_ref_row list" where
  "missing_page cursor limit [] acc = acc"
| "missing_page cursor limit (r # refs) acc =
     (if cursor \<noteq> '''' \<and> brCID r \<le> cursor then missing_page cursor limit refs acc
      else if length (acc @ [r]) = limit then acc @ [r]
      else missing_page cursor limit refs (acc @ [r]))"

definition handleListMissingBlobs :: "('t, 'k) handler" where
  "handleListMissingBlobs sv rq = serve
     (hbind (requireMigrationAccessToken sv rq) (\<lambda>did.
      let limit = query_limit rq 500 1000 in
      hbind (attempt (actors_Get sv did) (\<lambda>_. open_failed)) (\<lambda>_.
      hbind (attempt (actor_op did MissingBlobRefs) (\<lambda>_. InternalServerError ''failed to list missing blobs'')) (\<lambda>refs.
      let page = missing_page (query_get rq ''cursor'') limit refs [] in
      hret (writeJSON 200 (DMap ((''blobs'', DList (map (missing_view did) page)) #
        (if length page = limit then [(''cursor'', DStr (brCID (last page)))] else []))))))))"

section \<open>Activating, deactivating and deleting\<close>

abbreviation account_event_failed :: response where
  "account_event_failed \<equiv> InternalServerError ''failed to sequence account event''"

definition handleActivateAccount :: "('t, 'k) handler" where
  "handleActivateAccount sv rq = serve
     (hbind (requireMigrationAccessToken sv rq) (\<lambda>did.
      hbind (attempt (actors_Get sv did) (\<lambda>_. open_failed)) (\<lambda>_.
      hbind (attempt (actor_op did GetRepoRoot)
        (\<lambda>_. InvalidRequest ''account has no repo yet; import one before activating'')) (\<lambda>_.
      hbind (attempt (on_acct (ActivateAccount did)) (\<lambda>_. account_not_found)) (\<lambda>_.
      hbind (attempt (emitAccountEvent sv (svNow sv 1) did True None) (\<lambda>_. account_event_failed)) (\<lambda>_.
      hret empty_object))))))"

definition handleDeactivateAccountSelf :: "('t, 'k) handler" where
  "handleDeactivateAccountSelf sv rq = serve
     (hbind (requirePrivilegedAccessToken sv rq) (\<lambda>did.
      change_status sv (svNow sv 1) did StatusDeactivated (\<lambda>_. account_event_failed)))"

definition read_delete_account :: "data \<Rightarrow> (string \<times> string \<times> string) option" where
  "read_delete_account v = (case (str_field ''did'' v, str_field ''password'' v, str_field ''token'' v) of
     (Some d, Some p, Some t) \<Rightarrow> Some (d, p, t) | _ \<Rightarrow> None)"

definition handleDeleteAccount :: "('t, 'k) handler" where
  "handleDeleteAccount sv rq = serve
     (hbind (requirePrivilegedAccessToken sv rq) (\<lambda>callerDID.
      hbind (decode_body (svJson sv) rq read_delete_account malformed) (\<lambda>(did, password, token).
      hbind (guard (did = callerDID) (writeXRPCError 403 ''AuthRequired'' ''can only delete your own account'')) (\<lambda>_.
      hbind (attempt (on_acct (GetAccountByDID callerDID)) (\<lambda>_. account_not_found)) (\<lambda>acct.
      hbind (guard (VerifyPassword (svScrypt sv) password (acPasswordHash acct) = Inr True)
        (Unauthorized ''AuthenticationRequired'' ''invalid password'')) (\<lambda>_.
      hbind (attempt (on_acct (ConsumeAdminToken (svNow sv 1) token callerDID TokenPurposeDeleteAccount))
        (\<lambda>_. Unauthorized ''InvalidToken'' ''invalid or expired deletion token'')) (\<lambda>_.
      hbind (attempt (on_acct (DeleteRefreshTokensForDID callerDID)) (\<lambda>_. InternalServerError ''failed to revoke sessions'')) (\<lambda>_.
      hbind (attempt (on_acct (DeleteAccount callerDID)) (\<lambda>_. InternalServerError ''failed to delete account'')) (\<lambda>_.
      hret empty_object)))))))))"

section \<open>The state of an account\<close>

definition our_pds :: "('t, 'k) server \<Rightarrow> did_service \<Rightarrow> bool" where
  "our_pds sv svc \<longleftrightarrow> suffix ''#atproto_pds'' (dsID svc)
     \<and> trim_right (CHR ''/'') (dsEndpoint svc) = ''https://'' @ cfHostname sv"

definition valid_did :: "('t, 'k) server \<Rightarrow> string \<Rightarrow> bool" where
  "valid_did sv did = (case svParseDid sv did of
     Inl _ \<Rightarrow> True
   | Inr parsed \<Rightarrow> (case svResolve sv False parsed of
       Inl _ \<Rightarrow> True
     | Inr svcs \<Rightarrow> list_ex (our_pds sv) svcs))"

text \<open>A count that cannot be read is reported as 0.\<close>

definition count_of :: "string \<Rightarrow> (actordb, 'n) op \<Rightarrow> ('n \<Rightarrow> int) \<Rightarrow> (world, int) hd_step" where
  "count_of did m to_int = hbind (outcome (actor_op did m)) (\<lambda>r. hret (case r of Inl _ \<Rightarrow> 0 | Inr n \<Rightarrow> to_int n))"

definition root_texts :: "go_error + repo_root_row \<Rightarrow> string \<times> string" where
  "root_texts r = (case r of Inl _ \<Rightarrow> ('''', '''') | Inr root \<Rightarrow> (rrCommitCID root, rrRev root))"

definition handleCheckAccountStatus :: "('t, 'k) handler" where
  "handleCheckAccountStatus sv rq = serve
     (hbind (requireAccessToken sv rq) (\<lambda>did.
      hbind (attempt (on_acct (GetAccountByDID did)) (\<lambda>_. account_not_found)) (\<lambda>acct.
      hbind (attempt (actors_Get sv did) (\<lambda>_. open_failed)) (\<lambda>_.
      hbind (outcome (actor_op did GetRepoRoot)) (\<lambda>root.
      hbind (count_of did CountBlocks int) (\<lambda>nBlocks.
      hbind (count_of did CountRecords int) (\<lambda>nRecords.
      hbind (count_of did CountBlobs int) (\<lambda>nBlobs.
      hbind (count_of did CountImportedBlobs id) (\<lambda>nImported.
      hret (writeJSON 200 (DMap [(''activated'', DBool (acStatus acct = StatusActive)),
        (''validDid'', DBool (valid_did sv did)), (''repoCommit'', DStr (fst (root_texts root))),
        (''repoRev'', DStr (snd (root_texts root))), (''repoBlocks'', DInt nBlocks), (''indexedRecords'', DInt nRecords),
        (''privateStateValues'', DInt 0), (''expectedBlobs'', DInt nBlobs), (''importedBlobs'', DInt nImported)])))))))))))"

end
