(* ===== verification/Proxy.thy ===== *)
theory Proxy
  imports RepoApi
begin

text \<open>
  \<^verbatim>\<open>internal/xrpc/proxy.go\<close>: forwarding a request that no local route handles.
\<close>

definition proxyServiceAuthTTL :: int where "proxyServiceAuthTTL = nanos 60"

section \<open>The target\<close>

record proxy_target =
  tgDID :: string
  tgURL :: string
  tgTrusted :: bool

fun pick_service :: "string \<Rightarrow> string \<Rightarrow> did_service list \<Rightarrow> go_error + proxy_target" where
  "pick_service did serviceID [] =
     Inl (ErrMsg (''no matching service \"'' @ serviceID @ ''\" in DID document for '' @ did))"
| "pick_service did serviceID (svc # svcs) =
     (if dsID svc = serviceID \<or> dsID svc = did @ serviceID
      then if \<not> has_prefix (dsEndpoint svc) ''https://'' then Inl (ErrMsg ''proxy target endpoint must be https'')
           else Inr \<lparr>tgDID = did, tgURL = dsEndpoint svc, tgTrusted = False\<rparr>
      else pick_service did serviceID svcs)"

definition resolveProxyTarget :: "('t, 'k) server \<Rightarrow> request \<Rightarrow> go_error + proxy_target" where
  "resolveProxyTarget sv rq =
     (let header = header_get rq ''Atproto-Proxy'' in
      if header = '''' then Inr \<lparr>tgDID = cfAppviewDID sv, tgURL = cfAppviewURL sv, tgTrusted = True\<rparr>
      else (case cut (CHR ''#'') header of (did, fragment, _) \<Rightarrow>
        (case svParseDid sv did of
           Inl e \<Rightarrow> Inl (Wrapf ''invalid atproto-proxy DID'' e)
         | Inr parsedDID \<Rightarrow>
             (case svResolve sv (svDidMethod sv parsedDID = ''web'') parsedDID of
                Inl e \<Rightarrow> Inl (Wrapf ''resolving proxy target DID'' e)
              | Inr svcs \<Rightarrow> pick_service did (''#'' @ (if fragment = '''' then ''atproto_pds'' else fragment)) svcs))))"

section \<open>The caller\<close>

definition optional_credential :: "parsed_token \<Rightarrow> (world, string option) hd_step" where
  "optional_credential p = (if ptAppPasswordName p = '''' then hret (Some (ptDID p))
     else hbind (outcome (on_acct (ListAppPasswords (ptDID p)))) (\<lambda>r. hret (case r of
       Inl _ \<Rightarrow> None
     | Inr aps \<Rightarrow> if matchingAppCredential aps p then Some (ptDID p) else None)))"

definition optionalAccessToken :: "('t, 'k) server \<Rightarrow> request \<Rightarrow> (world, string option) hd_step" where
  "optionalAccessToken sv rq = (case bearerToken rq of
     None \<Rightarrow> hret None
   | Some tok \<Rightarrow> (case ParseAccessToken (svJwt sv) (svNow sv 0) (cfJWTSecret sv) tok of
       Inl _ \<Rightarrow> hret None
     | Inr p \<Rightarrow> hbind (outcome (on_acct (GetAccountByDID (ptDID p)))) (\<lambda>r. case r of
         Inl _ \<Rightarrow> hret None
       | Inr a \<Rightarrow> if acStatus a \<noteq> StatusActive \<or> acAuthVersion a \<noteq> ptAuthVersion p then hret None
           else optional_credential p)))"

text \<open>The service-auth token of the forwarded request, if the caller is known and it can be signed.\<close>

definition proxy_token :: "('t, 'k) server \<Rightarrow> request \<Rightarrow> string \<Rightarrow> string \<Rightarrow> (world, string option) hd_step" where
  "proxy_token sv rq target nsid =
     hbind (optionalAccessToken sv rq) (\<lambda>caller. case caller of
       None \<Rightarrow> hret None
     | Some did \<Rightarrow> hbind (outcome (signingKeyFor sv did)) (\<lambda>k. hret (case k of
         Inl _ \<Rightarrow> None
       | Inr key \<Rightarrow> (case svServiceAuth sv did target proxyServiceAuthTTL (Some nsid) key of
           Inl _ \<Rightarrow> None | Inr token \<Rightarrow> Some token))))"

section \<open>Forwarding\<close>

definition hopByHopHeaders :: "string list" where
  "hopByHopHeaders = [''Connection'', ''Keep-Alive'', ''Proxy-Authenticate'', ''Proxy-Authorization'', ''Te'',
     ''Trailer'', ''Transfer-Encoding'', ''Upgrade'', ''Authorization'', ''Content-Length'', ''If-None-Match'',
     ''If-Modified-Since'', ''If-Match'', ''If-Unmodified-Since'', ''If-Range'', ''Range'']"

definition copyProxyHeaders :: "(string \<times> string) list \<Rightarrow> (string \<times> string) list" where
  "copyProxyHeaders src = filter (\<lambda>h. fst h \<notin> set hopByHopHeaders) src"

definition proxy_url :: "proxy_target \<Rightarrow> string \<Rightarrow> string \<Rightarrow> string" where
  "proxy_url target nsid raw_query = trim_right (CHR ''/'') (tgURL target) @ ''/xrpc/'' @ nsid
     @ (if raw_query \<noteq> '''' then ''?'' @ raw_query else '''')"

definition proxy_headers :: "request \<Rightarrow> string option \<Rightarrow> (string \<times> string) list" where
  "proxy_headers rq token =
     (let hs = header_set ''User-Agent'' ''robby-proxy'' (copyProxyHeaders (rqHeaders rq))
      in case token of None \<Rightarrow> hs | Some t \<Rightarrow> header_set ''Authorization'' (''Bearer '' @ t) hs)"

text \<open>The request that goes out, and to whom.\<close>

definition proxy_request :: "('t, 'k) server \<Rightarrow> request \<Rightarrow> (world, proxy_target \<times> out_request) hd_step" where
  "proxy_request sv rq =
     (let nsid = trim_prefix (rqPath rq) ''/xrpc/'' in
      hbind (guard (nsid \<noteq> '''' \<and> CHR ''/'' \<notin> set nsid) (writeXRPCError 404 ''XRPCNotSupported'' ''unknown method'')) (\<lambda>_.
      hbind (attempt_pure (svParseNSID sv nsid) (\<lambda>_. InvalidRequest ''invalid method NSID'')) (\<lambda>parsed.
      hbind (attempt_pure (resolveProxyTarget sv rq) (\<lambda>e. writeXRPCError 502 ''UpstreamFailure''
        (err_text ''failed to resolve proxy target: '' e))) (\<lambda>target.
      let url = proxy_url target nsid (rqRawQuery rq) in
      hbind (attempt_pure (svNewRequest sv (rqMethod rq) url)
        (\<lambda>_. InternalServerError ''failed to build proxied request'')) (\<lambda>_.
      hbind (proxy_token sv rq (tgDID target) parsed) (\<lambda>token.
      hret (target, \<lparr>orMethod = rqMethod rq, orURL = url, orHeaders = proxy_headers rq token,
        orBody = (if rqMethod rq = ''POST'' then rqBody rq else [])\<rparr>)))))))"

definition proxy_response :: "in_response \<Rightarrow> response" where
  "proxy_response ir = \<lparr>rsStatus = irStatus ir, rsHeaders = [],
     rsAdded = filter (\<lambda>h. \<not> has_prefix (fst h) ''Access-Control-'') (irHeaders ir), rsBody = Binary (irBody ir)\<rparr>"

definition handleServiceProxy :: "('t, 'k) server \<Rightarrow> request \<Rightarrow> world \<Rightarrow> response \<times> world" where
  "handleServiceProxy sv rq = serve
     (hbind (proxy_request sv rq) (\<lambda>(target, out).
      hbind (attempt_pure (svUpstream sv (tgTrusted target) out) (\<lambda>e. writeXRPCError 502 ''UpstreamFailure''
        (err_text ''proxied request failed: '' e))) (\<lambda>ir.
      hret (proxy_response ir))))"

end
