(* ===== verification/Routes.thy ===== *)
theory Routes
  imports Sync Private Identity Migration Proxy
begin

text \<open>
  \<^verbatim>\<open>internal/xrpc/server.go\<close>: the two endpoints defined there, the table of routes and the
  middleware around it. The state of the server is its rate limiter and its databases.

  \<^verbatim>\<open>http.ServeMux\<close> (standard library): a pattern with a method and a path matches exactly that path,
  \<^verbatim>\<open>GET\<close> matches \<^verbatim>\<open>HEAD\<close> too, the subtree pattern \<^verbatim>\<open>/xrpc/\<close> matches what no exact pattern does,
  and a path that is known only with other methods is answered with 405. Its redirects of paths that
  are not in canonical form are not modelled: \<open>rqPath\<close> is a canonical path. \<open>subscribe\<close> is the
  handler of the websocket endpoint, whose session is the subject of \<open>Subscribe\<close>.
\<close>

definition handleHealth :: "('t, 'k) handler" where
  "handleHealth sv rq = serve (hret (writeJSON 200 (DMap [(''version'', DStr (''robby/'' @ svVersion sv))])))"

definition host_name :: "string \<Rightarrow> string" where
  "host_name host = (case SplitHostPort host of None \<Rightarrow> host | Some (h, _) \<Rightarrow> h)"

definition handleWellKnownDID :: "('t, 'k) handler" where
  "handleWellKnownDID sv rq = serve
     (hbind (attempt (on_acct (GetAccountByHandle (host_name (rqHost rq)))) (\<lambda>_. NotFound ''no account for this handle'')) (\<lambda>a.
      hret \<lparr>rsStatus = 200, rsHeaders = [(''Content-Type'', ''text/plain'')], rsAdded = [], rsBody = Text (acDID a)\<rparr>))"

section \<open>The table\<close>

datatype ('t, 'k) target = Plain "('t, 'k) handler" | Limited "('t, 'k) handler"

type_synonym ('t, 'k) route = "string \<times> string \<times> ('t, 'k) target"

definition xrpc_path :: "string \<Rightarrow> string" where
  "xrpc_path nsid = ''/xrpc/'' @ nsid"

definition get_route :: "string \<Rightarrow> ('t, 'k) handler \<Rightarrow> ('t, 'k) route" where
  "get_route nsid h = (''GET'', xrpc_path nsid, Plain h)"

definition post_route :: "string \<Rightarrow> ('t, 'k) handler \<Rightarrow> ('t, 'k) route" where
  "post_route nsid h = (''POST'', xrpc_path nsid, Plain h)"

definition server_routes :: "('t, 'k) route list" where
  "server_routes =
    [(''GET'', ''/xrpc/_health'', Plain handleHealth),
     (''GET'', ''/.well-known/atproto-did'', Plain handleWellKnownDID),
     get_route ''com.atproto.server.describeServer'' handleDescribeServer,
     (''POST'', xrpc_path ''com.atproto.server.createSession'', Limited handleCreateSession),
     post_route ''com.atproto.server.refreshSession'' handleRefreshSession,
     post_route ''com.atproto.server.deleteSession'' handleDeleteSession,
     get_route ''com.atproto.server.getSession'' handleGetSession,
     get_route ''com.atproto.identity.resolveHandle'' handleResolveHandle,
     get_route ''com.atproto.server.getServiceAuth'' handleGetServiceAuth,
     post_route ''com.atproto.server.createAppPassword'' handleCreateAppPassword,
     get_route ''com.atproto.server.listAppPasswords'' handleListAppPasswords,
     post_route ''com.atproto.server.revokeAppPassword'' handleRevokeAppPassword,
     post_route ''com.atproto.server.reserveSigningKey'' handleReserveSigningKey,
     post_route ''com.atproto.server.createAccount'' handleServerCreateAccount,
     post_route ''com.atproto.server.activateAccount'' handleActivateAccount,
     post_route ''com.atproto.server.deactivateAccount'' handleDeactivateAccountSelf,
     post_route ''com.atproto.server.deleteAccount'' handleDeleteAccount,
     get_route ''com.atproto.server.checkAccountStatus'' handleCheckAccountStatus,
     post_route ''com.atproto.identity.updateHandle'' handleUpdateHandle,
     get_route ''com.atproto.identity.getRecommendedDidCredentials'' handleGetRecommendedDidCredentials,
     post_route ''com.atproto.identity.signPlcOperation'' handleSignPlcOperation,
     post_route ''com.atproto.identity.submitPlcOperation'' handleSubmitPlcOperation,
     get_route ''app.bsky.actor.getPreferences'' handleGetPreferences,
     post_route ''app.bsky.actor.putPreferences'' handlePutPreferences]"

definition repo_routes :: "('t, 'k) route list" where
  "repo_routes =
    [post_route ''com.atproto.repo.createRecord'' handleCreateRecord,
     post_route ''com.atproto.repo.putRecord'' handlePutRecord,
     post_route ''com.atproto.repo.deleteRecord'' handleDeleteRecord,
     post_route ''com.atproto.repo.applyWrites'' handleApplyWrites,
     get_route ''com.atproto.repo.getRecord'' handleGetRecord,
     get_route ''com.atproto.repo.listRecords'' handleListRecords,
     get_route ''com.atproto.repo.describeRepo'' handleDescribeRepo,
     post_route ''com.atproto.repo.uploadBlob'' handleUploadBlob,
     post_route ''com.atproto.repo.importRepo'' handleImportRepo,
     get_route ''com.atproto.repo.listMissingBlobs'' handleListMissingBlobs]"

definition sync_routes :: "('t, 'k) handler \<Rightarrow> ('t, 'k) route list" where
  "sync_routes subscribe =
    [get_route ''com.atproto.sync.getRepo'' handleSyncGetRepo,
     get_route ''com.atproto.sync.getRepoStatus'' handleSyncGetRepoStatus,
     get_route ''com.atproto.sync.getLatestCommit'' handleSyncGetLatestCommit,
     get_route ''com.atproto.sync.getRecord'' handleSyncGetRecord,
     get_route ''com.atproto.sync.getBlocks'' handleSyncGetBlocks,
     get_route ''com.atproto.sync.listBlobs'' handleSyncListBlobs,
     get_route ''com.atproto.sync.getBlob'' handleSyncGetBlob,
     get_route ''com.atproto.sync.listRepos'' handleSyncListRepos,
     get_route ''com.atproto.sync.subscribeRepos'' subscribe]"

definition admin_nsid :: "string \<Rightarrow> string" where
  "admin_nsid name = ''net.vrypan.robby.admin.'' @ name"

definition admin_routes :: "('t, 'k) route list" where
  "admin_routes =
    [post_route (admin_nsid ''createAccount'') (requireAdmin handleAdminCreateAccount),
     get_route (admin_nsid ''listAccounts'') (requireAdmin handleAdminListAccounts),
     post_route (admin_nsid ''setPassword'') (requireAdmin handleAdminSetPassword),
     post_route (admin_nsid ''deactivateAccount'') (requireAdmin handleAdminDeactivateAccount),
     post_route (admin_nsid ''approveToken'') (requireAdmin handleAdminApproveToken),
     post_route (admin_nsid ''takedownAccount'') (requireAdmin handleAdminTakedownAccount),
     post_route (admin_nsid ''refreshIdentity'') (requireAdmin handleAdminRefreshIdentity)]"

definition all_routes :: "('t, 'k) handler \<Rightarrow> ('t, 'k) route list" where
  "all_routes subscribe = server_routes @ repo_routes @ sync_routes subscribe @ admin_routes"

section \<open>Dispatching\<close>

definition method_matches :: "string \<Rightarrow> string \<Rightarrow> bool" where
  "method_matches pattern m \<longleftrightarrow> m = pattern \<or> pattern = ''GET'' \<and> m = ''HEAD''"

definition route_matches :: "request \<Rightarrow> ('t, 'k) route \<Rightarrow> bool" where
  "route_matches rq r \<longleftrightarrow> fst (snd r) = rqPath rq \<and> method_matches (fst r) (rqMethod rq)"

definition plain_error :: "nat \<Rightarrow> string \<Rightarrow> response" where
  "plain_error status message = \<lparr>rsStatus = status, rsHeaders = [(''Content-Type'', ''text/plain; charset=utf-8''),
     (''X-Content-Type-Options'', ''nosniff'')], rsAdded = [], rsBody = Text message\<rparr>"

definition unrouted :: "('t, 'k) route list \<Rightarrow> request \<Rightarrow> response" where
  "unrouted rs rq = (if list_ex (\<lambda>r. fst (snd r) = rqPath rq) rs then plain_error 405 ''Method Not Allowed''
     else plain_error 404 ''404 page not found'')"

type_synonym 'l server_state = "'l ip_limiter \<times> world"

definition run_target :: "'l rate_lib \<Rightarrow> int \<Rightarrow> int \<Rightarrow> ('t, 'k) server \<Rightarrow> ('t, 'k) target \<Rightarrow> request \<Rightarrow>
    'l server_state \<Rightarrow> response \<times> 'l server_state" where
  "run_target rl now now' sv t rq s = (case t of
     Plain h \<Rightarrow> (case h sv rq (snd s) of (r, w) \<Rightarrow> (r, (fst s, w)))
   | Limited h \<Rightarrow> rateLimited rl now now' (h sv) rq s)"

definition dispatch :: "('t, 'k) route list \<Rightarrow> request \<Rightarrow> ('t, 'k) target + response" where
  "dispatch rs rq = (case find (route_matches rq) rs of
     Some r \<Rightarrow> Inl (snd (snd r))
   | None \<Rightarrow> if has_prefix (rqPath rq) ''/xrpc/'' then Inl (Plain handleServiceProxy) else Inr (unrouted rs rq))"

text \<open>\<^verbatim>\<open>withLogging\<close> passes the request on and logs it with the status of the response; the time it took is left out.\<close>

record log_entry =
  leMethod :: string
  lePath :: string
  leStatus :: nat
  leQuery :: string

definition withLogging :: "(request \<Rightarrow> 's \<Rightarrow> response \<times> 's) \<Rightarrow> request \<Rightarrow> 's \<Rightarrow> (response \<times> 's) \<times> log_entry" where
  "withLogging inner rq s = (case inner rq s of (r, s') \<Rightarrow>
     ((r, s'), \<lparr>leMethod = rqMethod rq, lePath = rqPath rq, leStatus = rsStatus r, leQuery = rqRawQuery rq\<rparr>))"

lemma withLogging_passes [simp]: "fst (withLogging inner rq s) = inner rq s"
  by (simp add: withLogging_def split: prod.split)

definition Handler :: "'l rate_lib \<Rightarrow> int \<Rightarrow> int \<Rightarrow> ('t, 'k) handler \<Rightarrow> ('t, 'k) server \<Rightarrow> request \<Rightarrow>
    'l server_state \<Rightarrow> response \<times> 'l server_state" where
  "Handler rl now now' subscribe sv = withCORS (\<lambda>rq s. fst (withLogging (\<lambda>rq s. case dispatch (all_routes subscribe) rq of
     Inl t \<Rightarrow> run_target rl now now' sv t rq s
   | Inr r \<Rightarrow> (r, s)) rq s))"

end
