(* ===== verification/HandlerInv.thy ===== *)
theory HandlerInv
  imports RepoSync SessionSpec Routes
begin

text \<open>
  What every handler keeps. The interface \<open>server_predicate\<close> is what a predicate of the three
  databases has to survive: the operations of the account store, those of an actor store and an append
  to the log at one of the clock readings that \<open>T\<close> admits. Inside it, every route of the server is shown to
  keep the predicate; the interpretations, in \<open>ServerSpec\<close>, are the constraints of all tables, an account that
  others leave alone, and the past of the event log.
\<close>

section \<open>More rules for operations\<close>

lemma preserves_case_option [preserves_intros]:
  "preserves P m \<Longrightarrow> (\<And>x. preserves P (f x)) \<Longrightarrow> preserves P (case y of None \<Rightarrow> m | Some x \<Rightarrow> f x)"
  by (simp split: option.split)

lemma preserves_case_sum [preserves_intros]:
  "(\<And>e. preserves P (g e)) \<Longrightarrow> (\<And>x. preserves P (f x)) \<Longrightarrow> preserves P (case y of Inl e \<Rightarrow> g e | Inr x \<Rightarrow> f x)"
  by (simp split: sum.split)

lemma preserves_case_prod [preserves_intros]:
  "(\<And>a b. preserves P (f a b)) \<Longrightarrow> preserves P (case y of (a, b) \<Rightarrow> f a b)"
  by (simp split: prod.split)

lemma preserves_liftE [preserves_intros]: "preserves P (liftE r)"
  unfolding liftE_def by (intro preserves_intros)

lemma preserves_map_error [preserves_intros]: "preserves P m \<Longrightarrow> preserves P (map_error f m)"
  by (auto simp: preserves_def map_error_def split: prod.splits sum.splits)

lemma preserves_reads: "tapefree P \<Longrightarrow> reads m \<Longrightarrow> preserves P m"
  by (rule preservesI) (metis readsD tapefree_def)

named_theorems ok_intros \<open>steps of the handlers that keep the predicate of a database invariant\<close>

lemmas [ok_intros] = keeps_hret keeps_hstop keeps_guard keeps_attempt keeps_attempt_pure keeps_outcome keeps_hlift
  keeps_if keeps_case_option keeps_case_sum keeps_case_prod keeps_decode_body preserves_gobind preserves_wrapf preserves_goret preserves_gofail preserves_if
  preserves_case_option preserves_case_sum preserves_case_prod preserves_liftE preserves_map_error

text \<open>The reads of the account store and of an actor store.\<close>

lemma reads_goret' [intro]: "reads (\<lambda>s. (Inr x, s))"
  by (auto simp: reads_def)

lemma reads_scanAccount [intro]: "reads (scanAccount x)"
  by (auto simp: reads_def dest: scanAccount_state)

lemma reads_accounts [intro]:
  "reads (GetAccountByDID did)" "reads (GetAccountByHandle h)" "reads (GetAccountByIdentifier i)" "reads ListAccounts"
  "reads (ListAppPasswords did)"
  unfolding GetAccountByDID_def GetAccountByHandle_def GetAccountByIdentifier_def ListAccounts_def ListAppPasswords_def
  by (auto intro!: reads_gobind reads_wrapf)

lemma reads_row:
  assumes "reads q" "\<And>s. m s = (case q s of (Inl e, s') \<Rightarrow> (Inl (f e), s') | (Inr None, s') \<Rightarrow> (Inl n, s') | (Inr (Some x), s') \<Rightarrow> (Inr (g x), s'))"
  shows "reads m"
  using assms unfolding reads_def by (auto split: prod.splits sum.splits option.splits)

lemma reads_rows [intro]:
  "reads (GetRefreshToken h)" "reads (GetReservedSigningKey now did)" "reads (GetRecordCID coll rk)"
  "reads (GetBlobMeta c)" "reads GetPreferences"
  by (rule reads_row [OF reads_query_row], simp add: GetRefreshToken_def GetReservedSigningKey_def GetRecordCID_def
      GetBlobMeta_def GetPreferences_def split: prod.split sum.split option.split)+

lemma reads_gofail [intro]: "reads (gofail e)"
  by (simp add: reads_def)

lemma reads_case_option [intro]: "reads m \<Longrightarrow> (\<And>x. reads (f x)) \<Longrightarrow> reads (case y of None \<Rightarrow> m | Some x \<Rightarrow> f x)"
  by (simp split: option.split)

lemmas reads_steps = reads_gobind reads_wrapf reads_query_row reads_goret reads_gofail reads_case_option

lemma reads_lists [intro]:
  "reads (ListRecords coll cur lim rv)" "reads AllBlocks" "reads (ListBlobCIDs cur lim)" "reads CountBlocks"
  "reads CountRecords" "reads CountBlobs" "reads MissingBlobs" "reads MissingBlobRefs" "reads CountImportedBlobs"
  "reads (ReadBlobFile c)"
  unfolding ListRecords_def AllBlocks_def ListBlobCIDs_def CountBlocks_def CountRecords_def CountBlobs_def
    MissingBlobs_def MissingBlobRefs_def CountImportedBlobs_def ReadBlobFile_def
  by (intro reads_steps)+

section \<open>Handlers\<close>

definition handler_keeps :: "(('t, 'k) server \<Rightarrow> request \<Rightarrow> bool) \<Rightarrow> (world \<Rightarrow> bool) \<Rightarrow> ('t, 'k) handler \<Rightarrow> bool" where
  "handler_keeps R P h \<longleftrightarrow> (\<forall>sv rq w. R sv rq \<longrightarrow> P w \<longrightarrow> P (snd (h sv rq w)))"

named_theorems handler_intros \<open>the handlers that keep the predicate of a database invariant\<close>

lemma handler_keeps_serve:
  "(\<And>sv rq. R sv rq \<Longrightarrow> keeps P (m sv rq)) \<Longrightarrow> handler_keeps R P (\<lambda>sv rq. serve (m sv rq))"
  by (simp add: handler_keeps_def keeps_serve)

text \<open>A step that keeps a predicate and returns only values with a property.\<close>

definition gives :: "('s \<Rightarrow> bool) \<Rightarrow> ('s, 'a) hd_step \<Rightarrow> ('a \<Rightarrow> bool) \<Rightarrow> bool" where
  "gives P m Q \<longleftrightarrow> keeps P m \<and> (\<forall>s x s'. P s \<longrightarrow> m s = (Inr x, s') \<longrightarrow> Q x)"

lemma keeps_gives: "keeps P m \<Longrightarrow> gives P m (\<lambda>_. True)"
  by (simp add: gives_def)

lemma keeps_hbind_gives: "gives P m Q \<Longrightarrow> (\<And>x. Q x \<Longrightarrow> keeps P (k x)) \<Longrightarrow> keeps P (hbind m k)"
  unfolding gives_def keeps_def hbind_def by (force split: prod.split sum.split)

lemma gives_hbind: "gives P m Q \<Longrightarrow> (\<And>x. Q x \<Longrightarrow> gives P (k x) Q') \<Longrightarrow> gives P (hbind m k) Q'"
  unfolding gives_def keeps_def hbind_Inr_iff by (force simp: hbind_def split: prod.split sum.split)

lemma gives_hret: "Q x \<Longrightarrow> gives P (hret x) Q"
  by (simp add: gives_def keeps_def)

section \<open>The interface\<close>

text \<open>The account whose row or app passwords an operation of the account store works on.\<close>

fun op_target :: "store_op \<Rightarrow> string option" where
  "op_target (OpSetPasswordHash did h) = Some did"
| "op_target (OpSetHandle did h) = Some did"
| "op_target (OpSetStatus did st) = Some did"
| "op_target (OpActivateAccount did) = Some did"
| "op_target (OpDeleteAccount did) = Some did"
| "op_target (OpCreateAppPassword ap) = Some (apDID ap)"
| "op_target (OpDeleteAppPassword did n) = Some did"
| "op_target (OpRevokeAppPassword did n) = Some did"
| "op_target _ = None"

definition stores_ok :: "(string \<Rightarrow> actordb option \<Rightarrow> bool) \<Rightarrow> manager \<Rightarrow> bool" where
  "stores_ok D m \<longleftrightarrow> (\<forall>did. D did (disk m did))"

definition world_ok :: "(acctdb \<Rightarrow> bool) \<Rightarrow> (string \<Rightarrow> actordb option \<Rightarrow> bool) \<Rightarrow> (seqdb \<Rightarrow> bool) \<Rightarrow> world \<Rightarrow> bool" where
  "world_ok A D S w \<longleftrightarrow> A (wAcct w) \<and> stores_ok D (wMgr w) \<and> S (wSeq w)"

text \<open>A request that passes the guard of the administration API.\<close>

definition passes_admin :: "('t, 'k) server \<Rightarrow> request \<Rightarrow> bool" where
  "passes_admin sv rq \<longleftrightarrow> addrInPrefixes (clientAddr rq) (svAdminNets sv) \<and> basic_password rq = Some (cfAdminPassword sv)"

locale server_predicate =
  fixes A :: "acctdb \<Rightarrow> bool" and D :: "string \<Rightarrow> actordb option \<Rightarrow> bool" and S :: "seqdb \<Rightarrow> bool"
    and protected :: "string \<Rightarrow> bool" and R :: "('t, 'k) server \<Rightarrow> request \<Rightarrow> bool"
    and T :: "(int \<Rightarrow> string) \<Rightarrow> int \<Rightarrow> bool"
  assumes tapefree: "tapefree A" "tapefree (\<lambda>d. D did (Some d))"
    and account_ops: "(\<And>did. op_target oper = Some did \<Longrightarrow> \<not> protected did) \<Longrightarrow> preserves A (store_exec now oper)"
    and new_store: "D did None \<Longrightarrow> D did (Some (empty_actordb t))"
    and actor_ops: "\<not> protected did \<Longrightarrow> preserves (\<lambda>d. D did (Some d)) (bs_Put b)"
      "\<not> protected did \<Longrightarrow> preserves (\<lambda>d. D did (Some d)) (SetRepoRoot c rv)"
      "\<not> protected did \<Longrightarrow> preserves (\<lambda>d. D did (Some d)) (PutRecordIndex coll rk c)"
      "\<not> protected did \<Longrightarrow> preserves (\<lambda>d. D did (Some d)) (DeleteRecordIndex coll rk)"
      "\<not> protected did \<Longrightarrow> preserves (\<lambda>d. D did (Some d)) (PutBlobMeta c mime sz)"
      "\<not> protected did \<Longrightarrow> preserves (\<lambda>d. D did (Some d)) (AddBlobRef c coll rk)"
      "\<not> protected did \<Longrightarrow> preserves (\<lambda>d. D did (Some d)) (ClearBlobRefsForRecord coll rk)"
      "\<not> protected did \<Longrightarrow> preserves (\<lambda>d. D did (Some d)) ClearRepo"
      "\<not> protected did \<Longrightarrow> preserves (\<lambda>d. D did (Some d)) (SetPreferences v)"
      "\<not> protected did \<Longrightarrow> preserves (\<lambda>d. D did (Some d)) (WriteBlobFile c content)"
    and log_ops: "T fmt_sec now \<Longrightarrow> preserves S (Append lib fmt_sec now did evt)"
    and clocks: "R sv rq \<Longrightarrow> T (w_fmt (svWire sv)) (svNow sv i)"
    and log_readers: "S (d\<lparr>tape := t, subs := ss\<rparr>) = S d"
    and principals: "\<lbrakk>R sv rq; A (wAcct w); requirePrincipal sv rq pr de w = (Inr p, w')\<rbrakk> \<Longrightarrow> \<not> protected (ptDID p)"
    and admins: "\<lbrakk>R sv rq; passes_admin sv rq\<rbrakk> \<Longrightarrow> \<not> protected did"
begin

abbreviation ok :: "world \<Rightarrow> bool" where "ok \<equiv> world_ok A D S"

abbreviation Dx :: "string \<Rightarrow> actordb \<Rightarrow> bool" where "Dx did \<equiv> \<lambda>d. D did (Some d)"

abbreviation clocked :: "('x, 'y) server \<Rightarrow> bool" where "clocked sv \<equiv> \<forall>i. T (w_fmt (svWire sv)) (svNow sv i)"

abbreviation others :: "string \<Rightarrow> bool" where "others did \<equiv> \<not> protected did"

lemma on_acct_reads: "reads m \<Longrightarrow> preserves ok (on_acct m)"
  using tapefree(1) by (intro preservesI) (auto simp: world_ok_def tapefree_def dest: readsD)

lemma on_acct_writes: "preserves A m \<Longrightarrow> preserves ok (on_acct m)"
  by (intro preservesI) (auto simp: world_ok_def dest: preservesE)

lemmas free_store_ops = account_ops [of "OpCreateAccount _", simplified]
  account_ops [of "OpCreateRefreshToken _", simplified] account_ops [of "OpConsumeRefreshToken _ _ _", simplified]
  account_ops [of "OpDeleteRefreshToken _", simplified] account_ops [of "OpDeleteRefreshTokensForDID _", simplified]
  account_ops [of "OpReserveSigningKey _ _", simplified] account_ops [of "OpCreateAdminToken _ _ _ _", simplified]
  account_ops [of "OpConsumeAdminToken _ _ _", simplified]

lemma owned_store_ops:
  "others did \<Longrightarrow> preserves A (SetPasswordHash did h)" "others did \<Longrightarrow> preserves A (SetHandle did h)"
  "others did \<Longrightarrow> preserves A (SetStatus did st)" "others did \<Longrightarrow> preserves A (ActivateAccount did)"
  "others did \<Longrightarrow> preserves A (DeleteAccount did)" "others (apDID ap) \<Longrightarrow> preserves A (CreateAppPassword ap)"
  "others did \<Longrightarrow> preserves A (RevokeAppPassword did n)"
  using account_ops [of "OpSetPasswordHash did h"] account_ops [of "OpSetHandle did h"] account_ops [of "OpSetStatus did st"]
    account_ops [of "OpActivateAccount did"] account_ops [of "OpDeleteAccount did"] account_ops [of "OpCreateAppPassword ap"]
    account_ops [of "OpRevokeAppPassword did n"] by simp_all

lemmas acct_reads = reads_accounts [THEN on_acct_reads] reads_rows(1,2) [THEN on_acct_reads]

lemma manager_stmt: "preserves (stores_ok D) m \<Longrightarrow> preserves (stores_ok D) (stmt m)"
  by (rule preserves_stmt) (simp_all add: tapefree_def stores_ok_def)

lemma stores_open: "preserves (stores_ok D) (Open did)"
proof -
  have "stores_ok D m \<Longrightarrow> stores_ok D (create_db did m)" for m did
    using new_store [of did] unfolding stores_ok_def
    by (cases "disk m did") (auto simp: create_db_def dest: spec [of _ did])
  then show ?thesis
    unfolding Open_def by (intro preserves_intros manager_stmt) (auto simp: preserves_def stores_ok_def)
qed

lemma mark_cached: "preserves (stores_ok D) (\<lambda>m. (Inr x, m\<lparr>cached := c m\<rparr>))"
  by (simp add: preserves_def stores_ok_def)

lemma stores_stat: "preserves (stores_ok D) (stat_ok ex)"
  unfolding stat_ok_def by (rule manager_stmt) (simp add: preserves_def)

lemma stores_Get: "preserves (stores_ok D) (mgr_Get parse did)"
proof -
  have "preserves (stores_ok D) (gobind (wrapf ''opening actor store'' (Open did)) (\<lambda>_ m'. (Inr (), m'\<lparr>cached := did # cached m'\<rparr>)))"
    by (intro preserves_intros stores_open mark_cached)
  then show ?thesis by (auto simp: preserves_def mgr_Get_def split: sum.split)
qed

lemma stores_GetExisting: "preserves (stores_ok D) (mgr_GetExisting parse did)"
proof -
  have "preserves (stores_ok D) (gobind (stat_ok a) (\<lambda>_. gobind (stat_ok b)
      (\<lambda>_. gobind (wrapf ''opening existing actor store'' (Open did)) (\<lambda>_ m'. (Inr (), m'\<lparr>cached := did # cached m'\<rparr>)))))" for a b
    by (intro preserves_intros stores_open mark_cached stores_stat)
  then show ?thesis by (auto simp: preserves_def mgr_GetExisting_def split: sum.split)
qed

lemma stores_actor: "preserves (Dx did) m \<Longrightarrow> preserves (stores_ok D) (on_actor did m)"
proof (rule preservesI)
  fix s r s' assume m: "preserves (Dx did) m" and s: "stores_ok D s" and run: "on_actor did m s = (r, s')"
  show "stores_ok D s'"
  proof (cases "disk s did")
    case (Some d)
    then have "D did (Some d)" using s by (metis stores_ok_def)
    then have "D did (Some (snd (m d)))" using preservesD [OF m] by blast
    then show ?thesis using run s Some by (auto simp: on_actor_def stores_ok_def split: prod.splits)
  qed (use run s in \<open>simp add: on_actor_def\<close>)
qed

lemma stores_lock:
  assumes "preserves (Dx did) f"
  shows "preserves (stores_ok D) (WithLock parse did f)"
proof -
  have body: "preserves (stores_ok D) (gobind (mgr_Get parse did) (\<lambda>_. on_actor did f))"
    by (intro preserves_intros stores_Get stores_actor assms)
  have "stores_ok D (s\<lparr>locks := l\<rparr>) = stores_ok D s" for s l
    by (simp add: stores_ok_def)
  then show ?thesis
    unfolding preserves_def WithLock_def using preservesD [OF body] by metis
qed

lemma on_mgr_kept: "preserves (stores_ok D) m \<Longrightarrow> preserves ok (on_mgr m)"
  by (intro preservesI) (auto simp: world_ok_def dest: preservesE)

lemma on_seq_kept: "preserves S m \<Longrightarrow> preserves ok (on_seq m)"
  by (intro preservesI) (auto simp: world_ok_def dest: preservesE)

lemma actors_kept: "preserves ok (actors_Get sv did)" "preserves ok (actors_GetExisting sv did)"
  unfolding actors_Get_def actors_GetExisting_def by (intro on_mgr_kept stores_Get stores_GetExisting)+

lemma actor_op_kept: "preserves (Dx did) m \<Longrightarrow> preserves ok (actor_op did m)"
  unfolding actor_op_def by (intro on_mgr_kept stores_actor)

lemma actor_read_kept: "reads m \<Longrightarrow> preserves ok (actor_op did m)"
  by (intro actor_op_kept preserves_reads tapefree)

lemmas actor_reads = reads_bs_Get [THEN actor_read_kept] reads_GetRepoRoot [THEN actor_read_kept]
  reads_rows(3-5) [THEN actor_read_kept] reads_lists [THEN actor_read_kept]

section \<open>The write path\<close>

lemma tx_kept: "preserves (Dx did) m \<Longrightarrow> preserves (Dx did) (with_tx f g m)"
  by (rule preserves_with_tx [OF tapefree(2)])

lemma put_blob_kept: "others did \<Longrightarrow> preserves (Dx did) (put_blob coll rk b)"
  unfolding put_blob_def by (intro preserves_intros actor_ops)

lemma cb_Put_kept: "others did \<Longrightarrow> preserves (Dx did) (cb_Put b coll)"
  unfolding cb_Put_def by (intro preserves_intros actor_ops)

lemma cb_PutMany_kept: "others did \<Longrightarrow> preserves (Dx did) (cb_PutMany bs coll)"
  by (induction bs arbitrary: coll) (simp_all add: preserves_intros cb_Put_kept)

lemma applyOne_kept: "others did \<Longrightarrow> preserves (Dx did) (applyOne lib x st)"
  unfolding applyOne_def apply_delete_def apply_put_def Let_def
  by (intro preserves_intros actor_ops cb_Put_kept cb_PutMany_kept put_blob_kept)

lemma applyAll_kept: "others did \<Longrightarrow> preserves (Dx did) (applyAll lib xs st)"
proof (induction xs arbitrary: st)
  case (Cons x xs)
  then show ?case by (simp add: preserves_intros applyOne_kept)
qed (simp add: preserves_intros)

lemma write_commit_kept: "others did \<Longrightarrow> preserves (Dx did) (write_commit lib did' key xs tree clk since prev)"
  unfolding write_commit_def Let_def by (intro preserves_intros actor_ops cb_Put_kept cb_PutMany_kept applyAll_kept)

lemma apply_locked_kept:
  assumes "others did"
  shows "preserves (Dx did) (apply_locked lib ts did' key xs)"
proof (rule preservesI)
  fix d r d' assume d: "Dx did d" and run: "apply_locked lib ts did' key xs d = (r, d')"
  obtain q d1 where q: "GetRepoRoot d = (q, d1)" by fastforce
  have d1: "Dx did d1" using preservesE [OF preserves_reads [OF tapefree(2) reads_GetRepoRoot] q d] .
  have tx: "preserves (Dx did) (with_tx id f (write_commit lib did' key xs t c s p))" for f t c s p
    by (intro tx_kept write_commit_kept assms)
  have load: "preserves (Dx did) (gobind (loadTree lib (rrCommitCID root)) (\<lambda>(tree, pc).
      with_tx id f (write_commit lib did' key xs tree (c pc) (s pc) (p pc))))" for root f c s p
    by (intro preserves_intros preserves_reads tapefree reads_loadTree tx)
  show "Dx did d'"
    using run d1 preservesE [OF tx] preservesE [OF load]
    by (auto simp: apply_locked_def q split: sum.splits if_splits)
qed

lemma emitCommitEvent_kept: "T (w_fmt wl) now \<Longrightarrow> preserves S (emitCommitEvent wl now did a)"
  unfolding emitCommitEvent_def by (intro preserves_intros log_ops)

lemma ApplyWrites_kept: "others did \<Longrightarrow> T (w_fmt wl) now \<Longrightarrow> preserves ok (ApplyWrites lib wl parse ts now did key xs)"
  unfolding ApplyWrites_def
  by (intro preserves_gobind preserves_wrapf preserves_goret on_mgr_kept on_seq_kept stores_lock apply_locked_kept emitCommitEvent_kept)

lemmas [ok_intros] = acct_reads free_store_ops [THEN on_acct_writes] owned_store_ops [THEN on_acct_writes] actors_kept actor_reads ApplyWrites_kept

section \<open>Shared steps of the handlers\<close>

lemma bearer_kept [ok_intros]: "keeps ok (bearer rq)"
  unfolding bearer_def by (intro ok_intros)

lemma principal_kept [ok_intros]: "keeps ok (requirePrincipal sv rq p d)"
  unfolding requirePrincipal_def check_app_credential_def by (intro ok_intros keeps_hbind)

lemma require_gives:
  assumes "R sv rq"
  shows "gives ok (requireAccessToken sv rq) others" "gives ok (requirePrivilegedAccessToken sv rq) others"
    "gives ok (requireMigrationAccessToken sv rq) others" "gives ok (requireMigratableAccessToken sv rq) others"
proof -
  have "gives ok (requirePrincipal sv rq p d) (\<lambda>q. others (ptDID q))" for p d
    using principal_kept principals [OF assms] by (auto simp: gives_def world_ok_def)
  then show "gives ok (requireAccessToken sv rq) others" "gives ok (requirePrivilegedAccessToken sv rq) others"
    "gives ok (requireMigrationAccessToken sv rq) others" "gives ok (requireMigratableAccessToken sv rq) others"
    unfolding requireAccessToken_def requirePrivilegedAccessToken_def requireMigrationAccessToken_def
      requireMigratableAccessToken_def by (auto intro: gives_hbind gives_hret)
qed

lemmas require_kept = require_gives [THEN keeps_hbind_gives]

lemma issueSession_kept [ok_intros]: "keeps ok (issueSession sv i j acct cred)"
  unfolding issueSession_def by (intro ok_intros keeps_hbind)

lemma credential_kept [ok_intros]: "keeps ok (credential_for sv acct password)"
  unfolding credential_for_def verifyAppPassword_def by (intro ok_intros keeps_hbind)

lemma repo_steps_kept [ok_intros]:
  "preserves ok (resolveRepoDID r)" "preserves ok (signingKeyFor sv did)"
  unfolding resolveRepoDID_def signingKeyFor_def by (intro ok_intros)+

lemma own_repo_gives: "R sv rq \<Longrightarrow> gives ok (requireOwnRepo sv rq r) others"
  unfolding requireOwnRepo_def
  by (intro require_gives(1) [THEN gives_hbind] gives_hret gives_hbind [OF keeps_gives] ok_intros)

lemmas own_repo_kept = own_repo_gives [THEN keeps_hbind_gives]

lemma repo_handler_steps_kept [ok_intros]:
  "others did \<Longrightarrow> clocked sv \<Longrightarrow> keeps ok (apply_as sv did ops)" "keeps ok (put_action sv did c rk)"
  "keeps ok (read_record sv did x)"
  unfolding apply_as_def put_action_def read_record_def by (intro ok_intros keeps_hbind; simp?)+

lemma doWrite_kept [ok_intros]: "others did \<Longrightarrow> clocked sv \<Longrightarrow> keeps ok (doWrite sv did ops)"
  unfolding doWrite_def by (intro ok_intros keeps_hbind; assumption)

lemma list_views_kept [ok_intros]: "keeps ok (list_views sv did es)"
proof (induction es)
  case (Cons e es)
  show ?case unfolding list_views.simps by (intro ok_intros Cons keeps_hbind)
qed (simp add: keeps_def)

lemma get_blocks_kept [ok_intros]: "keeps ok (get_blocks sv did cs)"
proof (induction cs)
  case (Cons c cs)
  show ?case unfolding get_blocks.simps by (intro ok_intros Cons keeps_hbind)
qed (simp add: keeps_def)

lemma hosted_kept [ok_intros]: "preserves ok (hostedActorStore sv did)" "preserves ok (repo_head sv did)"
  unfolding hostedActorStore_def repo_head_def by (intro ok_intros)+

lemma list_repos_kept [ok_intros]: "keeps ok (list_repos sv cursor limit accts acc)"
proof (induction accts arbitrary: acc)
  case (Cons a accts)
  show ?case unfolding list_repos.simps Let_def by (intro ok_intros Cons keeps_hbind)
qed (simp add: keeps_def)

lemma put_blob_meta_kept [ok_intros]: "others did \<Longrightarrow> preserves ok (actor_op did (with_tx f g (PutBlobMeta c mime sz)))"
  by (intro actor_op_kept tx_kept actor_ops)

lemmas [ok_intros] = actor_ops(9,10) [THEN actor_op_kept]

lemma append_kept [ok_intros]: "T (w_fmt (svWire sv)) now \<Longrightarrow> preserves ok (append_event sv now did e)"
  unfolding append_event_def by (intro ok_intros on_seq_kept log_ops; assumption)

lemma emit_kept [ok_intros]:
  "T (w_fmt (svWire sv)) now \<Longrightarrow> preserves ok (emitSyncEvent sv now did c rv)"
  "T (w_fmt (svWire sv)) now \<Longrightarrow> preserves ok (emitAccountEvent sv now did a st)"
  "T (w_fmt (svWire sv)) now \<Longrightarrow> preserves ok (emitIdentityEvent sv now did h)"
  unfolding emitSyncEvent_def emitAccountEvent_def emitIdentityEvent_def by (intro ok_intros; assumption)+

lemma Submit_kept [ok_intros]: "preserves ok (Submit sv did x)"
  by (auto simp: preserves_def Submit_def log_sent_def world_ok_def split: sum.split)

lemma identity_steps_kept [ok_intros]:
  "keeps ok (plc_state sv did)" "others did \<Longrightarrow> keeps ok (sync_handle did h)" "keeps ok (fresh_key sv did)"
  "keeps ok (require_service_auth sv rq did)" "keeps ok (account_keys sv did)"
  "others did \<Longrightarrow> T (w_fmt (svWire sv)) now \<Longrightarrow> keeps ok (change_status sv now did st f)"
  "keeps ok (genesis_account sv h)" "others did \<Longrightarrow> clocked sv \<Longrightarrow> keeps ok (init_repo sv did k)"
  unfolding plc_state_def sync_handle_def fresh_key_def require_service_auth_def account_keys_def change_status_def
    genesis_account_def init_repo_def by (intro ok_intros keeps_hbind; simp?)+

lemma count_kept [ok_intros]: "preserves ok (actor_op did m) \<Longrightarrow> keeps ok (count_of did m f)"
  unfolding count_of_def by (intro ok_intros keeps_hbind)

lemma proxy_token_kept [ok_intros]: "keeps ok (proxy_token sv rq tgt nsid)"
  unfolding proxy_token_def optionalAccessToken_def optional_credential_def by (intro ok_intros keeps_hbind)

lemma proxy_request_kept [ok_intros]: "keeps ok (proxy_request sv rq)"
  unfolding proxy_request_def Let_def by (intro ok_intros keeps_hbind)

section \<open>Importing a repository\<close>

lemma import_blocks_kept: "others did \<Longrightarrow> keeps (Dx did) (import_blocks c bs err acc)"
proof (induction bs arbitrary: acc)
  case (Cons b bs)
  then show ?case unfolding import_blocks.simps by (intro keeps_intros actor_ops Cons)
qed (auto simp: keeps_def)

lemma check_commit_kept: "keeps (Dx did) (check_commit sv did' b)"
  unfolding check_commit_def by (intro keeps_intros)

lemma load_mst_kept: "preserves (Dx did) (load_mst lib root)"
  unfolding load_mst_def by (intro preserves_intros preserves_reads tapefree reads_query_row)

lemma importWalk_kept: "others did \<Longrightarrow> preserves (Dx did) (importWalk lib tree)"
  unfolding importWalk_def walk_entry_def
  by (intro preserves_intros actor_ops put_blob_kept preserves_reads [OF tapefree(2) reads_bs_Get])

lemma import_body_kept: "others did \<Longrightarrow> keeps (Dx did) (import_body sv did' c cr)"
  unfolding import_body_def
  by (intro keeps_intros actor_ops import_blocks_kept check_commit_kept load_mst_kept importWalk_kept)

lemma tx_steps_kept:
  assumes m: "keeps (Dx did) m"
  shows "keeps (Dx did) (tx_steps r r' m)"
proof -
  have tape: "Dx did (d\<lparr>tape := t\<rparr>) = Dx did d" for d t
    using tapefree(2) by (auto simp: tapefree_def)
  have started: "preserves (Dx did) (stmt (goret ()))"
    by (rule preserves_stmt) (simp_all add: tapefree preserves_intros)
  show ?thesis
    using keepsE [OF m] preservesE [OF started]
    by (fastforce simp: keeps_def tx_steps_def tape split: prod.split sum.split)
qed

lemma actor_steps_kept:
  assumes m: "keeps (Dx did) m"
  shows "keeps ok (actor_steps did m)"
  unfolding keeps_def
proof (intro allI impI)
  fix w assume w: "ok w"
  show "ok (snd (actor_steps did m w))"
  proof (cases "disk (wMgr w) did")
    case (Some d)
    then have "Dx did d" using w by (metis world_ok_def stores_ok_def)
    then have "Dx did (snd (m d))" using m by (simp add: keeps_def)
    then show ?thesis using w Some by (auto simp: actor_steps_def world_ok_def stores_ok_def split: prod.split)
  qed (use w in \<open>simp add: actor_steps_def\<close>)
qed

lemma import_kept [ok_intros]:
  "others did \<Longrightarrow> keeps ok (actor_steps did (tx_steps r r' (import_body sv did' c cr)))"
  by (intro actor_steps_kept tx_steps_kept import_body_kept)

section \<open>The handlers\<close>

lemma served:
  "(\<And>sv rq. R sv rq \<Longrightarrow> clocked sv \<Longrightarrow> keeps ok (m sv rq)) \<Longrightarrow> handler_keeps R ok (\<lambda>sv rq. serve (m sv rq))"
  using clocks by (intro handler_keeps_serve) blast

lemma server_handlers_kept [handler_intros]:
  "handler_keeps R ok handleHealth" "handler_keeps R ok handleWellKnownDID" "handler_keeps R ok handleDescribeServer"
  "handler_keeps R ok handleCreateSession" "handler_keeps R ok handleRefreshSession" "handler_keeps R ok handleDeleteSession"
  "handler_keeps R ok handleGetSession" "handler_keeps R ok handleResolveHandle" "handler_keeps R ok handleGetServiceAuth"
  "handler_keeps R ok handleCreateAppPassword" "handler_keeps R ok handleListAppPasswords" "handler_keeps R ok handleRevokeAppPassword"
  unfolding Let_def
    handleHealth_def handleWellKnownDID_def handleDescribeServer_def handleCreateSession_def
    handleRefreshSession_def handleDeleteSession_def handleGetSession_def handleResolveHandle_def
    handleGetServiceAuth_def handleCreateAppPassword_def handleListAppPasswords_def
    handleRevokeAppPassword_def
  by (intro served require_kept own_repo_kept ok_intros keeps_hbind; simp?)+

lemma account_handlers_kept [handler_intros]:
  "handler_keeps R ok handleReserveSigningKey" "handler_keeps R ok handleServerCreateAccount" "handler_keeps R ok handleActivateAccount"
  "handler_keeps R ok handleDeactivateAccountSelf" "handler_keeps R ok handleDeleteAccount" "handler_keeps R ok handleCheckAccountStatus"
  "handler_keeps R ok handleUpdateHandle" "handler_keeps R ok handleGetRecommendedDidCredentials" "handler_keeps R ok handleSignPlcOperation"
  "handler_keeps R ok handleSubmitPlcOperation" "handler_keeps R ok handleGetPreferences" "handler_keeps R ok handlePutPreferences"
  unfolding Let_def
    handleReserveSigningKey_def handleServerCreateAccount_def handleActivateAccount_def
    handleDeactivateAccountSelf_def handleDeleteAccount_def handleCheckAccountStatus_def
    handleUpdateHandle_def handleGetRecommendedDidCredentials_def handleSignPlcOperation_def
    handleSubmitPlcOperation_def handleGetPreferences_def handlePutPreferences_def
  by (intro served require_kept own_repo_kept ok_intros keeps_hbind; simp?)+

lemma repo_handlers_kept [handler_intros]:
  "handler_keeps R ok handleCreateRecord" "handler_keeps R ok handlePutRecord" "handler_keeps R ok handleDeleteRecord"
  "handler_keeps R ok handleApplyWrites" "handler_keeps R ok handleGetRecord" "handler_keeps R ok handleListRecords"
  "handler_keeps R ok handleDescribeRepo" "handler_keeps R ok handleUploadBlob" "handler_keeps R ok handleImportRepo"
  "handler_keeps R ok handleListMissingBlobs"
  unfolding Let_def
    handleCreateRecord_def handlePutRecord_def handleDeleteRecord_def handleApplyWrites_def
    handleGetRecord_def handleListRecords_def handleDescribeRepo_def handleUploadBlob_def handleImportRepo_def
    handleListMissingBlobs_def
  by (intro served require_kept own_repo_kept ok_intros keeps_hbind; simp?)+

lemma sync_handlers_kept [handler_intros]:
  "handler_keeps R ok handleSyncGetRepo" "handler_keeps R ok handleSyncGetRepoStatus" "handler_keeps R ok handleSyncGetLatestCommit"
  "handler_keeps R ok handleSyncGetRecord" "handler_keeps R ok handleSyncGetBlocks" "handler_keeps R ok handleSyncListBlobs"
  "handler_keeps R ok handleSyncGetBlob" "handler_keeps R ok handleSyncListRepos"
  unfolding Let_def
    handleSyncGetRepo_def handleSyncGetRepoStatus_def handleSyncGetLatestCommit_def handleSyncGetRecord_def
    handleSyncGetBlocks_def handleSyncListBlobs_def handleSyncGetBlob_def handleSyncListRepos_def
  by (intro served require_kept own_repo_kept ok_intros keeps_hbind; simp?)+

lemma proxy_kept [handler_intros]: "handler_keeps R ok handleServiceProxy"
  unfolding handleServiceProxy_def by (intro served ok_intros keeps_hbind; simp?)

text \<open>The handlers of the administration API are reached only through its guard.\<close>

lemma admin_inner:
  assumes "\<And>did. others did"
  shows "handler_keeps R ok handleAdminCreateAccount" "handler_keeps R ok handleAdminListAccounts"
    "handler_keeps R ok handleAdminSetPassword" "handler_keeps R ok handleAdminDeactivateAccount"
    "handler_keeps R ok handleAdminApproveToken" "handler_keeps R ok handleAdminTakedownAccount"
    "handler_keeps R ok handleAdminRefreshIdentity"
  unfolding Let_def
    handleAdminCreateAccount_def handleAdminListAccounts_def handleAdminSetPassword_def
    handleAdminDeactivateAccount_def handleAdminApproveToken_def handleAdminTakedownAccount_def
    handleAdminRefreshIdentity_def admin_create_def admin_set_password_def admin_deactivate_def admin_approve_def
    admin_takedown_def admin_refresh_def
  by (intro served ok_intros keeps_hbind assms; simp?)+

lemma requireAdmin_kept:
  assumes "(\<And>did. others did) \<Longrightarrow> handler_keeps R ok h"
  shows "handler_keeps R ok (requireAdmin h)"
  using assms admins unfolding handler_keeps_def requireAdmin_def passes_admin_def
  by (auto split: option.split)

lemmas [handler_intros] = admin_inner [THEN requireAdmin_kept]

section \<open>The whole server\<close>

definition target_keeps :: "('t, 'k) target \<Rightarrow> bool" where
  "target_keeps t = (case t of Plain h \<Rightarrow> handler_keeps R ok h | Limited h \<Rightarrow> handler_keeps R ok h)"

lemma routes_keep:
  assumes "handler_keeps R ok subscribe"
  shows "list_all (\<lambda>r. target_keeps (snd (snd r))) (all_routes subscribe)"
  unfolding all_routes_def server_routes_def repo_routes_def sync_routes_def admin_routes_def get_route_def post_route_def
  by (simp add: target_keeps_def handler_intros assms)

lemma dispatch_keeps:
  assumes "handler_keeps R ok subscribe" "dispatch (all_routes subscribe) rq = Inl t"
  shows "target_keeps t"
proof (cases "find (route_matches rq) (all_routes subscribe)")
  case None
  then have "t = Plain handleServiceProxy" using assms(2) by (auto simp: dispatch_def split: if_splits)
  then show ?thesis by (simp add: target_keeps_def handler_intros)
next
  case (Some r)
  then have "r \<in> set (all_routes subscribe)" by (auto simp: find_Some_iff)
  then show ?thesis using routes_keep [OF assms(1)] Some assms(2) by (auto simp: dispatch_def list_all_iff)
qed

lemma Handler_keeps:
  assumes "handler_keeps R ok subscribe" "R sv rq" "ok (snd s)"
  shows "ok (snd (snd (Handler rl now now' subscribe sv rq s)))"
proof -
  have "ok (snd (snd (run_target rl now now' sv t rq s)))" if "target_keeps t" for t
    using that assms(2,3) unfolding run_target_def rateLimited_def target_keeps_def handler_keeps_def
    by (cases t) (fastforce split: prod.split)+
  then show ?thesis
    using dispatch_keeps [OF assms(1)] assms(3)
    by (auto simp: Handler_def withCORS_def split: prod.split sum.split)
       (metis snd_conv)+
qed

end

end
