(* ===== verification/HandlerSpec.thy ===== *)
theory HandlerSpec
  imports HandlerInv
begin

text \<open>
  The steps that the endpoints share, seen from a request that succeeded: who the caller is, what the
  stores hold after they are opened, what an operation on one store leaves alone.
\<close>

section \<open>The caller\<close>

text \<open>The request carries an access token for \<open>did\<close>.\<close>

definition token_of :: "('t, 'k) server \<Rightarrow> request \<Rightarrow> string \<Rightarrow> bool" where
  "token_of sv rq did \<longleftrightarrow> (case bearerToken rq of None \<Rightarrow> False
   | Some tok \<Rightarrow> (case ParseAccessToken (svJwt sv) (svNow sv 0) (cfJWTSecret sv) tok of
       Inl _ \<Rightarrow> False | Inr p \<Rightarrow> ptDID p = did))"

lemma require_caller:
  "requireAccessToken sv rq w = (Inr did, w') \<Longrightarrow> same_tables w w' \<and> token_of sv rq did"
  "requirePrivilegedAccessToken sv rq w = (Inr did, w') \<Longrightarrow> same_tables w w' \<and> token_of sv rq did"
  "requireMigrationAccessToken sv rq w = (Inr did, w') \<Longrightarrow> same_tables w w' \<and> token_of sv rq did"
  "requireMigratableAccessToken sv rq w = (Inr did, w') \<Longrightarrow> same_tables w w' \<and> token_of sv rq did"
  unfolding requireAccessToken_def requirePrivilegedAccessToken_def requireMigrationAccessToken_def
    requireMigratableAccessToken_def token_of_def
  by (auto simp: hbind_Inr_iff dest!: requirePrincipal_ok)

lemma token_of_unique: "token_of sv rq a \<Longrightarrow> token_of sv rq b \<Longrightarrow> a = b"
  by (auto simp: token_of_def split: option.splits sum.splits)

lemma stops_require [stops_intros]:
  "401 \<in> S \<Longrightarrow> 403 \<in> S \<Longrightarrow> stops_with S (requireAccessToken sv rq)"
  "401 \<in> S \<Longrightarrow> 403 \<in> S \<Longrightarrow> stops_with S (requirePrivilegedAccessToken sv rq)"
  "401 \<in> S \<Longrightarrow> 403 \<in> S \<Longrightarrow> stops_with S (requireMigrationAccessToken sv rq)"
  "401 \<in> S \<Longrightarrow> 403 \<in> S \<Longrightarrow> stops_with S (requireMigratableAccessToken sv rq)"
  unfolding requireAccessToken_def requirePrivilegedAccessToken_def requireMigrationAccessToken_def
    requireMigratableAccessToken_def by (intro stops_intros; simp)+

section \<open>Opening and using a store\<close>

lemma mgr_Get_disk: "mgr_Get parse did m = (r, m') \<Longrightarrow> disk m d = Some x \<Longrightarrow> disk m' d = Some x"
  by (auto simp: mgr_Get_def Open_def gobind_def wrapf_def stmt_def Let_def create_db_def
      split: sum.splits if_splits option.splits)

lemma actors_Get_keeps:
  assumes "actors_Get sv did w = (r, w')"
  shows "wAcct w' = wAcct w" "wSeq w' = wSeq w" "wSent w' = wSent w"
    "disk (wMgr w) d = Some x \<Longrightarrow> disk (wMgr w') d = Some x"
  using assms mgr_Get_disk by (auto simp: actors_Get_def)

lemma actor_op_Inr:
  "actor_op did m w = (Inr x, w') \<longleftrightarrow> (\<exists>d d'. disk (wMgr w) did = Some d \<and> m d = (Inr x, d')
     \<and> w' = w\<lparr>wMgr := (wMgr w)\<lparr>disk := (disk (wMgr w))(did \<mapsto> d')\<rparr>\<rparr>)"
  by (auto simp: actor_op_def on_actor_def split: option.splits prod.splits)

lemma actor_op_Inl:
  "actor_op did m w = (Inl e, w') \<longleftrightarrow> (disk (wMgr w) did = None \<and> e = ErrDB \<and> w' = w)
     \<or> (\<exists>d d'. disk (wMgr w) did = Some d \<and> m d = (Inl e, d')
     \<and> w' = w\<lparr>wMgr := (wMgr w)\<lparr>disk := (disk (wMgr w))(did \<mapsto> d')\<rparr>\<rparr>)"
  by (auto simp: actor_op_def on_actor_def split: option.splits prod.splits)

end
