(* ===== verification/ServerSpec.thy ===== *)
theory ServerSpec
  imports HandlerSpec
begin

text \<open>
  What holds of the whole server, over every sequence of requests to any of its routes, whatever the
  libraries, the clock and the network answer and whichever statements fail: the interpretations of
  \<open>server_predicate\<close> and the properties that rest on them.
\<close>

section \<open>Sequences of requests\<close>

text \<open>One request with what its handling reads from the world: the two clock readings of the rate
  limiter and a server record of its own, with the clock, the random source and the network of that moment.\<close>

type_synonym ('t, 'k) served = "int \<times> int \<times> ('t, 'k) server \<times> request"

fun serve_all :: "'l rate_lib \<Rightarrow> ('t, 'k) handler \<Rightarrow> ('t, 'k) served list \<Rightarrow> 'l server_state \<Rightarrow> 'l server_state" where
  "serve_all rl subscribe [] s = s"
| "serve_all rl subscribe ((now, now', sv, rq) # es) s =
     serve_all rl subscribe es (snd (Handler rl now now' subscribe sv rq s))"

text \<open>What the subscription does to the state when a websocket is opened or closed: it reads the log
  and changes the list of subscribers.\<close>

definition only_subscribes :: "('t, 'k) handler \<Rightarrow> bool" where
  "only_subscribes subscribe \<longleftrightarrow> (\<forall>sv rq w. \<exists>t ss.
     snd (subscribe sv rq w) = w\<lparr>wSeq := (wSeq w)\<lparr>tape := t, subs := ss\<rparr>\<rparr>)"

context server_predicate
begin

lemma subscribe_keeps: "only_subscribes subscribe \<Longrightarrow> handler_keeps R ok subscribe"
  unfolding handler_keeps_def only_subscribes_def
proof (intro allI impI)
  fix sv rq w assume s: "\<forall>sv rq w. \<exists>t ss. snd (subscribe sv rq w) = w\<lparr>wSeq := (wSeq w)\<lparr>tape := t, subs := ss\<rparr>\<rparr>" and "ok w"
  obtain t ss where "snd (subscribe sv rq w) = w\<lparr>wSeq := (wSeq w)\<lparr>tape := t, subs := ss\<rparr>\<rparr>" using s by blast
  then show "ok (snd (subscribe sv rq w))" using \<open>ok w\<close> by (simp add: world_ok_def log_readers)
qed

lemma served_keeps:
  assumes "only_subscribes subscribe" "\<forall>e \<in> set es. R (fst (snd (snd e))) (snd (snd (snd e)))" "ok (snd s)"
  shows "ok (snd (serve_all rl subscribe es s))"
  using assms
proof (induction rl subscribe es s rule: serve_all.induct)
  case (2 rl subscribe now now' sv rq es s)
  have "ok (snd (snd (Handler rl now now' subscribe sv rq s)))"
    using 2(2,3,4) by (intro Handler_keeps subscribe_keeps) simp_all
  then show ?case using 2(1,2,3) by simp
qed simp

end

section \<open>The constraints of all databases\<close>

definition store_inv :: "string \<Rightarrow> actordb option \<Rightarrow> bool" where
  "store_inv did x \<longleftrightarrow> (case x of None \<Rightarrow> True | Some d \<Rightarrow> actor_inv d)"

lemma preserves_actor_private: "preserves actor_inv (SetPreferences v)" "preserves actor_inv (WriteBlobFile c content)"
  unfolding SetPreferences_def WriteBlobFile_def
  by (intro preserves_gobind preserves_wrapf preserves_stmt tapefree_actor_inv;
      simp add: preserves_def actor_inv_def put_file_def rename_file_def split: option.split)+

interpretation tables: server_predicate acct_inv store_inv seq_inv "\<lambda>_. False" "\<lambda>_ _. True" "\<lambda>_ _. True"
proof unfold_locales
  show "tapefree acct_inv" by (rule tapefree_acct_inv)
  show "tapefree (\<lambda>d. store_inv did (Some d))" for did by (simp add: store_inv_def)
  show "preserves acct_inv (store_exec now oper)" for now oper by (rule acct_inv_store_exec)
  show "store_inv did (Some (empty_actordb t))" for did t by (simp add: store_inv_def actor_inv_def empty_actordb_def)
  show "preserves seq_inv (Append lib fmt_sec now did evt)" for lib fmt_sec now did evt by (rule seq_inv_Append)
  show "seq_inv (d\<lparr>tape := t, subs := ss\<rparr>) = seq_inv d" for d t ss by (simp add: seq_inv_def)
qed (simp_all add: store_inv_def actor_inv_ops preserves_actor_private)

text \<open>Every constraint of the account database, of every actor database and of the log.\<close>

definition server_inv :: "world \<Rightarrow> bool" where
  "server_inv w \<longleftrightarrow> acct_inv (wAcct w) \<and> (\<forall>did d. disk (wMgr w) did = Some d \<longrightarrow> actor_inv d) \<and> seq_inv (wSeq w)"

lemma server_inv_eq: "world_ok acct_inv store_inv seq_inv = server_inv"
  by (auto simp: fun_eq_iff world_ok_def stores_ok_def store_inv_def server_inv_def split: option.splits)

text \<open>C1. The databases never break a constraint. Whatever requests arrive, at whatever routes, with
  whatever answers of the libraries and the network and whichever statements failing: accounts, tokens,
  blocks, records, blobs and references stay unique, auth versions positive and the log in order.\<close>

theorem server_invariant:
  assumes "only_subscribes subscribe" "server_inv (snd s)"
  shows "server_inv (snd (serve_all rl subscribe es s))"
  using tables.served_keeps [OF assms(1), of es s rl] assms(2) by (simp add: server_inv_eq)

section \<open>Requests of others\<close>

text \<open>A request that is neither the administrator's nor made with an access token of the account; for an
  account that is taken down, any that is not the administrator's.\<close>

definition outsider :: "account \<Rightarrow> ('t, 'k) server \<Rightarrow> request \<Rightarrow> bool" where
  "outsider a sv rq \<longleftrightarrow> \<not> passes_admin sv rq \<and> (acStatus a = StatusTakenDown \<or> \<not> token_of sv rq (acDID a))"

definition account_fixed :: "account \<Rightarrow> app_password list \<Rightarrow> acctdb \<Rightarrow> bool" where
  "account_fixed a aps d \<longleftrightarrow> acct_lookup (accounts d) (acDID a) = Some a
     \<and> filter (\<lambda>ap. apDID ap = acDID a) (app_passwords d) = aps"

definition store_fixed :: "account \<Rightarrow> actordb option \<Rightarrow> string \<Rightarrow> actordb option \<Rightarrow> bool" where
  "store_fixed a x0 did x \<longleftrightarrow> (case x0 of None \<Rightarrow> True
     | Some d0 \<Rightarrow> did = acDID a \<longrightarrow> (\<exists>t. x = Some (d0\<lparr>tape := t\<rparr>)))"

lemma account_fixed_exec:
  assumes "\<And>did. op_target oper = Some did \<Longrightarrow> did \<noteq> acDID a"
  shows "preserves (account_fixed a aps) (store_exec now oper)"
proof -
  have tf: "tapefree (account_fixed a aps)" by (rule tapefreeI) (simp add: account_fixed_def)
  show ?thesis using assms
    by (cases oper)
       (auto simp: account_op_defs token_op_defs dest!: sql_insertD sql_updateD
          simp: account_fixed_def intro!: preserves_intros preserves_with_tx tf filter_cong [OF refl])
qed

lemma outsider_principal:
  assumes "outsider a sv rq" "account_fixed a aps (wAcct w)" "requirePrincipal sv rq pr de w = (Inr p, w')"
  shows "ptDID p \<noteq> acDID a"
  using assms(1,2) requirePrincipal_ok [OF assms(3)]
  by (auto simp: outsider_def account_fixed_def live_principal_def token_of_def StatusTakenDown_def StatusActive_def
      StatusDeactivated_def)

lemma same_but_tape: "s\<lparr>tape := t\<rparr> = d0\<lparr>tape := u\<rparr> \<Longrightarrow> \<exists>t. s = d0\<lparr>tape := t\<rparr>" for s d0 :: actordb
  by (metis dbconn.surjective dbconn.update_convs(1) dbconn.select_convs(1))

interpretation bystander: server_predicate "account_fixed a aps" "store_fixed a x0" "\<lambda>_. True" "\<lambda>d. d = acDID a" "outsider a" "\<lambda>_ _. True"
  for a aps x0
proof unfold_locales
  show "tapefree (account_fixed a aps)" by (rule tapefreeI) (simp add: account_fixed_def)
  show "tapefree (\<lambda>d. store_fixed a x0 did (Some d))" for did
    by (rule tapefreeI) (auto simp: store_fixed_def dest: same_but_tape split: option.split)
  show "preserves (account_fixed a aps) (store_exec now oper)"
    if "\<And>did. op_target oper = Some did \<Longrightarrow> did \<noteq> acDID a" for oper now
    using that by (rule account_fixed_exec)
  show "ptDID p \<noteq> acDID a"
    if "outsider a sv rq" "account_fixed a aps (wAcct w)" "requirePrincipal sv rq pr de w = (Inr p, w')"
    for sv :: "('t, 'k) server" and rq w pr de p w'
    using that by (rule outsider_principal)
qed (auto simp: store_fixed_def preserves_def passes_admin_def outsider_def split: option.splits)

lemma outsiders_leave:
  assumes "only_subscribes subscribe" "\<forall>e \<in> set es. outsider a (fst (snd (snd e))) (snd (snd (snd e)))"
    and "acct_lookup (accounts (wAcct (snd s))) (acDID a) = Some a"
  shows "world_ok (account_fixed a (filter (\<lambda>ap. apDID ap = acDID a) (app_passwords (wAcct (snd s)))))
    (store_fixed a (disk (wMgr (snd s)) (acDID a))) (\<lambda>_. True) (snd (serve_all rl subscribe es s))"
proof -
  have "\<exists>t. d0 = d0\<lparr>tape := t\<rparr>" for d0 :: actordb by (rule exI [of _ "tape d0"]) simp
  then have "world_ok (account_fixed a (filter (\<lambda>ap. apDID ap = acDID a) (app_passwords (wAcct (snd s)))))
      (store_fixed a (disk (wMgr (snd s)) (acDID a))) (\<lambda>_. True) (snd s)"
    using assms(3) by (auto simp: world_ok_def stores_ok_def account_fixed_def store_fixed_def split: option.split)
  from bystander.served_keeps [OF assms(1,2) this, of rl] show ?thesis .
qed

text \<open>C2. Nobody else can touch an account. Over any sequence of requests that are neither the
  administrator's nor carry an access token of the account (its DID, handle and public data may be
  known), its row with password, handle and status, its app passwords and everything in its actor store,
  repository, blobs and preferences, stay exactly as they were.\<close>

theorem others_change_nothing:
  assumes "only_subscribes subscribe"
    and "\<forall>e \<in> set es. outsider a (fst (snd (snd e))) (snd (snd (snd e)))"
    and "acct_lookup (accounts (wAcct (snd s))) (acDID a) = Some a" "disk (wMgr (snd s)) (acDID a) = Some d0"
    and "snd (serve_all rl subscribe es s) = w'"
  shows "acct_lookup (accounts (wAcct w')) (acDID a) = Some a
    \<and> filter (\<lambda>ap. apDID ap = acDID a) (app_passwords (wAcct w')) = filter (\<lambda>ap. apDID ap = acDID a) (app_passwords (wAcct (snd s)))
    \<and> (\<exists>t. disk (wMgr w') (acDID a) = Some (d0\<lparr>tape := t\<rparr>))"
  using outsiders_leave [OF assms(1-3), of rl] assms(4,5)
  by (simp add: world_ok_def stores_ok_def account_fixed_def store_fixed_def)

text \<open>C3. A takedown is final: after it, whatever requests follow, as long as none is the
  administrator's, nobody logs in to the account, refreshes one of its sessions or passes for it.\<close>

theorem takedown_final:
  assumes "only_subscribes subscribe" "server_inv (snd s)"
    and "\<forall>e \<in> set es. \<not> passes_admin (fst (snd (snd e))) (snd (snd (snd e)))"
    and "acct_lookup (accounts (wAcct (snd s))) (acDID a) = Some a"
    and "acStatus a = StatusTakenDown" and "snd (serve_all rl subscribe es s) = w'"
  shows "granted_did (fst (handleCreateSession sv rq w')) \<noteq> Some (acDID a)
    \<and> granted_did (fst (handleRefreshSession sv rq w')) \<noteq> Some (acDID a)
    \<and> Some (acDID a) \<noteq> (case fst (requirePrincipal sv rq priv ad w') of Inl _ \<Rightarrow> None | Inr p \<Rightarrow> Some (ptDID p))"
proof (rule taken_down_shut_out)
  have "\<forall>e \<in> set es. outsider a (fst (snd (snd e))) (snd (snd (snd e)))"
    using assms(3,5) by (simp add: outsider_def)
  then show "acct_lookup (accounts (wAcct w')) (acDID a) = Some a"
    using outsiders_leave [OF assms(1) _ assms(4)] assms(6) by (auto simp: world_ok_def account_fixed_def)
  show "acct_inv (wAcct w')"
    using tables.served_keeps [OF assms(1), of es s rl] assms(2,6) unfolding server_inv_eq by (simp add: server_inv_def)
qed (rule assms(5))

section \<open>The event log\<close>

text \<open>What is left of a log that held the rows \<open>old\<close> when its counter was \<open>n\<close>: of the numbers up to \<open>n\<close> only old
  rows, and every old row that was not trimmed at one of the clock readings in \<open>T\<close>.\<close>

definition log_past :: "((int \<Rightarrow> string) \<Rightarrow> int \<Rightarrow> bool) \<Rightarrow> int \<Rightarrow> event_row list \<Rightarrow> seqdb \<Rightarrow> bool" where
  "log_past T n old d \<longleftrightarrow> seq_inv d \<and> n \<le> last_seq d \<and> (\<forall>r \<in> set (events d). evSeq r \<le> n \<longrightarrow> r \<in> set old)
     \<and> (\<forall>r \<in> set old. r \<in> set (events d) \<or> (\<exists>fmt_sec now. T fmt_sec now \<and> \<not> retained fmt_sec now r))"

lemma log_past_Append:
  assumes "T fmt_sec now"
  shows "preserves (log_past T n old) (Append lib fmt_sec now did evt)"
proof (rule preservesI)
  fix d r d' assume p: "log_past T n old d" and run: "Append lib fmt_sec now did evt d = (r, d')"
  have i: "seq_inv d'" using preservesE [OF seq_inv_Append run] p by (simp add: log_past_def)
  show "log_past T n old d'"
  proof (cases r)
    case (Inl e)
    then show ?thesis using Append_err [of lib fmt_sec now did evt d e d'] run p i by (auto simp: log_past_def)
  next
    case (Inr sq)
    obtain ty pl where "sq = last_seq d + 1" "last_seq d' = sq"
      "events d' = filter (retained fmt_sec now) (events d @ [new_row fmt_sec now did sq ty pl])"
      using Append_ok [OF run [unfolded Inr]] p by (metis log_past_def)
    then show ?thesis using p i assms by (fastforce simp: log_past_def new_row_def)
  qed
qed

interpretation past: server_predicate "\<lambda>_. True" "\<lambda>_ _. True" "log_past T n old" "\<lambda>_. False"
  "\<lambda>sv rq. \<forall>i. T (w_fmt (svWire sv)) (svNow sv i)" T for T n old
proof unfold_locales
  show "preserves (log_past T n old) (Append lib fmt_sec now did evt)" if "T fmt_sec now" for lib fmt_sec now did evt
    using that by (rule log_past_Append)
  show "log_past T n old (d\<lparr>tape := t, subs := ss\<rparr>) = log_past T n old d" for d t ss
    by (simp add: log_past_def seq_inv_def)
qed (simp_all add: preserves_def tapefree_def)

text \<open>C5. The past of the firehose is immutable, up to the retention window. Over any sequence of requests the
  counter only grows, and a stored event whose number was given out before is one that was stored before,
  unchanged; an event that was stored before is deleted only as outdated: it is still stored, or its creation
  time lies, as text, before the start of the 72 hour window at some clock reading of one of the requests.\<close>

theorem log_immutable:
  assumes "only_subscribes subscribe" "seq_inv (wSeq (snd s))" "snd (serve_all rl subscribe es s) = w'"
  shows "last_seq (wSeq (snd s)) \<le> last_seq (wSeq w')
    \<and> {r \<in> set (events (wSeq w')). evSeq r \<le> last_seq (wSeq (snd s))} \<subseteq> set (events (wSeq (snd s)))
    \<and> {r \<in> set (events (wSeq (snd s))). \<forall>(now, now', sv, rq) \<in> set es. \<forall>i.
          \<not> evCreatedAt r < rfc3339nano (w_fmt (svWire sv)) (svNow sv i - 72 * 3600 * 1000000000)} \<subseteq> set (events (wSeq w'))"
proof -
  let ?T = "\<lambda>fmt_sec now. \<exists>e \<in> set es. \<exists>i. fmt_sec = w_fmt (svWire (fst (snd (snd e)))) \<and> now = svNow (fst (snd (snd e))) i"
  let ?P = "log_past ?T (last_seq (wSeq (snd s))) (events (wSeq (snd s)))"
  have w: "world_ok (\<lambda>_. True) (\<lambda>_ _. True) ?P (snd s)"
    using assms(2) by (simp add: world_ok_def stores_ok_def log_past_def)
  have r: "\<forall>e \<in> set es. \<forall>i. ?T (w_fmt (svWire (fst (snd (snd e))))) (svNow (fst (snd (snd e))) i)" by blast
  have p: "?P (wSeq w')" using past.served_keeps [OF assms(1) r w, of rl] assms(3) by (simp add: world_ok_def)
  have "r \<in> set (events (wSeq w'))" if "r \<in> set (events (wSeq (snd s)))"
    "\<forall>(now, now', sv, rq) \<in> set es. \<forall>i. \<not> evCreatedAt r < rfc3339nano (w_fmt (svWire sv)) (svNow sv i - 72 * 3600 * 1000000000)" for r
    using p that by (fastforce simp: log_past_def retained_def BackfillWindow_def hour_def nanos_def)
  then show ?thesis using p by (auto simp: log_past_def)
qed

section \<open>Witnesses\<close>

text \<open>A login attempt and an anonymous read against a server whose account has a store.\<close>

definition demo_subscribe :: "((string \<times> cid) list, string) handler" where
  "demo_subscribe sv rq w = (empty_object, w)"

definition demo_requests :: "((string \<times> cid) list, string) served list" where
  "demo_requests =
    [(0, 1, demo_server\<lparr>svJson := demo_json demo_login\<rparr>, (demo_post '''')\<lparr>rqPath := ''/xrpc/com.atproto.server.createSession''\<rparr>),
     (2, 3, demo_server, demo_request\<lparr>rqMethod := ''GET'', rqPath := ''/xrpc/com.atproto.sync.listRepos''\<rparr>)]"

definition demo_running :: "account \<Rightarrow> (int \<times> int option) server_state" where
  "demo_running a = (newIPRateLimiter 0, demo_home\<lparr>wAcct := (wAcct demo_home)\<lparr>accounts := [a]\<rparr>,
     wMgr := (empty_manager [])\<lparr>disk := [''did:plc:a'' \<mapsto> empty_actordb []]\<rparr>\<rparr>)"

lemma demo_subscribes: "only_subscribes demo_subscribe"
  unfolding only_subscribes_def demo_subscribe_def
proof (intro allI)
  fix w :: world
  show "\<exists>t ss. snd (empty_object, w) = w\<lparr>wSeq := (wSeq w)\<lparr>tape := t, subs := ss\<rparr>\<rparr>"
    by (rule exI [of _ "tape (wSeq w)"], rule exI [of _ "subs (wSeq w)"]) simp
qed

lemma demo_running_simps [simp]:
  "accounts (wAcct (snd (demo_running a))) = [a]" "app_passwords (wAcct (snd (demo_running a))) = []"
  "disk (wMgr (snd (demo_running a))) = [''did:plc:a'' \<mapsto> empty_actordb []]"
  "wSeq (snd (demo_running a)) = empty_seqdb []" "refresh_tokens (wAcct (snd (demo_running a))) = [demo_refresh ''3030'']"
  "reserved_signing_keys (wAcct (snd (demo_running a))) = []" "admin_tokens (wAcct (snd (demo_running a))) = []"
  by (simp_all add: demo_running_def demo_home_def demo_world_def demo_db_def empty_acctdb_def empty_manager_def)

lemma demo_running_inv: "1 \<le> acAuthVersion a \<Longrightarrow> server_inv (snd (demo_running a))"
  by (auto simp: server_inv_def acct_inv_def actor_inv_def empty_actordb_def seq_inv_def empty_seqdb_def split: if_splits)

lemma demo_no_admin: "e \<in> set demo_requests \<Longrightarrow> \<not> passes_admin (fst (snd (snd e))) (snd (snd (snd e)))"
  by (auto simp: demo_requests_def passes_admin_def demo_server_def addrInPrefixes_def)

lemma demo_outsiders: "e \<in> set demo_requests \<Longrightarrow> outsider demo_user (fst (snd (snd e))) (snd (snd (snd e)))"
  using demo_no_admin [of e] unfolding outsider_def
  by (auto simp: demo_requests_def token_of_def bearerToken_def header_get_def first_value_def demo_post_def demo_request_def
      has_prefix_def trim_prefix_def ParseAccessToken_def parse_token_def demo_tokens_def hmac_keyfunc_def split: sum.split)

theorem server_invariant_witness:
  "server_inv (snd (serve_all login_bucket demo_subscribe demo_requests (demo_running demo_user)))"
  by (rule server_invariant [OF demo_subscribes]) (simp add: demo_running_inv)

theorem others_change_nothing_witness:
  "acct_lookup (accounts (wAcct (snd (serve_all login_bucket demo_subscribe demo_requests (demo_running demo_user)))))
     ''did:plc:a'' = Some demo_user"
  using others_change_nothing [OF demo_subscribes, of demo_requests demo_user "demo_running demo_user" "empty_actordb []" login_bucket]
    demo_outsiders by (simp add: acct_lookup_def)

theorem takedown_final_witness:
  "granted_did (fst (handleCreateSession (demo_server\<lparr>svJson := demo_json demo_login\<rparr>) (demo_post '''')
     (snd (serve_all login_bucket demo_subscribe demo_requests (demo_running (demo_user\<lparr>acStatus := StatusTakenDown\<rparr>))))))
     \<noteq> Some ''did:plc:a''"
  using takedown_final [OF demo_subscribes, where s = "demo_running (demo_user\<lparr>acStatus := StatusTakenDown\<rparr>)"
      and es = demo_requests and a = "demo_user\<lparr>acStatus := StatusTakenDown\<rparr>" and rl = login_bucket
      and sv = "demo_server\<lparr>svJson := demo_json demo_login\<rparr>" and rq = "demo_post ''''", OF _ _ _ _ refl]
    demo_no_admin demo_running_inv [of "demo_user\<lparr>acStatus := StatusTakenDown\<rparr>"]
  by (simp add: acct_lookup_def)

lemma demo_log_young: "\<not> ''000000000005Z'' < rfc3339nano demo_fmt (5000000000 - 72 * 3600 * 1000000000)"
  by code_simp

theorem log_immutable_witness:
  "set (events demo_log) \<subseteq> set (events (wSeq (snd (serve_all login_bucket demo_subscribe demo_requests
     (newIPRateLimiter 0, demo_home\<lparr>wSeq := demo_log\<rparr>)))))"
proof -
  have "seq_inv demo_log" by (simp add: seq_inv_def demo_log_def new_row_def)
  moreover have "evCreatedAt r = ''000000000005Z''" if "r \<in> set (events demo_log)" for r
  proof -
    have "rfc3339nano demo_fmt 5000000000 = ''000000000005Z''" by code_simp
    then show ?thesis using that by (simp add: demo_log_def new_row_def)
  qed
  moreover have "svNow sv i = 5000000000 \<and> w_fmt (svWire sv) = demo_fmt" if "(n, n', sv, rq) \<in> set demo_requests" for n n' sv rq i
    using that by (auto simp: demo_requests_def demo_server_def demo_wire_def)
  ultimately show ?thesis
    using log_immutable [OF demo_subscribes, of "(newIPRateLimiter 0, demo_home\<lparr>wSeq := demo_log\<rparr>)" login_bucket demo_requests]
      demo_log_young by fastforce
qed

end
