(* ===== verification/SyncSpec.thy ===== *)
theory SyncSpec
  imports HandlerInv
begin

text \<open>
  What the public read endpoints promise: they allocate nothing and change no table, and the listing of
  the repositories, whose cursor does not fit its order.
\<close>

section \<open>Public reads\<close>

definition same_store :: "actordb option \<Rightarrow> actordb option \<Rightarrow> bool" where
  "same_store x y \<longleftrightarrow> (case x of None \<Rightarrow> y = None | Some d \<Rightarrow> \<exists>t. y = Some (d\<lparr>tape := t\<rparr>))"

text \<open>The world is the same, apart from the pending faults and the cache of open stores.\<close>

definition quiet :: "world \<Rightarrow> world \<Rightarrow> bool" where
  "quiet w0 w \<longleftrightarrow> (\<exists>t. wAcct w = (wAcct w0)\<lparr>tape := t\<rparr>) \<and> wSeq w = wSeq w0 \<and> wSent w = wSent w0
     \<and> (\<forall>did. same_store (disk (wMgr w0) did) (disk (wMgr w) did))
     \<and> set (blob_dirs (wMgr w)) = set (blob_dirs (wMgr w0)) \<and> locks (wMgr w) = locks (wMgr w0)"

lemma same_store_refl [simp]: "same_store x x"
  by (cases x) (auto simp: same_store_def intro: same_tape)

lemma same_store_step: "same_store x y \<Longrightarrow> y = Some d \<Longrightarrow> same_store x (Some (d\<lparr>tape := t\<rparr>))"
  by (auto simp: same_store_def split: option.splits)

lemma quiet_refl: "quiet w w"
  by (auto simp: quiet_def intro: same_tape)

lemma quiet_acct: "reads m \<Longrightarrow> preserves (quiet w0) (on_acct m)"
  by (intro preservesI) (force simp: quiet_def dest: readsD)

lemma quiet_existing: "preserves (quiet w0) (actors_GetExisting sv did)"
proof (rule preservesI)
  fix w r w' assume q: "quiet w0 w" and "actors_GetExisting sv did w = (r, w')"
  then obtain m where "mgr_GetExisting (svParseDid sv) did (wMgr w) = (r, m)" "w' = w\<lparr>wMgr := m\<rparr>"
    by (auto simp: actors_GetExisting_def)
  then show "quiet w0 w'"
    using get_existing_allocates_nothing [where parse_did = "svParseDid sv" and did = did and m = "wMgr w"] q by (simp add: quiet_def)
qed

lemma quiet_actor: "reads m \<Longrightarrow> preserves (quiet w0) (actor_op did m)"
proof (rule preservesI)
  fix w r w' assume m: "reads m" and q: "quiet w0 w" and run: "actor_op did m w = (r, w')"
  show "quiet w0 w'"
  proof (cases "disk (wMgr w) did")
    case (Some d)
    obtain x d' where md: "m d = (x, d')" by fastforce
    then obtain t where "d' = d\<lparr>tape := t\<rparr>" using readsD [OF m] by blast
    then show ?thesis
      using q run Some md by (auto simp: actor_op_def on_actor_def quiet_def intro: same_store_step)
  qed (use q run in \<open>auto simp: actor_op_def on_actor_def quiet_def\<close>)
qed

lemmas quiet_intros = keeps_intros preserves_gobind preserves_map_error
  reads_accounts [THEN quiet_acct] quiet_existing reads_bs_Get [THEN quiet_actor] reads_GetRepoRoot [THEN quiet_actor]
  reads_rows(3-5) [THEN quiet_actor] reads_lists [THEN quiet_actor]

lemma quiet_hosted: "preserves (quiet w0) (hostedActorStore sv did)" "preserves (quiet w0) (repo_head sv did)"
  unfolding hostedActorStore_def repo_head_def by (intro quiet_intros)+

lemma quiet_get_blocks: "keeps (quiet w0) (get_blocks sv did cs)"
proof (induction cs)
  case (Cons c cs)
  show ?case unfolding get_blocks.simps by (intro quiet_intros Cons)
qed (simp add: keeps_def)

lemma quiet_list_repos: "keeps (quiet w0) (list_repos sv cursor limit accts acc)"
proof (induction accts arbitrary: acc)
  case (Cons a accts)
  show ?case unfolding list_repos.simps Let_def by (intro quiet_intros quiet_hosted Cons)
qed (simp add: keeps_def)

lemma sync_handlers_quiet:
  "handler_keeps (\<lambda>_ _. True) (quiet w0) handleSyncGetRepo" "handler_keeps (\<lambda>_ _. True) (quiet w0) handleSyncGetRepoStatus"
  "handler_keeps (\<lambda>_ _. True) (quiet w0) handleSyncGetLatestCommit" "handler_keeps (\<lambda>_ _. True) (quiet w0) handleSyncGetRecord"
  "handler_keeps (\<lambda>_ _. True) (quiet w0) handleSyncGetBlocks" "handler_keeps (\<lambda>_ _. True) (quiet w0) handleSyncListBlobs"
  "handler_keeps (\<lambda>_ _. True) (quiet w0) handleSyncGetBlob" "handler_keeps (\<lambda>_ _. True) (quiet w0) handleSyncListRepos"
  unfolding Let_def
    handleSyncGetRepo_def handleSyncGetRepoStatus_def handleSyncGetLatestCommit_def handleSyncGetRecord_def
    handleSyncGetBlocks_def handleSyncListBlobs_def handleSyncGetBlob_def handleSyncListRepos_def
  by (intro handler_keeps_serve quiet_intros quiet_hosted quiet_get_blocks quiet_list_repos)+

lemma quiet_after: "handler_keeps (\<lambda>_ _. True) (quiet w) h \<Longrightarrow> quiet w (snd (h sv rq w))"
  using quiet_refl [of w] by (simp add: handler_keeps_def)

text \<open>C36. The public sync endpoints only read: whatever DID, CID, cursor or limit an anonymous caller
  sends, and whatever fails, no account, record, block, blob, event or outgoing request changes, no actor
  database or blob directory is created and no lock allocated.\<close>

theorem public_reads_change_nothing:
  "list_all (\<lambda>h. quiet w (snd (h sv rq w)))
     [handleSyncGetRepo, handleSyncGetRepoStatus, handleSyncGetLatestCommit, handleSyncGetRecord, handleSyncGetBlocks,
      handleSyncListBlobs, handleSyncGetBlob, handleSyncListRepos]"
  by (simp add: quiet_after sync_handlers_quiet)

end
