(* ===== verification/PageSpec.thy ===== *)
theory PageSpec
  imports SyncSpec
begin

text \<open>
  Following the cursor of \<^verbatim>\<open>com.atproto.sync.listRepos\<close>: the loop walks the accounts in the order of their
  creation, the cursor compares DIDs.
\<close>

lemma list_repos_out:
  assumes "list_repos sv c limit accts acc w = (Inr out, w')"
  shows "\<exists>new. out = acc @ new \<and> subseq (map reDID new) (map acDID accts) \<and> (\<forall>e \<in> set new. c = '''' \<or> c < reDID e)"
  using assms
proof (induction accts arbitrary: acc w)
  case (Cons a accts)
  obtain x w1 where h: "repo_head sv (acDID a) w = (x, w1)" by fastforce
  consider (skip) w2 where "list_repos sv c limit accts acc w2 = (Inr out, w')"
    | (more) e where "c = '''' \<or> c < reDID e" "reDID e = acDID a" "list_repos sv c limit accts (acc @ [e]) w1 = (Inr out, w')"
    | (full) e where "c = '''' \<or> c < reDID e" "reDID e = acDID a" "out = acc @ [e]"
  proof (cases "c \<noteq> '''' \<and> acDID a \<le> c \<or> (\<exists>f. x = Inl f)")
    case True
    then show thesis using Cons.prems h skip by (auto simp: hbind_def outcome_def split: if_splits)
  next
    case False
    then obtain root where root: "x = Inr root" "c = '''' \<or> c < acDID a" by (cases x) (auto simp: not_le)
    define e where "e = \<lparr>reDID = acDID a, reHead = rrCommitCID root, reRev = rrRev root, reStatus = acStatus a\<rparr>"
    have "(if length (acc @ [e]) = limit then hret (acc @ [e]) else list_repos sv c limit accts (acc @ [e])) w1 = (Inr out, w')"
      unfolding e_def using Cons.prems h root(1) False
      by (simp add: hbind_def outcome_def Let_def del: not_le de_Morgan_conj split del: if_split)
    then show thesis using more [of e] full [of e] root(2) by (auto simp: hret_def e_def split: if_splits)
  qed
  then show ?case
  proof cases
    case skip
    then show ?thesis using Cons.IH [OF skip] by auto
  next
    case (more e)
    then show ?thesis using Cons.IH [OF more(3)] by auto
  next
    case (full e)
    then show ?thesis by auto
  qed
qed simp

lemma list_repos_page:
  assumes "list_repos sv c limit accts [] w = (Inr out, w')"
  shows "subseq (map reDID out) (map acDID accts)" "\<forall>e \<in> set out. c = '''' \<or> c < reDID e"
  using list_repos_out [OF assms] by auto

lemma no_subseq_back:
  assumes "distinct (xs @ a # ys)" "b \<in> set ys" "subseq (us @ [a]) (xs @ a # ys)"
  shows "b \<notin> set us"
proof
  assume "b \<in> set us"
  obtain p q where pq: "xs @ a # ys = p @ q" "subseq us p" "subseq [a] q" using assms(3) list_emb_appendD by metis
  have b: "b \<in> set p" using pq(2) \<open>b \<in> set us\<close> list_emb_set [of "(=)" us p b] by auto
  have "a \<notin> set p" using pq(1,3) assms(1) by (metis disjoint_iff distinct_append subseq_singleton_left)
  then have "set p \<subseteq> set xs" using pq(1) by (auto simp: append_eq_append_conv2 append_eq_Cons_conv Cons_eq_append_conv)
  then show False using b assms(1,2) by auto
qed

section \<open>Pages, as a client sees them\<close>

text \<open>The DIDs a response lists and the cursor it hands out.\<close>

fun view_did :: "data \<Rightarrow> string" where
  "view_did (DMap e) = (case data_string e ''did'' of None \<Rightarrow> '''' | Some did \<Rightarrow> did)"
| "view_did _ = ''''"

definition listed :: "response \<Rightarrow> string list" where
  "listed r = (case rsBody r of
     Json (DMap kvs) \<Rightarrow> (case map_of kvs ''repos'' of Some (DList vs) \<Rightarrow> map view_did vs | _ \<Rightarrow> [])
   | _ \<Rightarrow> [])"

definition next_cursor :: "response \<Rightarrow> string option" where
  "next_cursor r = (case rsBody r of Json (DMap kvs) \<Rightarrow> data_string kvs ''cursor'' | _ \<Rightarrow> None)"

text \<open>The pages a client gets that starts with the cursor \<open>c\<close> and asks with the cursor of each page for the next: a
  query is the server as it is at that moment, the request and the state of the databases.\<close>

type_synonym ('t, 'k) query = "('t, 'k) server \<times> request \<times> world"

definition page :: "('t, 'k) query \<Rightarrow> response" where
  "page q = (case q of (sv, rq, w) \<Rightarrow> fst (handleSyncListRepos sv rq w))"

fun follows :: "string \<Rightarrow> ('t, 'k) query list \<Rightarrow> bool" where
  "follows c [] = True"
| "follows c (q # qs) = (query_get (fst (snd q)) ''cursor'' = c \<and> rsStatus (page q) = 200
     \<and> (case next_cursor (page q) of None \<Rightarrow> qs = [] | Some c' \<Rightarrow> follows c' qs))"

lemma view_entry [simp]: "view_did (entry_view e) = reDID e"
  by (simp add: entry_view_def data_string_def)

lemma refuses_list_repos: "refuses (list_repos sv c limit accts acc)"
proof (induction accts arbitrary: acc)
  case (Cons a accts)
  show ?case unfolding list_repos.simps Let_def by (intro stops_intros Cons)
qed (simp add: stops_intros)

lemma ListAccounts_ok: "ListAccounts d = (Inr accts, d') \<Longrightarrow> accts = sort_key acCreatedAt (accounts d)"
  by (auto simp: ListAccounts_def query_row_def stmt_Inr_iff)

lemma page_list:
  assumes "rsStatus (page (sv, rq, w)) = 200"
  obtains out w1 w2 where
    "list_repos sv (query_get rq ''cursor'') (query_limit rq 500 1000) (sort_key acCreatedAt (accounts (wAcct w))) [] w1 = (Inr out, w2)"
    "listed (page (sv, rq, w)) = map reDID out"
    "next_cursor (page (sv, rq, w)) = (if length out = query_limit rq 500 1000 then Some (reDID (last out)) else None)"
proof -
  obtain r w' where run: "handleSyncListRepos sv rq w = (r, w')" by fastforce
  then have r: "page (sv, rq, w) = r" by (simp add: page_def)
  show thesis
  proof (rule serve_okE [OF run [unfolded handleSyncListRepos_def] assms [unfolded r]], goal_cases)
    case 1
    show ?case unfolding Let_def by (intro stops_intros refuses_list_repos) simp_all
  next
    case 2
    then obtain accts d out w2 where acc: "ListAccounts (wAcct w) = (Inr accts, d)"
      and out: "list_repos sv (query_get rq ''cursor'') (query_limit rq 500 1000) accts [] (w\<lparr>wAcct := d\<rparr>) = (Inr out, w2)"
      and body: "r = writeJSON 200 (DMap ((''repos'', DList (map entry_view out)) #
        (if length out = query_limit rq 500 1000 then [(''cursor'', DStr (reDID (last out)))] else [])))"
      by (auto simp: hbind_Inr_iff Let_def)
    have "listed r = map reDID out" "next_cursor r = (if length out = query_limit rq 500 1000 then Some (reDID (last out)) else None)"
      by (simp_all add: body listed_def next_cursor_def writeJSON_def data_string_def comp_def)
    then show ?case using that out ListAccounts_ok [OF acc] r by simp
  qed
qed

lemma limit_positive: "0 < query_limit rq 500 1000"
  by (auto simp: query_limit_def Let_def split: option.split)

lemma follows_above: "follows c qs \<Longrightarrow> c \<noteq> '''' \<Longrightarrow> q \<in> set qs \<Longrightarrow> did \<in> set (listed (page q)) \<Longrightarrow> c < did"
proof (induction c qs rule: follows.induct)
  case (2 c q0 qs)
  obtain sv rq w where q0: "q0 = (sv, rq, w)" by (cases q0)
  have "rsStatus (page (sv, rq, w)) = 200" "query_get rq ''cursor'' = c" using 2(2) by (simp_all add: q0)
  then obtain out w1 w2 where out: "list_repos sv c (query_limit rq 500 1000) (sort_key acCreatedAt (accounts (wAcct w))) [] w1 = (Inr out, w2)"
    "listed (page q0) = map reDID out"
    "next_cursor (page q0) = (if length out = query_limit rq 500 1000 then Some (reDID (last out)) else None)"
    using page_list [of sv rq w] unfolding q0 by metis
  have above: "\<forall>e \<in> set out. c < reDID e" using list_repos_page(2) [OF out(1)] 2(3) by blast
  show ?case
  proof (cases "q = q0")
    case True
    then show ?thesis using above out(2) 2(5) by auto
  next
    case False
    then have q: "q \<in> set qs" using 2(4) by simp
    then obtain c' where c': "next_cursor (page q0) = Some c'" "follows c' qs" using 2(2) by (auto split: option.splits)
    then have "out \<noteq> []" "c' = reDID (last out)" using out(3) limit_positive [of rq] by (auto split: if_splits)
    then have "c < c'" using above by simp
    moreover have "c' \<noteq> ''''" using \<open>c < c'\<close> by auto
    ultimately show ?thesis using 2(1) [OF c'(1) c'(2) _ q 2(5)] by simp
  qed
qed simp

lemma sorted_split:
  assumes "a \<in> set accts" "b \<in> set accts" "acCreatedAt a < acCreatedAt b"
  obtains xs ys where "sort_key acCreatedAt accts = xs @ a # ys" "b \<in> set ys"
proof -
  obtain xs ys where s: "sort_key acCreatedAt accts = xs @ a # ys" using assms(1) by (metis set_sort split_list)
  have "sorted (map acCreatedAt (xs @ a # ys))" using s sorted_sort_key [of acCreatedAt accts] by simp
  then have "b \<notin> set xs" using assms(3) by (fastforce simp: sorted_append)
  moreover have "b \<in> set (xs @ a # ys)" using assms(2) by (metis s set_sort)
  ultimately have "b \<in> set ys" using assms(3) by auto
  then show thesis using that s by blast
qed

text \<open>C37. \<^verbatim>\<open>listRepos\<close> loses repositories. A client asks for the first page of the accounts and then follows the
  cursors. If the first page ends at account \<open>a\<close>, then an account that was created after \<open>a\<close> but whose DID does not
  come after that of \<open>a\<close> is on none of the pages, however many there are, whatever limits the client asks for and
  whatever happens to the server in between, for the handler lists accounts in the order of their creation and
  skips those whose DID is not greater than the cursor.\<close>

theorem list_repos_skips:
  assumes "distinct (map acDID (accounts (wAcct w)))" "a \<in> set (accounts (wAcct w))" "b \<in> set (accounts (wAcct w))"
    and "acCreatedAt a < acCreatedAt b" "acDID b \<le> acDID a" "acDID a \<noteq> ''''"
    and "follows '''' ((sv, rq, w) # qs)" "next_cursor (page (sv, rq, w)) = Some (acDID a)" "q \<in> set ((sv, rq, w) # qs)"
  shows "acDID b \<notin> set (listed (page q))"
proof (cases "q = (sv, rq, w)")
  case True
  have "rsStatus (page (sv, rq, w)) = 200" using assms(7) by simp
  then obtain out w1 w2 where out: "list_repos sv (query_get rq ''cursor'') (query_limit rq 500 1000)
      (sort_key acCreatedAt (accounts (wAcct w))) [] w1 = (Inr out, w2)" "listed (page (sv, rq, w)) = map reDID out"
    "next_cursor (page (sv, rq, w)) = (if length out = query_limit rq 500 1000 then Some (reDID (last out)) else None)"
    using page_list by metis
  obtain xs ys where s: "sort_key acCreatedAt (accounts (wAcct w)) = xs @ a # ys" "b \<in> set ys"
    using sorted_split [OF assms(2-4)] by metis
  have d: "distinct (map acDID (xs @ a # ys))"
    using assms(1) distinct_map [of acDID "sort_key acCreatedAt (accounts (wAcct w))"]
    by (simp add: distinct_map flip: s(1))
  have l: "out \<noteq> []" "reDID (last out) = acDID a" using out(3) assms(8) limit_positive [of rq] by (auto split: if_splits)
  then have o: "map reDID out = map reDID (butlast out) @ [acDID a]" by (metis append_butlast_last_id list.simps(8,9) map_append)
  then have "subseq (map reDID (butlast out) @ [acDID a]) (map acDID xs @ acDID a # map acDID ys)"
    using list_repos_page(1) [OF out(1)] s(1) by simp
  then have "acDID b \<notin> set (map reDID (butlast out))"
    using d s(2) no_subseq_back [of "map acDID xs" "acDID a" "map acDID ys" "acDID b" "map reDID (butlast out)"] by simp
  moreover have "acDID b \<noteq> acDID a" using d s(2) by (auto simp: image_iff)
  ultimately show ?thesis using True out(2) o by auto
next
  case False
  then have "q \<in> set qs" "follows (acDID a) qs" using assms(7-9) by auto
  then show ?thesis using follows_above [of "acDID a" qs q "acDID b"] assms(5,6) by force
qed

section \<open>Two accounts on the example server\<close>

text \<open>Two accounts with a repository each; the second was created a second later and its DID is smaller.\<close>

definition late_user :: account where
  "late_user = demo_user\<lparr>acDID := ''did:plc:0'', acCreatedAt := acCreatedAt demo_user + 1000000000\<rparr>"

definition two_repos :: world where
  "two_repos = demo_home\<lparr>wAcct := (wAcct demo_home)\<lparr>accounts := [demo_user, late_user]\<rparr>,
     wMgr := \<lparr>tape = [], disk = (\<lambda>_. Some ((empty_actordb [])\<lparr>repo_root := Some \<lparr>rrCommitCID = ''c'', rrRev = ''r''\<rparr>\<rparr>)),
     fresh = (\<lambda>_. []), blob_dirs = [], cached = [''did:plc:a'', ''did:plc:0''], locks = []\<rparr>\<rparr>"

definition first_page :: request where
  "first_page = demo_request\<lparr>rqQuery := [(''limit'', ''1'')]\<rparr>"

definition second_page :: request where
  "second_page = demo_request\<lparr>rqQuery := [(''cursor'', ''did:plc:a'')]\<rparr>"

lemma two_pages:
  "rsStatus (page (demo_server, first_page, two_repos)) = 200" "next_cursor (page (demo_server, first_page, two_repos)) = Some ''did:plc:a''"
  "rsStatus (page (demo_server, second_page, two_repos)) = 200" "next_cursor (page (demo_server, second_page, two_repos)) = None"
  "query_get first_page ''cursor'' = ''''" "query_get second_page ''cursor'' = ''did:plc:a''"
  by code_simp+

text \<open>Both have a repository, but the two pages list only one.\<close>

theorem list_repos_skips_witness:
  "(case fst (repo_head demo_server ''did:plc:0'' two_repos) of Inl e \<Rightarrow> False | Inr root \<Rightarrow> True)
     \<and> ''did:plc:0'' \<notin> set (listed (page (demo_server, first_page, two_repos)))
     \<and> ''did:plc:0'' \<notin> set (listed (page (demo_server, second_page, two_repos)))"
proof -
  let ?qs = "[(demo_server, second_page, two_repos)]"
  have acc: "accounts (wAcct two_repos) = [demo_user, late_user]" by (simp add: two_repos_def)
  have late: "acDID late_user = ''did:plc:0''" "acCreatedAt demo_user < acCreatedAt late_user" by (simp_all add: late_user_def)
  have "follows '''' ((demo_server, first_page, two_repos) # ?qs)" by (simp add: two_pages)
  then have "acDID late_user \<notin> set (listed (page q))" if "q \<in> set ((demo_server, first_page, two_repos) # ?qs)" for q
    using list_repos_skips [of two_repos demo_user late_user demo_server first_page ?qs q] that acc late two_pages(2) by simp
  moreover have "case fst (repo_head demo_server ''did:plc:0'' two_repos) of Inl e \<Rightarrow> False | Inr root \<Rightarrow> True" by code_simp
  ultimately show ?thesis using late(1) by simp
qed

end
