(* ===== verification/PrivateSpec.thy ===== *)
theory PrivateSpec
  imports ServerSpec
begin

text \<open>
  Private preferences come back as they were put, and a service-auth token is for the caller, for a
  service that was named and for at most ten minutes.
\<close>

section \<open>Preferences\<close>

lemma put_preferences_ok:
  assumes "handlePutPreferences sv rq w = (r, w')" "rsStatus r = 200"
  obtains did v d where "token_of sv rq did" "Option.bind (decodeJSON (svJson sv) rq) read_preferences = Some v"
    "disk (wMgr w') did = Some d" "preferences d = Some (svJsonText sv v)"
proof -
  have "refuses (hbind (requireMigratableAccessToken sv rq) (\<lambda>did.
      hbind (decode_body (svJson sv) rq read_preferences (InvalidRequest ''preferences is required'')) (\<lambda>prefs.
      hbind (attempt (actors_Get sv did) (\<lambda>_. open_failed)) (\<lambda>_.
      hbind (attempt (actor_op did (SetPreferences (svJsonText sv prefs)))
        (\<lambda>_. InternalServerError ''failed to store preferences'')) (\<lambda>_. hret empty_object)))))"
    by (intro stops_intros; simp)
  from serve_ok [OF assms(1) [unfolded handlePutPreferences_def] assms(2) this]
  show thesis
    by (auto simp: hbind_Inr_iff actor_op_Inr SetPreferences_def stmt_Inr_iff dest!: require_caller(4) intro!: that)
qed

lemma get_preferences_ok:
  assumes "handleGetPreferences sv rq w = (r, w')" "rsStatus r = 200"
    and "token_of sv rq did" "disk (wMgr w) did = Some d" "preferences d = Some text" "svJsonValue sv text = Some v"
  shows "rsBody r = Json (DMap [(''preferences'', v)])"
proof -
  have "refuses (hbind (requireAccessToken sv rq) (\<lambda>did.
      hbind (attempt (actors_Get sv did) (\<lambda>_. open_failed)) (\<lambda>_.
      hbind (outcome (actor_op did GetPreferences)) (\<lambda>r. case r of
        Inr raw \<Rightarrow> hret (preferences_view sv raw)
      | Inl e \<Rightarrow> if e = ActorErrNotFound then hret (writeJSON 200 (DMap [(''preferences'', DList [])]))
          else hstop (InternalServerError ''failed to load preferences'')))))"
    by (intro stops_intros; simp)
  from serve_ok [OF assms(1) [unfolded handleGetPreferences_def] assms(2) this]
  obtain did' w1 u w2 x w3 where a: "requireAccessToken sv rq w = (Inr did', w1)" "actors_Get sv did' w1 = (Inr u, w2)"
    "actor_op did' GetPreferences w2 = (x, w3)"
    "(case x of Inr raw \<Rightarrow> hret (preferences_view sv raw)
      | Inl e \<Rightarrow> if e = ActorErrNotFound then hret (writeJSON 200 (DMap [(''preferences'', DList [])]))
          else hstop (InternalServerError ''failed to load preferences'')) w3 = (Inr r, w')"
    by (auto simp: hbind_Inr_iff)
  have same: "same_tables w w1" "did' = did" using require_caller(1) [OF a(1)] token_of_unique assms(3) by blast+
  then have "disk (wMgr w2) did = Some d"
    using actors_Get_keeps(4) [OF a(2)] assms(4) by (auto simp: same_tables_def)
  then have "x = Inr text \<or> (\<exists>m e. x = Inl (Wrapf m e))"
    using a(3) assms(5) same(2)
    by (auto simp: actor_op_def on_actor_def GetPreferences_def query_row_def stmt_def Let_def split: if_splits prod.splits)
  then show ?thesis using a(4) assms(6) by (auto simp: preferences_view_def writeJSON_def)
qed

text \<open>C38. Preferences come back: after a successful put, whatever requests of others follow, a get that
  the account makes and that succeeds returns exactly the value that was put. The JSON encoder is
  assumed to be able to read back what it wrote.\<close>

theorem preferences_roundtrip:
  assumes "handlePutPreferences sv rq (snd s) = (r, w1)" "rsStatus r = 200"
    and "Option.bind (decodeJSON (svJson sv) rq) read_preferences = Some v"
    and "token_of sv rq (acDID a)" "acct_lookup (accounts (wAcct w1)) (acDID a) = Some a"
    and "only_subscribes subscribe" "\<forall>e \<in> set es. outsider a (fst (snd (snd e))) (snd (snd (snd e)))"
    and "token_of sv' rq' (acDID a)" "svJsonValue sv' (svJsonText sv v) = Some v"
    and "handleGetPreferences sv' rq' (snd (serve_all rl subscribe es (fst s, w1))) = (r', w')" "rsStatus r' = 200"
  shows "rsBody r' = Json (DMap [(''preferences'', v)])"
proof -
  obtain d where d: "disk (wMgr w1) (acDID a) = Some d" "preferences d = Some (svJsonText sv v)"
    using put_preferences_ok [OF assms(1,2)] assms(3,4) token_of_unique by (metis option.inject)
  obtain t where "disk (wMgr (snd (serve_all rl subscribe es (fst s, w1)))) (acDID a) = Some (d\<lparr>tape := t\<rparr>)"
    using outsiders_leave [OF assms(6,7), of "(fst s, w1)" rl] assms(5) d(1)
    by (auto simp: world_ok_def stores_ok_def store_fixed_def)
  then show ?thesis using get_preferences_ok [OF assms(10,11,8)] d(2) assms(9) by simp
qed

definition demo_prefs :: data where "demo_prefs = DMap [(''preferences'', DList [])]"

lemma read_demo_prefs: "read_preferences demo_prefs = Some (DList [])"
  by code_simp

lemma demo_put: "handlePutPreferences (demo_server\<lparr>svJson := demo_json demo_prefs\<rparr>) (demo_post ''access'') demo_home
  = (empty_object, demo_opened ((empty_actordb [])\<lparr>preferences := Some ''[]''\<rparr>))"
  by (simp add: handlePutPreferences_def requireMigratableAccessToken_def handler_simps demo_principal demo_open read_demo_prefs
     demo_opened_op SetPreferences_def exec_simps empty_actordb_def)

lemma demo_get: "rsStatus (fst (handleGetPreferences demo_server (demo_post ''access'') (demo_opened ((empty_actordb [])\<lparr>preferences := Some ''[]''\<rparr>)))) = 200"
  using demo_principal_opened [of "svJson demo_server"] demo_reopen [of "svJson demo_server"]
  by (simp add: handleGetPreferences_def requireAccessToken_def handler_simps 
     demo_opened_op GetPreferences_def exec_simps empty_actordb_def preferences_view_def query_row_def)

theorem preferences_roundtrip_witness:
  "rsBody (fst (handleGetPreferences demo_server (demo_post ''access'')
     (snd (handlePutPreferences (demo_server\<lparr>svJson := demo_json demo_prefs\<rparr>) (demo_post ''access'') demo_home))))
   = Json (DMap [(''preferences'', DList [])])"
proof -
  have tok: "token_of (demo_server\<lparr>svJson := j\<rparr>) (demo_post ''access'') ''did:plc:a''" for j
    by (simp add: token_of_def bearerToken_def demo_parse has_prefix_def trim_prefix_def)
  obtain r' w' where get: "handleGetPreferences demo_server (demo_post ''access'')
      (demo_opened ((empty_actordb [])\<lparr>preferences := Some ''[]''\<rparr>)) = (r', w')" by fastforce
  show ?thesis
    using preferences_roundtrip [where s = "(newIPRateLimiter 0, demo_home)" and es = "[]" and a = demo_user
        and subscribe = demo_subscribe and rl = login_bucket and v = "DList []", simplified, OF demo_put _ _ tok _ demo_subscribes tok [of "svJson demo_server", simplified] _ get]
     read_demo_prefs demo_get get
    by (simp add: empty_object_def acct_lookup_def demo_put demo_opened_def)
qed

section \<open>Service auth\<close>

lemma time_until_exact:
  assumes sec: "- (2 ^ 63) \<le> sec" "sec < 2 ^ 63" and now: "0 \<le> now"
    and ttl: "0 < time_until_unix now sec" "time_until_unix now sec \<le> maxServiceAuthTTL"
  shows "time_until_unix now sec = sec * 1000000000 - now"
proof -
  let ?k = "sec + unix_offset"
  have w: "sint (word_of_int ?k :: 64 word) = signed_take_bit 63 ?k"
    by (simp add: signed_of_int del: of_int_add)
  have pos: "0 < (signed_take_bit 63 ?k - unix_offset) * 1000000000 - now"
    using ttl(1) by (simp add: time_until_unix_def w [simplified] Let_def split: if_splits)
  have "?k < 2 ^ 63"
  proof (rule ccontr)
    assume "\<not> ?k < 2 ^ 63"
    then have "signed_take_bit 63 ?k \<le> ?k - 2 ^ 64" using signed_take_bit_int_less_eq [of 63 ?k] by simp
    then show False using pos sec(2) now by (simp add: unix_offset_def)
  qed
  then have "signed_take_bit 63 ?k = ?k"
    using sec(1) by (intro signed_take_bit_int_eq_self) (simp_all add: unix_offset_def)
  then show ?thesis
    using ttl by (simp add: time_until_unix_def w [simplified] Let_def maxServiceAuthTTL_def nanos_def)
qed

lemma ParseInt_range: "ParseInt t = Some v \<Longrightarrow> - (2 ^ 63) \<le> v \<and> v < 2 ^ 63"
  by (auto simp: ParseInt_def parse_digits_def int64_def split: list.splits if_splits)

lemma service_auth_ttl_ok:
  assumes "service_auth_ttl now e = Inr ttl" "0 \<le> now"
  shows "0 < ttl \<and> ttl \<le> maxServiceAuthTTL
    \<and> (if e = '''' then ttl = defaultServiceAuthTTL else map_option (\<lambda>sec. sec * 1000000000) (ParseInt e) = Some (now + ttl))"
  using assms time_until_exact ParseInt_range
  by (fastforce simp: service_auth_ttl_def Let_def defaultServiceAuthTTL_def maxServiceAuthTTL_def nanos_def
      split: if_splits option.splits)

text \<open>C39. A service-auth token is narrow: a successful answer carries exactly the token that was signed with
  the caller's own key, for the caller and the audience of the request, and it lives longer than nothing
  and at most ten minutes: one minute unless the request names an instant, and then exactly until it.\<close>

theorem service_auth_bounded:
  assumes "handleGetServiceAuth sv rq w = (r, w')" "rsStatus r = 200" "0 \<le> svNow sv 1"
  shows "\<exists>did a key ttl lxm token. token_of sv rq did \<and> acct_lookup (accounts (wAcct w)) did = Some a
    \<and> svParseKey sv (acSigningKey a) = Inr key \<and> svServiceAuth sv did (query_get rq ''aud'') ttl lxm key = Inr token
    \<and> rsBody r = Json (DMap [(''token'', DStr token)])
    \<and> 0 < ttl \<and> ttl \<le> 600 * 1000000000
    \<and> (if query_get rq ''exp'' = '''' then ttl = 60 * 1000000000
       else map_option (\<lambda>sec. sec * 1000000000) (ParseInt (query_get rq ''exp'')) = Some (svNow sv 1 + ttl))"
proof -
  have lx: "lex_method sv l = Inl x \<Longrightarrow> rsStatus x = 400" for l x by (auto simp: lex_method_def split: if_splits sum.splits)
  have tt: "service_auth_ttl n e = Inl x \<Longrightarrow> rsStatus x = 400" for n e x
    by (auto simp: service_auth_ttl_def Let_def split: if_splits option.splits)
  obtain did w1 ttl lxm key w2 token where g: "requirePrivilegedAccessToken sv rq w = (Inr did, w1)"
    "service_auth_ttl (svNow sv 1) (query_get rq ''exp'') = Inr ttl" "signingKeyFor sv did w1 = (Inr key, w2)"
    "svServiceAuth sv did (query_get rq ''aud'') ttl lxm key = Inr token"
    "r = writeJSON 200 (DMap [(''token'', DStr token)])"
    using assms(1) unfolding handleGetServiceAuth_def Let_def
  proof (rule serve_okE [OF _ assms(2)], goal_cases)
    case 1
    show ?case by (intro stops_intros; auto dest: lx tt)
  next
    case 2
    then show ?case by (auto simp: hbind_Inr_iff)
  qed
  note c = require_caller(2) [OF g(1)]
  obtain a where "acct_lookup (accounts (wAcct w)) did = Some a" "svParseKey sv (acSigningKey a) = Inr key"
    using g(3) c by (auto simp: signingKeyFor_def gobind_Inr_iff same_tables_def dest!: GetAccountByDID_ok)
  then show ?thesis
    using c g(4,5) service_auth_ttl_ok [OF g(2) assms(3)]
    by (intro exI [of _ did] exI [of _ a] exI [of _ key] exI [of _ ttl] exI [of _ lxm] exI [of _ token])
       (simp add: writeJSON_def maxServiceAuthTTL_def defaultServiceAuthTTL_def nanos_def)
qed

theorem service_auth_bounded_witness:
  "\<exists>ttl :: int. 0 < ttl \<and> ttl \<le> 600 * 1000000000
    \<and> rsBody (fst (handleGetServiceAuth demo_server ((demo_post ''access'')\<lparr>rqQuery := [(''aud'', ''did:plc:a'')]\<rparr>) demo_home))
      = Json (DMap [(''token'', DStr ''service-token'')])"
proof -
  let ?rq = "(demo_post ''access'')\<lparr>rqQuery := [(''aud'', ''did:plc:a'')]\<rparr>"
  have p: "requirePrincipal demo_server ?rq priv ad demo_home = requirePrincipal demo_server (demo_post ''access'') priv ad demo_home" for priv ad
    by (simp add: requirePrincipal_def bearer_def bearerToken_def header_get_def first_value_def demo_post_def)
  have q: "query_get ?rq ''aud'' = ''did:plc:a''" "query_get ?rq ''exp'' = ''''" "query_get ?rq ''lxm'' = ''''"
    by (simp_all add: query_get_def first_value_def)
  obtain r w' where run: "handleGetServiceAuth demo_server ?rq demo_home = (r, w')" by fastforce
  moreover have "rsStatus (fst (handleGetServiceAuth demo_server ?rq demo_home)) = 200"
    using demo_principal [of "svJson demo_server" True]
    by (simp add: handleGetServiceAuth_def requirePrivilegedAccessToken_def handler_simps p q demo_parse_did_def service_auth_ttl_def
      lex_method_def signingKeyFor_def exec_simps GetAccountByDID_def scanAccount_def has_prefix_def liftE_def)
  ultimately show ?thesis using service_auth_bounded [OF run] by auto
qed
end
