(* ===== verification/MigrationSpec.thy ===== *)
theory MigrationSpec
  imports HandlerSpec
begin

text \<open>
  What moving an account promises: an import replaces the repository as a whole by one that is signed for
  the caller or leaves it alone, and an account ends only by its owner's password and a one-time token.
\<close>

section \<open>Runs of a handler\<close>

lemma serve_hbind: "serve (hbind m k) s = (r, s') \<longleftrightarrow>
    m s = (Inl r, s') \<or> (\<exists>x s1. m s = (Inr x, s1) \<and> serve (k x) s1 = (r, s'))"
proof (cases "m s")
  case (Pair x s1)
  then show ?thesis by (cases x) (auto simp: serve_def hbind_def)
qed

lemma serve_hret [simp]: "serve (hret x) s = (x, s)"
  by (simp add: serve_def)

lemma guard_Inl_iff [simp]: "guard b x s = (Inl r, s') \<longleftrightarrow> \<not> b \<and> r = x \<and> s' = s"
  by (auto simp: guard_def)

section \<open>The steps of an import\<close>

lemma ClearRepo_ok:
  "ClearRepo d = (Inr (), d') \<Longrightarrow> blocks d' = [] \<and> (\<forall>k. index d' k = None) \<and> (\<forall>k. refs d' k = {})
     \<and> preferences d' = preferences d \<and> blob_files d' = blob_files d"
  by (auto simp: ClearRepo_def gobind_Inr_iff exec_delete_def stmt_Inr_iff sql_delete_def index_def refs_def)

lemma import_blocks_run:
  "import_blocks c bs err acc d = (Inr b, d') \<Longrightarrow> set (blocks d') \<subseteq> set (blocks d) \<union> set bs
     \<and> index d' = index d \<and> refs d' = refs d \<and> untouched d d'
     \<and> (\<forall>x. b = Some x \<longrightarrow> acc = Some x \<or> (c, x) \<in> set bs)"
proof (induction bs arbitrary: acc d)
  case Nil
  then show ?case by (auto split: if_splits)
next
  case (Cons x bs)
  then obtain d1 where 1: "bs_Put x d = (Inr (), d1)"
    and 2: "import_blocks c bs err (if fst x = c then Some (snd x) else acc) d1 = (Inr b, d')"
    by (auto simp: hbind_Inr_iff)
  have "set (blocks d1) \<subseteq> insert x (set (blocks d))" using bs_Put_blocks [OF 1] .
  then show ?case
    using Cons.IH [OF 2] bs_Put_frame [OF 1] untouched_trans [of d d1 d'] by (cases x) (auto split: if_splits)
qed

lemma check_commit_run:
  "check_commit sv did cb d = (Inr c, d') \<Longrightarrow> d' = d \<and> (\<exists>b parsed key. cb = Some b \<and> unmarshal_commit (svLib sv) b = Inr c
     \<and> coDID c = did \<and> svParseDid sv did = Inr parsed \<and> svLookupKey sv parsed = Inr (Inr key) \<and> svVerifySig sv key c = Inr ())"
  by (auto simp: check_commit_def hbind_Inr_iff split: option.splits)

lemma walk_entry_run:
  assumes "walk_entry lib (key, val) d = (Inr (), d')"
  obtains coll rkey r where "cut (CHR ''/'') key = (coll, rkey, True)" "index d' = (index d)((coll, rkey) \<mapsto> val)"
    "blocks d' = blocks d" "untouched d d'"
proof -
  obtain coll rkey ok where c: "cut (CHR ''/'') key = (coll, rkey, ok)" by (cases "cut (CHR ''/'') key") auto
  have ok: ok using assms by (auto simp: walk_entry_def c split: if_splits)
  obtain d1 d2 b r where 1: "PutRecordIndex coll rkey val d = (Inr (), d1)" "bs_Get val d1 = (Inr b, d2)"
    "goeach (put_blob coll rkey) (extract_blobs lib r) d2 = (Inr (), d')"
    using assms by (auto simp: walk_entry_def c ok gobind_Inr_iff)
  obtain t where d2: "d2 = d1\<lparr>tape := t\<rparr>" using readsD [OF reads_bs_Get 1(2)] by blast
  show thesis
    using put_index_ok [OF 1(1)] put_blobs_ok [OF 1(3)] c ok
    by (intro that) (auto simp: d2 untouched_def index_def)
qed

lemma importWalk_run:
  "goeach (walk_entry lib) es d = (Inr (), d') \<Longrightarrow>
     blocks d' = blocks d \<and> untouched d d'
     \<and> (\<forall>coll k. CHR ''/'' \<notin> set coll \<longrightarrow> index d' (coll, k) =
          (case map_of (rev es) (rec_path coll k) of None \<Rightarrow> index d (coll, k) | Some c \<Rightarrow> Some c))"
proof (induction es arbitrary: d)
  case Nil
  then show ?case by simp
next
  case (Cons e es)
  obtain key val where e: "e = (key, val)" by (cases e)
  obtain d1 where 1: "walk_entry lib (key, val) d = (Inr (), d1)" "goeach (walk_entry lib) es d1 = (Inr (), d')"
    using Cons.prems e by (auto simp: gobind_Inr_iff)
  obtain coll rkey where c: "cut (CHR ''/'') key = (coll, rkey, True)" "index d1 = (index d)((coll, rkey) \<mapsto> val)"
    "blocks d1 = blocks d" "untouched d d1"
    using walk_entry_run [OF 1(1)] by metis
  have key: "key = rec_path coll rkey" "CHR ''/'' \<notin> set coll" using cut_True [OF c(1)] by (simp_all add: rec_path_def)
  then have "index d1 (coll', k) = (if rec_path coll' k = key then Some val else index d (coll', k))"
    if "CHR ''/'' \<notin> set coll'" for coll' k
    using that c(2) rec_path_inj [of coll' coll k rkey] by auto
  then show ?case
    using Cons.IH [OF 1(2)] c(3,4) untouched_trans [of d d1 d']
    by (auto simp: e map_add_def split: option.split)
qed

text \<open>The repository of the store comes from the CAR file: its blocks, its commit as the root, signed for
  \<open>did\<close> with the key that the DID has now, and an index that lists exactly the entries of its tree.\<close>

definition imported :: "('t, 'k) server \<Rightarrow> string \<Rightarrow> car_file \<Rightarrow> actordb \<Rightarrow> bool" where
  "imported sv did cr d \<longleftrightarrow> (\<exists>commitCID b c parsed key looked tree.
     commitCID = hd (cfRoots cr) \<and> (commitCID, b) \<in> set (cfBlocks cr) \<and> unmarshal_commit (svLib sv) b = Inr c
     \<and> repo_root d = Some \<lparr>rrCommitCID = commitCID, rrRev = coRev c\<rparr> \<and> coDID c = did
     \<and> svParseDid sv did = Inr parsed \<and> svLookupKey sv parsed = Inr (Inr key) \<and> svVerifySig sv key c = Inr ()
     \<and> set (blocks d) \<subseteq> set (cfBlocks cr) \<and> block_look d = looked
     \<and> mst_load (svLib sv) looked (coData c) = Inr tree
     \<and> (\<forall>coll k. CHR ''/'' \<notin> set coll \<longrightarrow> index d (coll, k) = map_of (rev (mst_entries (svLib sv) tree)) (rec_path coll k)))"

lemma import_body_run:
  assumes "import_body sv did commitCID cr d = (Inr c, d')" "commitCID = hd (cfRoots cr)"
  shows "imported sv did cr d' \<and> preferences d' = preferences d \<and> blob_files d' = blob_files d"
proof -
  obtain d1 cb d2 d3 tree d4 d5 where
    1: "ClearRepo d = (Inr (), d1)" and
    2: "import_blocks commitCID (cfBlocks cr) (cfEnd cr) None d1 = (Inr cb, d2)" and
    3: "check_commit sv did cb d2 = (Inr c, d3)" and
    4: "load_mst (svLib sv) (coData c) d3 = (Inr tree, d4)" and
    5: "importWalk (svLib sv) tree d4 = (Inr (), d5)" and
    6: "SetRepoRoot commitCID (coRev c) d5 = (Inr (), d')"
    using assms(1) by (auto simp: import_body_def hbind_Inr_iff)
  note r1 = ClearRepo_ok [OF 1] and r2 = import_blocks_run [OF 2] and r3 = check_commit_run [OF 3]
  obtain t where d4: "d4 = d3\<lparr>tape := t\<rparr>" and load: "mst_load (svLib sv) (block_look d3) (coData c) = Inr tree"
    using 4 by (auto simp: load_mst_def gobind_Inr_iff query_row_def stmt_Inr_iff liftE_def block_look_def split: sum.splits)
  note r5 = importWalk_run [OF 5 [unfolded importWalk_def]]
  have d': "repo_root d' = Some \<lparr>rrCommitCID = commitCID, rrRev = coRev c\<rparr>" "blocks d' = blocks d5" "index d' = index d5"
      "preferences d' = preferences d5" "blob_files d' = blob_files d5"
    using 6 by (auto simp: SetRepoRoot_def stmt_Inr_iff index_def)
  have look: "block_look d' = block_look d3" using d' r5 by (simp add: block_look_def d4)
  have idx: "index d' (coll, k) = map_of (rev (mst_entries (svLib sv) tree)) (rec_path coll k)" if "CHR ''/'' \<notin> set coll" for coll k
    using that r5 r1 r2 r3 d'(3) by (simp add: d4 index_def split: option.split)
  have keep: "preferences d' = preferences d \<and> blob_files d' = blob_files d"
    using d' r5 r3 r2 r1 by (simp add: d4 untouched_def)
  obtain b parsed key where "cb = Some b" "unmarshal_commit (svLib sv) b = Inr c" "coDID c = did"
    "svParseDid sv did = Inr parsed" "svLookupKey sv parsed = Inr (Inr key)" "svVerifySig sv key c = Inr ()"
    using r3 by blast
  then show ?thesis
    unfolding imported_def using d' r5 r3 r2 r1 look load idx keep assms(2) by (fastforce simp: d4)
qed

lemma tx_steps_run:
  "tx_steps b e m d = (Inr x, d') \<Longrightarrow> \<exists>t t' d2. m (d\<lparr>tape := t\<rparr>) = (Inr x, d2) \<and> d' = d2\<lparr>tape := t'\<rparr>"
  "tx_steps b e m d = (Inl r, d') \<Longrightarrow> \<exists>t. d' = d\<lparr>tape := t\<rparr>"
  by (auto simp: tx_steps_def stmt_def Let_def split: prod.splits sum.splits if_splits)

lemma imported_tape [simp]: "imported sv did cr (d\<lparr>tape := t\<rparr>) = imported sv did cr d"
  by (simp add: imported_def index_def)

lemma actor_steps_run:
  "actor_steps did m w = (x, w') \<Longrightarrow> disk (wMgr w) did = Some d \<Longrightarrow>
     \<exists>d'. m d = (x, d') \<and> w' = w\<lparr>wMgr := (wMgr w)\<lparr>disk := (disk (wMgr w))(did \<mapsto> d')\<rparr>\<rparr>"
  by (auto simp: actor_steps_def split: prod.splits)

text \<open>What a store holds, apart from the pending faults, through the steps around an import.\<close>

definition holds :: "string \<Rightarrow> actordb \<Rightarrow> world \<Rightarrow> bool" where
  "holds did d w \<longleftrightarrow> (\<exists>t. disk (wMgr w) did = Some (d\<lparr>tape := t\<rparr>))"

lemma holds_Get: "preserves (holds did d) (actors_Get sv did')"
  by (intro preservesI) (auto simp: holds_def dest: actors_Get_keeps(4))

lemma holds_read: "reads m \<Longrightarrow> preserves (holds did d) (actor_op did' m)"
proof (rule preservesI)
  fix w r w' assume m: "reads m" and h: "holds did d w" and run: "actor_op did' m w = (r, w')"
  have "\<exists>t. x = d\<lparr>tape := t\<rparr>" if "m (d\<lparr>tape := u\<rparr>) = (y, x)" for x y u using readsD [OF m that] by auto
  then show "holds did d w'"
    using h run by (auto simp: holds_def actor_op_def on_actor_def split: option.splits prod.splits)
qed

lemma holds_seq: "preserves (holds did d) (append_event sv now did' e)"
  unfolding append_event_def by (intro preservesI) (auto simp: holds_def gobind_def split: prod.splits sum.splits)

lemma holds_sync: "preserves (holds did d) (emitSyncEvent sv now did' c rv)"
  unfolding emitSyncEvent_def
  by (intro preserves_gobind preserves_case_prod preserves_case_option preserves_gofail holds_Get holds_seq
      holds_read reads_bs_Get)

lemma holds_principal: "keeps (holds did d) (requirePrincipal sv rq p a)"
proof -
  have "holds did d w \<Longrightarrow> same_tables w w' \<Longrightarrow> holds did d w'" for w w' by (auto simp: holds_def same_tables_def)
  moreover have "same_tables w (snd (requirePrincipal sv rq p a w))" for w
    using requirePrincipal_untouched [of w sv rq p a] by (simp add: keeps_def)
  ultimately show ?thesis by (auto simp: keeps_def)
qed

lemma stops_import_blocks: "refuses (import_blocks c bs err acc)"
proof (induction bs arbitrary: acc)
  case (Cons b bs)
  show ?case unfolding import_blocks.simps by (intro stops_intros Cons; simp)
qed (auto intro: stops_intros)

lemma stops_import: "refuses (tx_steps (InternalServerError b) (InternalServerError e) (import_body sv did c cr))"
proof -
  have "refuses (import_body sv did c cr)"
    unfolding import_body_def check_commit_def by (intro stops_intros stops_import_blocks; simp)
  then show ?thesis
    by (auto simp: stops_with_def tx_steps_def split: prod.splits sum.splits)
qed

lemma import_cases:
  assumes "handleImportRepo sv rq w = (r, w')" "disk (wMgr w) did = Some d" "token_of sv rq did"
  shows "(\<exists>t. disk (wMgr w') did = Some (d\<lparr>tape := t\<rparr>)) \<and> rsStatus r \<noteq> 200
    \<or> (\<exists>d' cr. disk (wMgr w') did = Some d' \<and> svCar sv (rqBody rq) = Inr cr \<and> imported sv did cr d'
        \<and> preferences d' = preferences d \<and> blob_files d' = blob_files d)"
proof -
  have h0: "holds did d w" using assms(2) by (auto simp: holds_def)
  consider
      (stopped) w1 where "holds did d w1" "rsStatus r \<noteq> 200" "w' = w1"
    | (ran) carBytes cr w1 x w2 where
        "read_body sv rq (maxImportSize + 1) = Inr carBytes" "length carBytes \<le> maxImportSize" "svCar sv carBytes = Inr cr"
        "holds did d w1"
        "actor_steps did (tx_steps (InternalServerError ''failed to begin import'')
          (InternalServerError ''failed to commit import'') (import_body sv did (hd (cfRoots cr)) cr)) w1 = (x, w2)"
        "case x of Inl y \<Rightarrow> r = y \<and> w' = w2
         | Inr c \<Rightarrow> serve (hbind (attempt (emitSyncEvent sv (svNow sv 1) did (hd (cfRoots cr)) (coRev c))
             (\<lambda>_. InternalServerError ''failed to sequence sync event'')) (\<lambda>_. hret empty_object)) w2 = (r, w')"
  proof -
    obtain x w1 where q: "requireMigrationAccessToken sv rq w = (x, w1)" by fastforce
    have k: "keeps (holds did d) (requireMigrationAccessToken sv rq)"
      unfolding requireMigrationAccessToken_def by (intro keeps_intros holds_principal)
    have h1: "holds did d w1" using keepsE [OF k q h0] .
    have st: "stops_with (- {200}) (requireMigrationAccessToken sv rq)" by (intro stops_intros; simp)
    show thesis
    proof (cases x)
      case (Inl y)
      then have "r = y" "w' = w1" using assms(1) q by (auto simp: handleImportRepo_def serve_hbind)
      then show thesis using stopped h1 st q Inl by (auto simp: stops_with_def)
    next
      case (Inr did')
      then have [simp]: "did' = did" using require_caller(3) q token_of_unique assms(3) by blast
      obtain g w2 where g: "actors_Get sv did w1 = (g, w2)" by fastforce
      have "holds did d w2" using preservesE [OF holds_Get g h1] .
      then show thesis
        using assms(1) q g Inr h1 ran stopped
        by (auto simp: handleImportRepo_def serve_hbind Let_def attempt_pure_Inl_iff attempt_Inl_iff)
    qed
  qed
  then show ?thesis
  proof cases
    case stopped
    then show ?thesis by (simp add: holds_def)
  next
    case ran
    have body: "carBytes = rqBody rq" using ran(1,2) by (auto simp: read_body_def split: option.splits)
    obtain t where d: "disk (wMgr w1) did = Some (d\<lparr>tape := t\<rparr>)" using ran(4) by (auto simp: holds_def)
    obtain d2 where m: "tx_steps (InternalServerError ''failed to begin import'')
        (InternalServerError ''failed to commit import'') (import_body sv did (hd (cfRoots cr)) cr) (d\<lparr>tape := t\<rparr>) = (x, d2)"
      and w2: "disk (wMgr w2) did = Some d2"
      using actor_steps_run [OF ran(5) d] by auto
    show ?thesis
    proof (cases x)
      case (Inl y)
      then show ?thesis
        using tx_steps_run(2) m ran(6) w2 stops_import [where sv = sv and did = did and cr = cr] by (fastforce simp: stops_with_def)
    next
      case (Inr c)
      obtain u u' d3 where b: "import_body sv did (hd (cfRoots cr)) cr (d\<lparr>tape := u\<rparr>) = (Inr c, d3)" "d2 = d3\<lparr>tape := u'\<rparr>"
        using tx_steps_run(1) [OF m [unfolded Inr]] by auto
      note i = import_body_run [OF b(1) refl]
      have "holds did d2 w2" using w2 by (auto simp: holds_def)
      moreover have "keeps (holds did d2) (hbind (attempt (emitSyncEvent sv (svNow sv 1) did (hd (cfRoots cr)) (coRev c))
          (\<lambda>_. InternalServerError ''failed to sequence sync event'')) (\<lambda>_. hret empty_object))"
        by (intro keeps_intros holds_sync)
      ultimately have "holds did d2 w'" using ran(6) Inr keeps_serve by fastforce
      then show ?thesis using i b(2) ran(3) body by (auto simp: holds_def)
    qed
  qed
qed

text \<open>C13. An import is all or nothing. Either the caller's store is what it was and the answer is an error, or
  its repository is the one of the CAR file: every block from it, its commit signed for the caller with the
  current key of the DID, the revision and root of that commit, and an index that agrees with its tree, with
  the preferences and blob files as before.\<close>

theorem import_all_or_nothing:
  assumes "handleImportRepo sv rq w = (r, w')" "disk (wMgr w) did = Some d" "token_of sv rq did"
  shows "(\<exists>t. disk (wMgr w') did = Some (d\<lparr>tape := t\<rparr>)) \<and> rsStatus r \<noteq> 200
    \<or> (\<exists>d' cr. disk (wMgr w') did = Some d' \<and> svCar sv (rqBody rq) = Inr cr \<and> imported sv did cr d'
        \<and> preferences d' = preferences d \<and> blob_files d' = blob_files d)"
  using assms by (rule import_cases)

section \<open>An import that runs\<close>

text \<open>A repository with one record in a CAR file, and a server that reads it from any body.\<close>

definition demo_rec :: string where
  "demo_rec = enc_list [''k'']"

definition demo_root :: string where
  "demo_root = enc_tree [(''p/a'', demo_rec)]"

definition demo_head :: string where
  "demo_head = enc_list [''did:plc:a'', demo_root, ''1'']"

definition demo_car :: car_file where
  "demo_car = \<lparr>cfRoots = [demo_head], cfBlocks = map (\<lambda>s. (s, bytes_of s)) [demo_head, demo_root, demo_rec], cfEnd = None\<rparr>"

definition demo_importer :: "((string \<times> cid) list, string) server" where
  "demo_importer = demo_server\<lparr>svCar := (\<lambda>b. Inr demo_car)\<rparr>"

lemma demo_import: "(case tx_steps (InternalServerError ''failed to begin import'') (InternalServerError ''failed to commit import'')
    (import_body demo_importer ''did:plc:a'' demo_head demo_car) (empty_actordb []) of
     (Inr c, d) \<Rightarrow> coRev c = ''1'' \<and> (case emitSyncEvent demo_importer 5000000000 ''did:plc:a'' demo_head ''1'' (demo_opened d) of
        (Inl _, _) \<Rightarrow> False | (Inr _, _) \<Rightarrow> True)
   | (Inl _, _) \<Rightarrow> False)"
  by code_simp

lemma demo_importer_principal: "requirePrincipal demo_importer = requirePrincipal demo_server"
  "actors_Get demo_importer = actors_Get demo_server"
  by (simp_all add: fun_eq_iff demo_importer_def requirePrincipal_def actors_Get_def)

lemma demo_import_runs:
  "rsStatus (fst (handleImportRepo demo_importer (demo_post ''access'') (demo_opened (empty_actordb [])))) = 200"
proof -
  have "actor_steps ''did:plc:a'' m (demo_opened e) = (case m e of (x, d) \<Rightarrow> (x, demo_opened d))" for e :: actordb and m :: "(actordb, commit) hd_step"
    by (simp add: actor_steps_def demo_opened_def split: prod.split)
  moreover have "read_body demo_importer (demo_post ''access'') (maxImportSize + 1) = Inr [1]"
    by (simp add: read_body_def demo_importer_def demo_post_def maxImportSize_def)
  moreover have "svCar demo_importer b = Inr demo_car" "svNow demo_importer i = 5000000000" for b i
    by (simp_all add: demo_importer_def)
  moreover have "cfRoots demo_car = [demo_head]" by (simp add: demo_car_def)
  ultimately show ?thesis
    using demo_import demo_principal_opened [of "svJson demo_server"] demo_reopen [of "svJson demo_server"]
    by (auto simp: handleImportRepo_def requireMigrationAccessToken_def demo_importer_principal handler_simps maxImportSize_def Let_def
        empty_object_def split: prod.splits sum.splits)
qed

theorem import_all_or_nothing_witness:
  "\<exists>d cr. disk (wMgr (snd (handleImportRepo demo_importer (demo_post ''access'') (demo_opened (empty_actordb []))))) ''did:plc:a'' = Some d
     \<and> imported demo_importer ''did:plc:a'' cr d"
proof -
  obtain r w' where run: "handleImportRepo demo_importer (demo_post ''access'') (demo_opened (empty_actordb [])) = (r, w')" by fastforce
  have "token_of demo_importer (demo_post ''access'') ''did:plc:a''"
    by (simp add: demo_importer_def token_of_def bearerToken_def demo_parse has_prefix_def trim_prefix_def)
  from import_all_or_nothing [OF run _ this, of "empty_actordb []"] show ?thesis
    using demo_import_runs run by (auto simp: demo_opened_def)
qed

section \<open>Ending an account\<close>

definition same_accounts :: "world \<Rightarrow> world \<Rightarrow> bool" where
  "same_accounts w0 w \<longleftrightarrow> accounts (wAcct w) = accounts (wAcct w0)"

lemma same_accounts_acct:
  "(\<And>d r d'. m d = (r, d') \<Longrightarrow> accounts d' = accounts d) \<Longrightarrow> preserves (same_accounts w0) (on_acct m)"
  by (intro preservesI) (auto simp: same_accounts_def)

lemma same_accounts_steps:
  "preserves (same_accounts w0) (on_acct (GetAccountByDID did))"
  "preserves (same_accounts w0) (on_acct (ConsumeAdminToken now tok did p))"
  "preserves (same_accounts w0) (on_acct (DeleteRefreshTokensForDID did))"
proof -
  show "preserves (same_accounts w0) (on_acct (GetAccountByDID did))"
    by (rule same_accounts_acct) (auto dest: readsD [OF reads_accounts(1)])
  show "preserves (same_accounts w0) (on_acct (ConsumeAdminToken now tok did p))"
    by (rule same_accounts_acct) (auto simp: token_op_defs gobind_def wrapf_def exec_delete_def stmt_def Let_def sql_delete_def
        checkRowsAffected_def split: if_splits prod.splits sum.splits)
  show "preserves (same_accounts w0) (on_acct (DeleteRefreshTokensForDID did))"
    by (rule same_accounts_acct) (auto simp: token_op_defs gobind_def wrapf_def exec_delete_def stmt_def Let_def sql_delete_def
        split: if_splits prod.splits sum.splits)
qed

lemma same_accounts_principal: "keeps (same_accounts w0) (requirePrivilegedAccessToken sv rq)"
proof -
  have "keeps (same_accounts w0) (requirePrincipal sv rq p a)" for p a
  proof -
    have "same_tables w (snd (requirePrincipal sv rq p a w))" for w
      using requirePrincipal_untouched [of w sv rq p a] by (simp add: keeps_def)
    moreover have "same_accounts w0 s \<Longrightarrow> same_tables s s' \<Longrightarrow> same_accounts w0 s'" for s s'
      by (auto simp: same_accounts_def same_tables_def)
    ultimately show ?thesis by (auto simp: keeps_def)
  qed
  then show ?thesis unfolding requirePrivilegedAccessToken_def by (intro keeps_intros)
qed

lemma DeleteAccount_run:
  "DeleteAccount did d = (Inl e, d') \<Longrightarrow> accounts d' = accounts d"
  "DeleteAccount did d = (Inr (), d') \<Longrightarrow> accounts d' = filter (\<lambda>a. acDID a \<noteq> did) (accounts d)"
  by (auto simp: DeleteAccount_def gobind_def wrapf_def exec_delete_def stmt_def Let_def sql_delete_def checkRowsAffected_def
      filter_empty_conv filter_id_conv split: if_splits prod.splits sum.splits)

text \<open>C14. An account ends only by its owner's will and the administrator's: when a request to
  \<^verbatim>\<open>deleteAccount\<close> changes the account table, it carries an access token of the account, the account's
  own password and a deletion token that the administrator issued for it and that has not expired, and
  the account's row is what goes.\<close>

theorem delete_account_justified:
  assumes "handleDeleteAccount sv rq w = (r, w')" "accounts (wAcct w') \<noteq> accounts (wAcct w)"
  shows "\<exists>did password a t. token_of sv rq did
    \<and> Option.bind (decodeJSON (svJson sv) rq) read_delete_account = Some (did, password, atToken t)
    \<and> acct_lookup (accounts (wAcct w)) did = Some a \<and> VerifyPassword (svScrypt sv) password (acPasswordHash a) = Inr True
    \<and> t \<in> set (admin_tokens (wAcct w)) \<and> atDID t = did \<and> atPurpose t = TokenPurposeDeleteAccount
    \<and> rfc3339 (svNow sv 1) < atExpiresAt t
    \<and> accounts (wAcct w') = filter (\<lambda>b. acDID b \<noteq> did) (accounts (wAcct w))"
proof -
  have s0: "same_accounts w w" by (simp add: same_accounts_def)
  obtain x w1 where q: "requirePrivilegedAccessToken sv rq w = (x, w1)" by fastforce
  note s1 = keepsE [OF same_accounts_principal q s0]
  have dif: "\<not> same_accounts w w'" using assms(2) by (simp add: same_accounts_def)
  obtain did where x: "x = Inr did" using assms(1) q s1 dif by (cases x) (auto simp: handleDeleteAccount_def serve_hbind)
  note c = require_caller(2) [OF q [unfolded x]]
  obtain u w2 where g: "on_acct (GetAccountByDID did) w1 = (u, w2)" by fastforce
  note s2 = preservesE [OF same_accounts_steps(1) g s1]
  obtain pw tok a where b: "Option.bind (decodeJSON (svJson sv) rq) read_delete_account = Some (did, pw, tok)"
    "u = Inr a" "VerifyPassword (svScrypt sv) pw (acPasswordHash a) = Inr True"
    using assms(1) q x g s1 s2 dif
    by (auto simp: handleDeleteAccount_def serve_hbind decode_body_def attempt_Inl_iff split: option.splits)
  obtain v w3 where t: "on_acct (ConsumeAdminToken (svNow sv 1) tok did TokenPurposeDeleteAccount) w2 = (v, w3)" by fastforce
  note s3 = preservesE [OF same_accounts_steps(2) t s2]
  obtain y w4 where d: "on_acct (DeleteRefreshTokensForDID did) w3 = (y, w4)" by fastforce
  note s4 = preservesE [OF same_accounts_steps(3) d s3]
  obtain z w5 where e: "on_acct (DeleteAccount did) w4 = (z, w5)" by fastforce
  have rest: "serve (hbind (attempt (on_acct (ConsumeAdminToken (svNow sv 1) tok did TokenPurposeDeleteAccount))
        (\<lambda>_. Unauthorized ''InvalidToken'' ''invalid or expired deletion token'')) (\<lambda>_.
      hbind (attempt (on_acct (DeleteRefreshTokensForDID did)) (\<lambda>_. InternalServerError ''failed to revoke sessions'')) (\<lambda>_.
      hbind (attempt (on_acct (DeleteAccount did)) (\<lambda>_. InternalServerError ''failed to delete account'')) (\<lambda>_.
      hret empty_object)))) w2 = (r, w')"
    using assms(1) x b(2,3) b(1)
    by (simp add: handleDeleteAccount_def hbind_def [of "requirePrivilegedAccessToken sv rq"] q serve_def decode_body_def
        hbind_def [of "attempt _ _"] attempt_def g del: on_acct_eq)
  have v: "v = Inr ()"
  proof (cases v)
    case (Inl x)
    have "w' = w3" using rest unfolding serve_def hbind_def attempt_def t Inl by simp
    then show ?thesis using s3 dif by simp
  qed simp
  have y: "y = Inr ()"
  proof (cases y)
    case (Inl x)
    have "w' = w4" using rest unfolding serve_def hbind_def attempt_def t v d Inl sum.case prod.case by simp
    then show ?thesis using s4 dif by simp
  qed simp
  have w': "w' = w5"
    using rest unfolding serve_def hbind_def attempt_def t v d y e sum.case prod.case by (auto split: sum.splits)
  note r = v y w'
  have del: "accounts (wAcct w5) = filter (\<lambda>b. acDID b \<noteq> did) (accounts (wAcct w4))"
  proof -
    obtain d5 where d5: "DeleteAccount did (wAcct w4) = (z, d5)" "w5 = w4\<lparr>wAcct := d5\<rparr>" using e by auto
    have "z = Inr ()"
    proof (cases z)
      case (Inl x)
      then have "same_accounts w w5" using DeleteAccount_run(1) d5 s4 by (auto simp: same_accounts_def)
      then show ?thesis using dif r(3) by simp
    qed simp
    then show ?thesis using DeleteAccount_run(2) d5 by simp
  qed
  have tok: "\<exists>k \<in> set (admin_tokens (wAcct w2)). atToken k = tok \<and> atDID k = did \<and> atPurpose k = TokenPurposeDeleteAccount
      \<and> rfc3339 (svNow sv 1) < atExpiresAt k"
    using t r(1) by (auto simp: ConsumeAdminToken_def gobind_Inr_iff exec_delete_def stmt_Inr_iff sql_delete_def
        checkRowsAffected_def filter_empty_conv split: if_splits)
  have same: "admin_tokens (wAcct w2) = admin_tokens (wAcct w)" "acct_lookup (accounts (wAcct w)) did = Some a"
    using g b(2) c by (auto simp: same_tables_def dest!: GetAccountByDID_ok)
  show ?thesis using c b tok same del s4 r(3) by (auto simp: same_accounts_def)
qed

text \<open>A deletion that runs.\<close>

definition demo_deletion :: data where
  "demo_deletion = DMap [(''did'', DStr ''did:plc:a''), (''password'', DStr ''hunter2''), (''token'', DStr ''tok'')]"

definition demo_approved :: world where
  "demo_approved = demo_home\<lparr>wAcct := (wAcct demo_home)\<lparr>admin_tokens :=
     [\<lparr>atToken = ''tok'', atDID = ''did:plc:a'', atPurpose = TokenPurposeDeleteAccount, atExpiresAt = 900000000000, atCreatedAt = 0\<rparr>]\<rparr>\<rparr>"

lemma read_demo_deletion: "read_delete_account demo_deletion = Some (''did:plc:a'', ''hunter2'', ''tok'')"
  by code_simp

lemma demo_approved_principal:
  "requirePrincipal (demo_server\<lparr>svJson := j\<rparr>) (demo_post ''access'') priv ad demo_approved = (Inr \<lparr>ptDID = ''did:plc:a'', ptJTI = '''',
     ptScope = scopeAccess, ptAuthVersion = 1, ptCredentialKind = CredentialPrimary, ptAppPasswordName = ''''\<rparr>, demo_approved)"
  by (simp add: requirePrincipal_def handler_simps exec_simps GetAccountByDID_def scanAccount_def check_app_credential_def demo_approved_def
    trim_prefix_def has_prefix_def demo_parse privileged_kind_def statusPermitted_def demo_home_def demo_world_def demo_db_def empty_acctdb_def)

lemma demo_approved_tables: "accounts (wAcct demo_approved) = [demo_user]" "tape (wAcct demo_approved) = []"
    "refresh_tokens (wAcct demo_approved) = [demo_refresh ''3030'']"
    "admin_tokens (wAcct demo_approved) =
       [\<lparr>atToken = ''tok'', atDID = ''did:plc:a'', atPurpose = TokenPurposeDeleteAccount, atExpiresAt = 900000000000, atCreatedAt = 0\<rparr>]"
  by (simp_all add: demo_approved_def)

lemma demo_deletion_runs: "accounts (wAcct (snd (handleDeleteAccount (demo_server\<lparr>svJson := demo_json demo_deletion\<rparr>)
    (demo_post ''access'') demo_approved))) = []"
  by (simp add: handleDeleteAccount_def requirePrivilegedAccessToken_def handler_simps exec_simps read_demo_deletion
      demo_approved_principal GetAccountByDID_def scanAccount_def ConsumeAdminToken_def DeleteRefreshTokensForDID_def
      DeleteAccount_def demo_approved_def [symmetric] demo_approved_tables rfc3339_def)

theorem delete_account_justified_witness:
  "\<exists>a t. acct_lookup (accounts (wAcct demo_approved)) ''did:plc:a'' = Some a
     \<and> t \<in> set (admin_tokens (wAcct demo_approved)) \<and> atDID t = ''did:plc:a''
     \<and> token_of (demo_server\<lparr>svJson := demo_json demo_deletion\<rparr>) (demo_post ''access'') ''did:plc:a''"
proof -
  obtain r w' where run: "handleDeleteAccount (demo_server\<lparr>svJson := demo_json demo_deletion\<rparr>) (demo_post ''access'') demo_approved = (r, w')"
    by fastforce
  have "accounts (wAcct w') \<noteq> accounts (wAcct demo_approved)"
    using demo_deletion_runs run by (simp add: demo_approved_def)
  from delete_account_justified [OF run this] show ?thesis
    by (auto simp: read_demo_deletion)
qed

end
