(* ===== verification/Concurrent.thy ===== *)
theory Concurrent
  imports RepoSync
begin

text \<open>
  Concurrent writers of one repository: every request runs \<^verbatim>\<open>ApplyWrites\<close> in its own goroutine
  (\<^verbatim>\<open>internal/repoops/writer.go\<close>), the per-DID mutex of \<^verbatim>\<open>Manager.WithLock\<close> orders them, and requests
  that do not take the mutex run between any two of their steps. A connection pool of one makes each
  transaction a single step; reading the root, loading the tree and the transaction are three, and the event
  is appended after the mutex has been released.
\<close>

section \<open>One goroutine\<close>

text \<open>Where a goroutine is in \<^verbatim>\<open>ApplyWrites\<close>, with its local variables.\<close>

datatype ('t, 'k) writer =
    WWait batch
  | WLocked batch
  | WRoot batch repo_root_row
  | WTree batch 't 'k "string option" "cid option"
  | WDone applied
  | WEnd "go_error + applied"

fun inside :: "('t, 'k) writer \<Rightarrow> bool" where
  "inside (WLocked b) = True"
| "inside (WRoot b r) = True"
| "inside (WTree b t k since prev) = True"
| "inside p = False"

fun locked_step :: "('t, 'k) repo_lib \<Rightarrow> string \<Rightarrow> ('t, 'k) writer \<Rightarrow> actordb \<Rightarrow> ('t, 'k) writer \<times> actordb" where
  "locked_step lib did (WLocked b) d = (case GetRepoRoot d of
     (Inr r, d1) \<Rightarrow> (WRoot b r, d1)
   | (Inl e, d1) \<Rightarrow>
       if e = ActorErrNotFound then (WTree b (mst_empty lib) (clk_new lib (baTimes b)) None None, d1) else (WEnd (Inl e), d1))"
| "locked_step lib did (WRoot b r) d = (case loadTree lib (rrCommitCID r) d of
     (Inr (tree, pc), d1) \<Rightarrow> (WTree b tree (clk_from lib (baTimes b) (coRev pc)) (Some (coRev pc)) (Some (coData pc)), d1)
   | (Inl e, d1) \<Rightarrow> (WEnd (Inl e), d1))"
| "locked_step lib did (WTree b tree clk since prev) d =
     (case with_tx id (Wrapf ''committing repo write'') (write_commit lib did (baKey b) (baOps b) tree clk since prev) d of
        (Inr a, d1) \<Rightarrow> (WDone a, d1)
      | (Inl e, d1) \<Rightarrow> (WEnd (Inl e), d1))"
| "locked_step lib did p d = (p, d)"

text \<open>Left alone, the three steps are what runs under the lock.\<close>

lemma locked_steps_alone:
  "(let (p1, d1) = locked_step lib did (WLocked b) d; (p2, d2) = locked_step lib did p1 d1 in locked_step lib did p2 d2) =
   (case apply_locked lib (baTimes b) did (baKey b) (baOps b) d of (Inr a, d') \<Rightarrow> (WDone a, d') | (Inl e, d') \<Rightarrow> (WEnd (Inl e), d'))"
  by (auto simp: apply_locked_def gobind_def split: sum.splits prod.splits)

section \<open>All of them\<close>

record ('t, 'k) wsys =
  wsDb :: actordb
  wsOwner :: "nat option"
  wsLog :: seqdb
  wsPcs :: "nat \<Rightarrow> ('t, 'k) writer"
  wsHist :: "(nat \<times> applied) list"

definition wstart :: "(nat \<Rightarrow> batch) \<Rightarrow> actordb \<Rightarrow> seqdb \<Rightarrow> ('t, 'k) wsys" where
  "wstart bs d log = \<lparr>wsDb = d, wsOwner = None, wsLog = log, wsPcs = (\<lambda>i. WWait (bs i)), wsHist = []\<rparr>"

definition set_pc :: "nat \<Rightarrow> ('t, 'k) writer \<Rightarrow> ('t, 'k) wsys \<Rightarrow> ('t, 'k) wsys" where
  "set_pc i p s = s\<lparr>wsPcs := (wsPcs s)(i := p)\<rparr>"

definition take_lock :: "nat \<Rightarrow> batch \<Rightarrow> ('t, 'k) wsys \<Rightarrow> ('t, 'k) wsys" where
  "take_lock i b s = (set_pc i (WLocked b) s)\<lparr>wsOwner := Some i\<rparr>"

text \<open>A step under the lock; the deferred unlock runs when the closure returns.\<close>

definition run_writer :: "('t, 'k) repo_lib \<Rightarrow> string \<Rightarrow> nat \<Rightarrow> ('t, 'k) wsys \<Rightarrow> ('t, 'k) wsys" where
  "run_writer lib did i s = (case locked_step lib did (wsPcs s i) (wsDb s) of (p, d) \<Rightarrow>
     (set_pc i p s)\<lparr>wsDb := d, wsOwner := if inside p then wsOwner s else None,
       wsHist := wsHist s @ (case p of WDone a \<Rightarrow> [(i, a)] | _ \<Rightarrow> [])\<rparr>)"

definition emit_writer :: "wire_lib \<Rightarrow> int \<Rightarrow> string \<Rightarrow> nat \<Rightarrow> applied \<Rightarrow> ('t, 'k) wsys \<Rightarrow> ('t, 'k) wsys" where
  "emit_writer wl now did i a s = (case wrapf ''sequencing commit event'' (emitCommitEvent wl now did a) (wsLog s) of
     (Inr _, l) \<Rightarrow> (set_pc i (WEnd (Inr a)) s)\<lparr>wsLog := l\<rparr>
   | (Inl e, l) \<Rightarrow> (set_pc i (WEnd (Inl e)) s)\<lparr>wsLog := l\<rparr>)"

text \<open>\<open>other d d'\<close> says what requests that do not take the lock may do to the actor's database; the log is
  shared with the rest of the server.\<close>

inductive wstep for lib :: "('t, 'k) repo_lib" and wl did and other :: "actordb \<Rightarrow> actordb \<Rightarrow> bool" where
  Lock: "wsOwner s = None \<Longrightarrow> wsPcs s i = WWait b \<Longrightarrow>
    wstep lib wl did other s (take_lock i b s)"
| Run: "inside (wsPcs s i) \<Longrightarrow> wstep lib wl did other s (run_writer lib did i s)"
| Emit: "wsPcs s i = WDone a \<Longrightarrow> wstep lib wl did other s (emit_writer wl now did i a s)"
| Other: "other (wsDb s) d \<Longrightarrow> wstep lib wl did other s (s\<lparr>wsDb := d\<rparr>)"
| Elsewhere: "Append (w_cbor wl) (w_fmt wl) now did' evt (wsLog s) = (r, l) \<Longrightarrow> wstep lib wl did other s (s\<lparr>wsLog := l\<rparr>)"

inductive wreach for lib :: "('t, 'k) repo_lib" and wl did other s0 where
  Here: "wreach lib wl did other s0 s0"
| Step: "wreach lib wl did other s0 s \<Longrightarrow> wstep lib wl did other s s' \<Longrightarrow> wreach lib wl did other s0 s'"

text \<open>What every handler but \<^verbatim>\<open>importRepo\<close> keeps when it does not hold the lock: preferences and blob metadata
  are all it writes.\<close>

definition same_repo :: "actordb \<Rightarrow> actordb \<Rightarrow> bool" where
  "same_repo d d' \<longleftrightarrow> blocks d' = blocks d \<and> repo_root d' = repo_root d \<and> records d' = records d \<and> blob_refs d' = blob_refs d"

lemma same_repo_put:
  assumes "PutBlobMeta c mime sz d = (r, d')"
  shows "same_repo d d'"
  using assms by (auto simp: PutBlobMeta_def wrapf_def exec_insert_ignore_def stmt_def Let_def same_repo_def split: if_splits)

lemma unlocked_writes:
  "preserves (same_repo d0) (SetPreferences v)" "preserves (same_repo d0) (WriteBlobFile c content)"
  "preserves (same_repo d0) (with_tx f g (PutBlobMeta c mime sz))"
proof -
  have trans: "same_repo d0 d1 \<Longrightarrow> same_repo d1 d2 \<Longrightarrow> same_repo d0 d2" for d1 d2 by (simp add: same_repo_def)
  show "preserves (same_repo d0) (SetPreferences v)"
    by (intro preservesI) (auto simp: SetPreferences_def wrapf_def stmt_def Let_def same_repo_def split: if_splits)
  show "preserves (same_repo d0) (WriteBlobFile c content)"
    by (intro preservesI) (auto simp: WriteBlobFile_def gobind_def wrapf_def stmt_def Let_def same_repo_def put_file_def rename_file_def
        split: if_splits option.splits)
  show "preserves (same_repo d0) (with_tx f g (PutBlobMeta c mime sz))"
  proof (intro preservesI)
    fix d r d' assume d: "same_repo d0 d" and run: "with_tx f g (PutBlobMeta c mime sz) d = (r, d')"
    show "same_repo d0 d'"
    proof (cases r)
      case (Inl e)
      then show ?thesis using run d by (auto simp: with_tx_def stmt_def Let_def goret_def same_repo_def split: prod.splits sum.splits if_splits)
    next
      case (Inr u)
      then obtain t1 d2 t2 where "PutBlobMeta c mime sz (d\<lparr>tape := t1\<rparr>) = (Inr u, d2)" "d' = d2\<lparr>tape := t2\<rparr>"
        using run [unfolded Inr] by (elim with_tx_Inr) auto
      then show ?thesis using same_repo_put [of c mime sz "d\<lparr>tape := t1\<rparr>" "Inr u" d2] d by (simp add: same_repo_def)
    qed
  qed
qed

section \<open>The sequential specification\<close>

text \<open>Batches one after the other, each in one go.\<close>

inductive serial for lib :: "('t, 'k) repo_lib" and did and bs :: "nat \<Rightarrow> batch" and d0 where
  Begin: "serial lib did bs d0 [] d0"
| Aside: "serial lib did bs d0 h d \<Longrightarrow> same_repo d d' \<Longrightarrow> serial lib did bs d0 h d'"
| Batch: "serial lib did bs d0 h d \<Longrightarrow> apply_locked lib (baTimes (bs i)) did (baKey (bs i)) (baOps (bs i)) d = (Inr a, d') \<Longrightarrow>
    serial lib did bs d0 (h @ [(i, a)]) d'"

section \<open>What a goroutine inside knows\<close>

definition read_ok :: "('t, 'k) repo_lib \<Rightarrow> (nat \<Rightarrow> int) \<Rightarrow> actordb \<Rightarrow> 't \<Rightarrow> 'k \<Rightarrow> string option \<Rightarrow> cid option \<Rightarrow> bool" where
  "read_ok lib ts d tree clk since prev = (case repo_root d of
     None \<Rightarrow> tree = mst_empty lib \<and> clk = clk_new lib ts \<and> since = None \<and> prev = None
   | Some r \<Rightarrow> \<exists>x pc. block_look d (rrCommitCID r) = Some x \<and> unmarshal_commit lib x = Inr pc
       \<and> mst_load lib (block_look d) (coData pc) = Inr tree
       \<and> clk = clk_from lib ts (coRev pc) \<and> since = Some (coRev pc) \<and> prev = Some (coData pc))"

fun pc_ok :: "('t, 'k) repo_lib \<Rightarrow> batch \<Rightarrow> nat \<Rightarrow> actordb \<Rightarrow> (nat \<times> applied) list \<Rightarrow> ('t, 'k) writer \<Rightarrow> bool" where
  "pc_ok lib b0 i d h (WWait b) = (b = b0 \<and> i \<notin> fst ` set h)"
| "pc_ok lib b0 i d h (WLocked b) = (b = b0 \<and> i \<notin> fst ` set h)"
| "pc_ok lib b0 i d h (WRoot b r) = (b = b0 \<and> i \<notin> fst ` set h \<and> repo_root d = Some r)"
| "pc_ok lib b0 i d h (WTree b tree clk since prev) = (b = b0 \<and> i \<notin> fst ` set h \<and> read_ok lib (baTimes b) d tree clk since prev)"
| "pc_ok lib b0 i d h (WDone a) = ((i, a) \<in> set h)"
| "pc_ok lib b0 i d h (WEnd r) = (\<forall>a. r = Inr a \<longrightarrow> (i, a) \<in> set h)"

lemma same_repo_refl: "same_repo d (d\<lparr>tape := t\<rparr>)"
  by (simp add: same_repo_def)

lemma same_repo_look: "same_repo d d' \<Longrightarrow> repo_root d' = repo_root d \<and> block_look d' = block_look d"
  by (simp add: same_repo_def block_look_def)

lemma read_ok_same: "same_repo d d' \<Longrightarrow> read_ok lib ts d' t k since prev = read_ok lib ts d t k since prev"
  by (drule same_repo_look) (simp add: read_ok_def split: option.splits)

lemma pc_ok_same: "pc_ok lib b i d h p \<Longrightarrow> same_repo d d' \<Longrightarrow> pc_ok lib b i d' h p"
  by (cases p) (auto simp: read_ok_same dest: same_repo_look)

lemma loadTree_Inr:
  assumes "loadTree lib c d = (Inr (tree, pc), d')"
  shows "\<exists>x. block_look d c = Some x \<and> unmarshal_commit lib x = Inr pc \<and> mst_load lib (block_look d) (coData pc) = Inr tree"
  using assms
  by (auto simp: loadTree_def gobind_Inr_iff bs_Get_def query_row_def stmt_def Let_def block_look_def
      split: prod.splits sum.splits option.splits if_splits)

text \<open>A write on a fresh reading is the whole batch in one go.\<close>

lemma fresh_write:
  assumes "read_ok lib ts d tree clk since prev"
  obtains tp where "apply_locked lib ts did key xs (d\<lparr>tape := tp\<rparr>) =
    with_tx id (Wrapf ''committing repo write'') (write_commit lib did key xs tree clk since prev) d"
proof (cases "repo_root d")
  case None
  then show thesis
    using assms by (intro that [of "False # tape d"])
      (simp add: read_ok_def apply_locked_def GetRepoRoot_def query_row_def stmt_def)
next
  case (Some r)
  then obtain x pc where "map_of (blocks d) (rrCommitCID r) = Some x" "unmarshal_commit lib x = Inr pc"
    "mst_load lib (map_of (blocks d)) (coData pc) = Inr tree" "clk = clk_from lib ts (coRev pc)" "since = Some (coRev pc)"
    "prev = Some (coData pc)"
    using assms by (auto simp: read_ok_def block_look_def)
  then show thesis
    using Some by (intro that [of "False # False # False # tape d"])
      (simp add: apply_locked_def GetRepoRoot_def loadTree_def bs_Get_def query_row_def stmt_def gobind_def
        wrapf_def liftE_def goret_def)
qed

lemma write_fails: "with_tx id f m d = (Inl e, d') \<Longrightarrow> \<exists>t. d' = d\<lparr>tape := t\<rparr>"
  by (auto simp: with_tx_def stmt_def Let_def goret_def split: prod.splits sum.splits if_splits)

section \<open>Every interleaving is a sequence of batches\<close>

lemma locked_step_ok:
  assumes "locked_step lib did p d = (p', d')" "pc_ok lib b i d h p" "inside p" "serial lib did bs d0 h d" "bs i = b" "distinct (map fst h)"
  defines "h' \<equiv> h @ (case p' of WDone a \<Rightarrow> [(i, a)] | _ \<Rightarrow> [])"
  shows "pc_ok lib b i d' h' p' \<and> serial lib did bs d0 h' d' \<and> distinct (map fst h')"
proof (cases p)
  case (WLocked b1)
  obtain r d1 where g: "GetRepoRoot d = (r, d1)" by fastforce
  obtain t where t: "d1 = d\<lparr>tape := t\<rparr>" using readsD [OF reads_GetRepoRoot g] by blast
  have "pc_ok lib b i d' h' p'" "h' = h" "d' = d1"
    using assms(1,2) g WLocked
    by (auto simp: h'_def read_ok_def GetRepoRoot_def query_row_def stmt_def Let_def split: sum.splits if_splits option.splits)
  then show ?thesis using serial.Aside [OF assms(4) same_repo_refl] t assms(6) by simp
next
  case (WRoot b1 r)
  obtain x d1 where l: "loadTree lib (rrCommitCID r) d = (x, d1)" by fastforce
  obtain t where t: "d1 = d\<lparr>tape := t\<rparr>" using readsD [OF reads_loadTree l] by blast
  have "pc_ok lib b i d' h' p'" "h' = h" "d' = d1"
    using assms(1,2) l WRoot t by (auto simp: h'_def read_ok_def dest!: loadTree_Inr split: sum.splits prod.splits)
  then show ?thesis using serial.Aside [OF assms(4) same_repo_refl] t assms(6) by simp
next
  case (WTree b1 tree clk since prev)
  obtain x d1 where w: "with_tx id (Wrapf ''committing repo write'') (write_commit lib did (baKey b1) (baOps b1) tree clk since prev) d = (x, d1)"
    by fastforce
  have b1: "b1 = b" "read_ok lib (baTimes b) d tree clk since prev" "i \<notin> fst ` set h" using assms(2) WTree by auto
  show ?thesis
  proof (cases x)
    case (Inl e)
    then obtain t where "d1 = d\<lparr>tape := t\<rparr>" using w write_fails by blast
    then show ?thesis using serial.Aside [OF assms(4) same_repo_refl] Inl w assms(1,6) WTree by (auto simp: h'_def)
  next
    case (Inr a)
    obtain tp where "apply_locked lib (baTimes (bs i)) did (baKey (bs i)) (baOps (bs i)) (d\<lparr>tape := tp\<rparr>) = (Inr a, d1)"
      using fresh_write [OF b1(2), of did "baKey b" "baOps b"] w Inr assms(5) b1(1) by metis
    note serial.Batch [OF serial.Aside [OF assms(4) same_repo_refl] this]
    then show ?thesis using Inr w assms(1,6) WTree b1(3) by (force simp: h'_def)
  qed
qed (use assms(3) in auto)

definition winv :: "('t, 'k) repo_lib \<Rightarrow> string \<Rightarrow> (nat \<Rightarrow> batch) \<Rightarrow> actordb \<Rightarrow> ('t, 'k) wsys \<Rightarrow> bool" where
  "winv lib did bs d0 s \<longleftrightarrow> (\<forall>i. inside (wsPcs s i) \<longrightarrow> wsOwner s = Some i)
     \<and> (\<forall>i. pc_ok lib (bs i) i (wsDb s) (wsHist s) (wsPcs s i))
     \<and> serial lib did bs d0 (wsHist s) (wsDb s) \<and> distinct (map fst (wsHist s))"

lemma pc_ok_outside:
  assumes "\<not> inside p" "pc_ok lib b i d h p" "i \<notin> fst ` set g"
  shows "pc_ok lib b i d' (h @ g) p"
  using assms by (cases p) auto

lemma winv_start: "winv lib did bs d0 (wstart bs d0 log)"
  by (simp add: winv_def wstart_def serial.Begin)

lemma winv_step:
  assumes "winv lib did bs d0 s" "wstep lib wl did same_repo s s'"
  shows "winv lib did bs d0 s'"
  using assms(2)
proof cases
  case (Lock i b)
  have "pc_ok lib (bs i) i (wsDb s) (wsHist s) (WLocked b)" using assms(1) Lock(3) by (metis winv_def pc_ok.simps(1,2))
  then show ?thesis using assms(1) Lock by (auto simp: winv_def take_lock_def set_pc_def)
next
  case (Run i)
  obtain p d where p: "locked_step lib did (wsPcs s i) (wsDb s) = (p, d)" by fastforce
  let ?g = "case p of WDone a \<Rightarrow> [(i, a)] | _ \<Rightarrow> []"
  have i: "wsOwner s = Some i" "pc_ok lib (bs i) i (wsDb s) (wsHist s) (wsPcs s i)" "serial lib did bs d0 (wsHist s) (wsDb s)"
    "distinct (map fst (wsHist s))"
    using assms(1) Run(2) by (auto simp: winv_def)
  note ok = locked_step_ok [OF p i(2) Run(2) i(3) refl i(4)]
  have out: "\<not> inside (wsPcs s j)" if "j \<noteq> i" for j using assms(1) i(1) that by (auto simp: winv_def)
  have "pc_ok lib (bs j) j d (wsHist s @ ?g) (wsPcs s j)" if "j \<noteq> i" for j
    using out [OF that] assms(1) that by (intro pc_ok_outside) (auto simp: winv_def split: writer.splits)
  then show ?thesis using ok out i(1) Run by (auto simp: winv_def run_writer_def p set_pc_def)
next
  case (Emit i a now)
  have "(i, a) \<in> set (wsHist s)" using assms(1) Emit(2) by (metis winv_def pc_ok.simps(5))
  then show ?thesis using assms(1) Emit by (auto simp: winv_def emit_writer_def set_pc_def split: prod.splits sum.splits)
next
  case (Other d)
  have "serial lib did bs d0 (wsHist s) d" using assms(1) Other(2) serial.Aside unfolding winv_def by blast
  moreover have "pc_ok lib (bs i) i d (wsHist s) (wsPcs s i)" for i
    using assms(1) Other(2) pc_ok_same unfolding winv_def by blast
  ultimately show ?thesis using assms(1) Other(1) by (simp add: winv_def)
next
  case (Elsewhere now did' evt r l)
  then show ?thesis using assms(1) by (simp add: winv_def)
qed

lemma winv_reach: "wreach lib wl did same_repo (wstart bs d0 log) s \<Longrightarrow> winv lib did bs d0 s"
  by (induction rule: wreach.induct) (auto intro: winv_start winv_step)

text \<open>C8. The per-DID lock makes concurrent batches atomic. However the goroutines are interleaved, with requests
  in between that take no lock and leave the tables of the repository alone (preferences, blob files and blob
  metadata are what they write; \<^verbatim>\<open>importRepo\<close> is the one that does more), at most one goroutine is between the lock and the unlock, every batch commits at most
  once, a caller that is told of success has its commit in the history, and the repository is what the committed
  batches give one after the other, each in one go.\<close>

theorem concurrent_writes_serialise:
  assumes "wreach lib wl did same_repo (wstart bs d0 log) s"
  shows "serial lib did bs d0 (wsHist s) (wsDb s) \<and> distinct (map fst (wsHist s))
    \<and> (\<forall>i j. inside (wsPcs s i) \<and> inside (wsPcs s j) \<longrightarrow> i = j)
    \<and> (\<forall>i a. wsPcs s i = WEnd (Inr a) \<longrightarrow> (i, a) \<in> set (wsHist s))"
proof -
  have inv: "winv lib did bs d0 s" using winv_reach [OF assms] .
  then have "pc_ok lib (bs i) i (wsDb s) (wsHist s) (wsPcs s i)" for i by (simp add: winv_def)
  then have "wsPcs s i = WEnd (Inr a) \<Longrightarrow> (i, a) \<in> set (wsHist s)" for i a by (metis pc_ok.simps(6))
  moreover have "inside (wsPcs s i) \<Longrightarrow> inside (wsPcs s j) \<Longrightarrow> i = j" for i j
    using inv unfolding winv_def by (metis option.inject)
  ultimately show ?thesis using inv unfolding winv_def by blast
qed

section \<open>No update is lost\<close>

text \<open>The revision and tree a commit names as its predecessor, and those it has itself.\<close>

definition base_of :: "('t, 'k) repo_lib \<Rightarrow> actordb \<Rightarrow> string option \<times> cid option" where
  "base_of lib d = (case repo_root d of None \<Rightarrow> (None, None)
   | Some r \<Rightarrow> (case map_option (unmarshal_commit lib) (block_look d (rrCommitCID r)) of
       Some (Inr c) \<Rightarrow> (Some (coRev c), Some (coData c))
     | _ \<Rightarrow> (None, None)))"

definition head_of :: "applied \<Rightarrow> string option \<times> cid option" where
  "head_of a = (Some (coRev (apCommit a)), Some (coData (apCommit a)))"

fun linked :: "string option \<times> cid option \<Rightarrow> applied list \<Rightarrow> bool" where
  "linked p [] = True"
| "linked p (a # as) = ((apSince a, apPrevData a) = p \<and> linked (head_of a) as)"

lemma linked_snoc:
  "linked p (as @ [a]) \<longleftrightarrow> linked p as \<and> (apSince a, apPrevData a) = (if as = [] then p else head_of (last as))"
  by (induction as arbitrary: p) auto

lemma with_tx_write:
  assumes "with_tx id f (write_commit lib did key xs tree clk since prev) d = (Inr a, d')"
  shows "apSince a = since \<and> apPrevData a = prev
    \<and> (\<exists>b blk. marshal_commit lib (apCommit a) = Inr b \<and> cid_sum lib b = Inr (apCID a) \<and> new_block lib b (apCID a) = Inr blk)"
proof -
  obtain d1 d2 where "write_commit lib did key xs tree clk since prev d1 = (Inr a, d2)"
    using assms by (elim with_tx_Inr) auto
  then show ?thesis by (elim write_commit_ok) auto
qed

lemma apply_locked_links:
  assumes "apply_locked lib ts did key xs d = (Inr a, d')"
  shows "(apSince a, apPrevData a) = base_of lib d"
    and "\<exists>b blk. marshal_commit lib (apCommit a) = Inr b \<and> cid_sum lib b = Inr (apCID a) \<and> new_block lib b (apCID a) = Inr blk"
proof -
  obtain tree clk since prev tp where tx: "with_tx id (Wrapf ''committing repo write'') (write_commit lib did key xs tree clk since prev)
         (d\<lparr>tape := tp\<rparr>) = (Inr a, d')" and
    root: "case repo_root d of
         None \<Rightarrow> tree = mst_empty lib \<and> clk = clk_new lib ts \<and> since = None \<and> prev = None
       | Some root \<Rightarrow> \<exists>pc t' t''. loadTree lib (rrCommitCID root) (d\<lparr>tape := t'\<rparr>) = (Inr (tree, pc), d\<lparr>tape := t''\<rparr>)
           \<and> clk = clk_from lib ts (coRev pc) \<and> since = Some (coRev pc) \<and> prev = Some (coData pc)"
    using assms by (cases rule: apply_locked_cases) auto
  have "(since, prev) = base_of lib d"
    using root by (auto simp: base_of_def dest!: loadTree_Inr split: option.splits)
  then show "(apSince a, apPrevData a) = base_of lib d" using with_tx_write [OF tx] by simp
  show "\<exists>b blk. marshal_commit lib (apCommit a) = Inr b \<and> cid_sum lib b = Inr (apCID a) \<and> new_block lib b (apCID a) = Inr blk"
    using with_tx_write [OF tx] by simp
qed

lemma apply_locked_head:
  assumes laws: "repo_laws lib entries stored good now_of" and run: "apply_locked lib ts did key xs d = (Inr a, d')"
    and ok: "chain_ok lib good d'"
  shows "base_of lib d' = head_of a"
proof -
  obtain b blk where b: "marshal_commit lib (apCommit a) = Inr b" "cid_sum lib b = Inr (apCID a)" "new_block lib b (apCID a) = Inr blk"
    using apply_locked_links(2) [OF run] by blast
  have root: "repo_root d' = Some \<lparr>rrCommitCID = apCID a, rrRev = coRev (apCommit a)\<rparr>"
    using apply_writes_cases [where lib = lib and ts = ts and did = did and key = key and xs = xs and d = d] run by simp
  obtain x where x: "block_look d' (apCID a) = Some x" using ok root by (auto simp: chain_ok_def current_def split: option.splits)
  then have "good (apCID a, x)" using ok by (auto simp: chain_ok_def block_look_def dest: map_of_SomeD)
  moreover have "good (apCID a, b)" using laws b(2,3) unfolding repo_laws_def block_laws_def by metis
  ultimately have "x = b" using laws unfolding repo_laws_def block_laws_def by metis
  moreover have "unmarshal_commit lib b = Inr (apCommit a)" using laws b(1) unfolding repo_laws_def commit_laws_def by metis
  ultimately show ?thesis using x root by (simp add: base_of_def head_of_def)
qed

lemma same_repo_state:
  assumes "same_repo d d'"
  shows "chain_ok lib good d' = chain_ok lib good d" "in_sync lib entries d' = in_sync lib entries d"
    "base_of lib d' = base_of lib d" "revision lib d' = revision lib d"
proof -
  have same: "repo_root d' = repo_root d" "block_look d' = block_look d" using same_repo_look [OF assms] by simp_all
  have "current lib d' = current lib d" unfolding current_def same ..
  moreover have "blocks d' = blocks d" "index d' = index d" using assms by (simp_all add: same_repo_def index_def)
  ultimately show "chain_ok lib good d' = chain_ok lib good d" "in_sync lib entries d' = in_sync lib entries d"
    "revision lib d' = revision lib d"
    by (simp_all add: chain_ok_def in_sync_def revision_def)
  show "base_of lib d' = base_of lib d" unfolding base_of_def same ..
qed

definition hist_revs :: "(nat \<times> applied) list \<Rightarrow> string list" where
  "hist_revs h = map (\<lambda>x. coRev (apCommit (snd x))) h"

lemma serial_chain:
  assumes laws: "repo_laws lib entries stored good now_of"
    and start: "chain_ok lib good d0" and run: "serial lib did bs d0 h d"
  shows "chain_ok lib good d \<and> linked (base_of lib d0) (map snd h)
    \<and> ((\<forall>i. plain_batch (bs i)) \<and> in_sync lib entries d0 \<longrightarrow> in_sync lib entries d)
    \<and> base_of lib d = (if h = [] then base_of lib d0 else head_of (snd (last h)))
    \<and> sorted_wrt (<) (hist_revs h) \<and> (\<forall>r \<in> set (hist_revs h). r \<le> revision lib d)"
  using run
proof induction
  case Begin
  then show ?case using start by (simp add: hist_revs_def)
next
  case (Aside h d d')
  then show ?case by (simp add: same_repo_state)
next
  case (Batch h d i a d')
  have sync: "(\<forall>i. plain_batch (bs i)) \<and> in_sync lib entries d0 \<longrightarrow> in_sync lib entries d'"
    using in_sync_step [OF laws, of "bs i" d did] Batch by (simp add: batch_step_def gobind_def)
  obtain rv t t' where c: "current lib d = Some (rv, t)" "current lib d' = Some (coRev (apCommit a), t')"
    "rv < coRev (apCommit a)" "chain_ok lib good d'"
    using apply_locked_chain [OF laws Batch(2)] Batch(3) by metis
  have "linked (base_of lib d0) (map snd (h @ [(i, a)]))"
    using Batch.IH apply_locked_links(1) [OF Batch(2)] by (auto simp: linked_snoc last_map)
  moreover have "sorted_wrt (<) (hist_revs (h @ [(i, a)])) \<and> (\<forall>r \<in> set (hist_revs (h @ [(i, a)])). r \<le> revision lib d')"
    using Batch.IH c(1,2,3) by (auto simp: hist_revs_def sorted_wrt_append revision_def intro: le_less_trans less_imp_le)
  ultimately show ?case using sync c(4) apply_locked_head [OF laws Batch(2) c(4)] by simp
qed

text \<open>C9. No update is lost. Whatever the interleaving of the writers of a repository, with requests in between
  that leave its tables alone (all but \<^verbatim>\<open>importRepo\<close>), each commit names as its predecessor the revision and the
  tree of the commit before it in the history, the first one those the repository started with, and the
  revisions strictly increase. If moreover no collection name of any batch contains a slash (an NSID has none,
  but \<^verbatim>\<open>applyWrites\<close> and \<^verbatim>\<open>deleteRecord\<close> do not check), the index agrees with the signed tree at every moment.\<close>

theorem no_update_is_lost:
  assumes "repo_laws lib entries stored good now_of" "chain_ok lib good d0"
    and "wreach lib wl did same_repo (wstart bs d0 log) s"
  shows "linked (base_of lib d0) (map snd (wsHist s)) \<and> sorted_wrt (<) (hist_revs (wsHist s))
    \<and> ((\<forall>i. plain_batch (bs i)) \<and> in_sync lib entries d0 \<longrightarrow> in_sync lib entries (wsDb s))"
proof -
  have "serial lib did bs d0 (wsHist s) (wsDb s)" using winv_reach [OF assms(3)] by (simp add: winv_def)
  then show ?thesis using serial_chain [OF assms(1,2)] by blast
qed

end
