(* ===== verification/ConcurrentSpec.thy ===== *)
theory ConcurrentSpec
  imports Concurrent
begin

text \<open>
  What the per-DID lock does not order: the announcement of a commit comes after the unlock. The theory ends
  with runs of two writers on the example library.
\<close>

section \<open>A goroutine that is not interrupted\<close>

lemma wreach_trans: "wreach lib wl did other s1 s2 \<Longrightarrow> wreach lib wl did other s0 s1 \<Longrightarrow> wreach lib wl did other s0 s2"
  by (induction rule: wreach.induct) (auto intro: wreach.Step)

definition go_on :: "('t, 'k) repo_lib \<Rightarrow> string \<Rightarrow> nat \<Rightarrow> ('t, 'k) wsys \<Rightarrow> ('t, 'k) wsys" where
  "go_on lib did i s = (if inside (wsPcs s i) then run_writer lib did i s else s)"

lemma go_on_reach: "wreach lib wl did other s0 s \<Longrightarrow> wreach lib wl did other s0 (go_on lib did i s)"
  by (simp add: go_on_def wreach.Here wreach.Step wstep.Run)

definition commit_writer :: "nat \<Rightarrow> applied \<Rightarrow> actordb \<Rightarrow> ('t, 'k) wsys \<Rightarrow> ('t, 'k) wsys" where
  "commit_writer i a d s = (set_pc i (WDone a) s)\<lparr>wsDb := d, wsOwner := None, wsHist := wsHist s @ [(i, a)]\<rparr>"

lemma apply_locked_phases:
  assumes "apply_locked lib (baTimes b) did (baKey b) (baOps b) d = (Inr a, d')" "wsDb s = d"
  shows "go_on lib did i (go_on lib did i (go_on lib did i (take_lock i b s))) = commit_writer i a d' s"
proof -
  note simps = go_on_def take_lock_def commit_writer_def run_writer_def set_pc_def assms(2)
  obtain x d1 where g: "GetRepoRoot d = (x, d1)" by fastforce
  show ?thesis
  proof (cases x)
    case (Inl e)
    then have "e = ActorErrNotFound" "with_tx id (Wrapf ''committing repo write'')
        (write_commit lib did (baKey b) (baOps b) (mst_empty lib) (clk_new lib (baTimes b)) None None) d1 = (Inr a, d')"
      using assms(1) g by (auto simp: apply_locked_def split: if_splits)
    then show ?thesis using Inl g by (simp add: simps)
  next
    case (Inr root)
    obtain tree pc d2 where "loadTree lib (rrCommitCID root) d1 = (Inr (tree, pc), d2)" "with_tx id (Wrapf ''committing repo write'')
        (write_commit lib did (baKey b) (baOps b) tree (clk_from lib (baTimes b) (coRev pc)) (Some (coRev pc)) (Some (coData pc))) d2 = (Inr a, d')"
      using assms(1) g Inr by (auto simp: apply_locked_def gobind_Inr_iff)
    then show ?thesis using Inr g by (simp add: simps)
  qed
qed

lemma writer_runs:
  assumes "apply_locked lib (baTimes b) did (baKey b) (baOps b) (wsDb s) = (Inr a, d')" "wsOwner s = None" "wsPcs s i = WWait b"
  shows "wreach lib wl did other s (commit_writer i a d' s)"
proof -
  have "wreach lib wl did other s (take_lock i b s)"
    using wstep.Lock [OF assms(2,3)] wreach.Here wreach.Step by metis
  then show ?thesis using go_on_reach apply_locked_phases [OF assms(1) refl] by metis
qed

section \<open>Commits are not announced in their order\<close>

text \<open>The message of a commit, as the row of the log numbered \<open>sq\<close> holds it.\<close>

definition announces :: "wire_lib \<Rightarrow> int \<Rightarrow> string \<Rightarrow> applied \<Rightarrow> int \<Rightarrow> bytes \<Rightarrow> bool" where
  "announces wl now did a sq payload \<longleftrightarrow> (\<exists>car m. WriteCAR (w_car wl) [apCID a] (apBlocks a) = (car, None)
     \<and> RepoCommit (commit_event wl now did a car) = Some m
     \<and> Serialize (w_cbor wl) (no_event\<lparr>RepoCommit := Some (m\<lparr>cmSeq := sq\<rparr>)\<rparr>) = Inr payload)"

lemma emit_announces:
  assumes "emitCommitEvent wl now did a d = (Inr (), d')" "seq_inv d"
  obtains payload where "announces wl now did a (last_seq d + 1) payload" "last_seq d' = last_seq d + 1" "seq_inv d'"
    "events d' = filter (retained (w_fmt wl) now) (events d @ [new_row (w_fmt wl) now did (last_seq d + 1) ''#commit'' payload])"
proof -
  obtain car sq where car: "WriteCAR (w_car wl) [apCID a] (apBlocks a) = (car, None)"
    and ap: "Append (w_cbor wl) (w_fmt wl) now did (commit_event wl now did a car) d = (Inr sq, d')"
    using assms(1) by (elim emit_ok)
  obtain m where m: "RepoCommit (commit_event wl now did a car) = Some m"
    and seqof: "SeqOf q (commit_event wl now did a car) = Inr (''#commit'', no_event\<lparr>RepoCommit := Some (m\<lparr>cmSeq := q\<rparr>)\<rparr>)" for q
    by (simp add: SeqOf_def commit_event_def no_event_def)
  obtain ty evt' payload where r: "SeqOf sq (commit_event wl now did a car) = Inr (ty, evt')" "sq = last_seq d + 1" "last_seq d' = sq"
    "Serialize (w_cbor wl) evt' = Inr payload"
    "events d' = filter (retained (w_fmt wl) now) (events d @ [new_row (w_fmt wl) now did sq ty payload])"
    using ap assms(2) by (elim Append_ok)
  then show thesis
    using car m seqof seq_inv_grow [OF assms(2), of d' "retained (w_fmt wl) now" "new_row (w_fmt wl) now did sq ty payload"]
    by (intro that [of payload]) (auto simp: announces_def new_row_def)
qed

lemma emit_reach:
  assumes "wsPcs s i = WDone a" "emitCommitEvent wl now did a (wsLog s) = (Inr (), l)"
  shows "wreach lib wl did other s ((set_pc i (WEnd (Inr a)) s)\<lparr>wsLog := l\<rparr>)"
proof -
  have "wreach lib wl did other s (emit_writer wl now did i a s)"
    using wstep.Emit [of s i a lib wl did other now] assms(1) by (metis wreach.Here wreach.Step)
  then show ?thesis using assms(2) by (simp add: emit_writer_def wrapf_def)
qed

text \<open>C11. The firehose can tell the commits of one repository in the wrong order. \<^verbatim>\<open>ApplyWrites\<close> releases the
  lock before it appends the event, so of two batches that commit one after the other, both answered with success,
  the second can be announced first: the log then numbers the event of the later revision below that of the
  revision it says it follows.\<close>

theorem later_commit_announced_first:
  assumes "repo_laws lib entries stored good now_of" "chain_ok lib good d0" "seq_inv log"
    and "apply_locked lib (baTimes (bs 0)) did (baKey (bs 0)) (baOps (bs 0)) d0 = (Inr a, d1)"
    and "apply_locked lib (baTimes (bs 1)) did (baKey (bs 1)) (baOps (bs 1)) d1 = (Inr b, d2)"
    and "emitCommitEvent wl now did b log = (Inr (), l1)" "emitCommitEvent wl now' did a l1 = (Inr (), l2)"
  shows "\<exists>s pa pb. wreach lib wl did same_repo (wstart bs d0 log) s
    \<and> wsPcs s 0 = WEnd (Inr a) \<and> wsPcs s 1 = WEnd (Inr b) \<and> wsDb s = d2 \<and> wsOwner s = None
    \<and> coRev (apCommit a) < coRev (apCommit b) \<and> apSince b = Some (coRev (apCommit a))
    \<and> announces wl now did b (last_seq log + 1) pb \<and> announces wl now' did a (last_seq log + 2) pa
    \<and> events (wsLog s) = filter (retained (w_fmt wl) now') (filter (retained (w_fmt wl) now) (events log
         @ [new_row (w_fmt wl) now did (last_seq log + 1) ''#commit'' pb])
         @ [new_row (w_fmt wl) now' did (last_seq log + 2) ''#commit'' pa])"
proof -
  let ?s0 = "wstart bs d0 log :: ('a, 'b) wsys"
  let ?s1 = "commit_writer 0 a d1 ?s0"
  let ?s2 = "commit_writer 1 b d2 ?s1"
  let ?s3 = "(set_pc 1 (WEnd (Inr b)) ?s2)\<lparr>wsLog := l1\<rparr>"
  let ?s4 = "(set_pc 0 (WEnd (Inr a)) ?s3)\<lparr>wsLog := l2\<rparr>"
  note simps = wstart_def commit_writer_def set_pc_def
  have "wreach lib wl did same_repo ?s0 ?s1" using assms(4) by (intro writer_runs [where b = "bs 0"]) (simp_all add: simps)
  moreover have "wreach lib wl did same_repo ?s1 ?s2" using assms(5) by (intro writer_runs [where b = "bs 1"]) (simp_all add: simps)
  moreover have "wreach lib wl did same_repo ?s2 ?s3" using assms(6) by (intro emit_reach) (simp_all add: simps)
  moreover have "wreach lib wl did same_repo ?s3 ?s4" using assms(7) by (intro emit_reach) (simp_all add: simps)
  ultimately have reach: "wreach lib wl did same_repo ?s0 ?s4" by (metis wreach_trans)
  obtain pb where pb: "announces wl now did b (last_seq log + 1) pb" "last_seq l1 = last_seq log + 1" "seq_inv l1"
    "events l1 = filter (retained (w_fmt wl) now) (events log @ [new_row (w_fmt wl) now did (last_seq log + 1) ''#commit'' pb])"
    using emit_announces [OF assms(6,3)] .
  obtain pa where pa: "announces wl now' did a (last_seq l1 + 1) pa"
    "events l2 = filter (retained (w_fmt wl) now') (events l1 @ [new_row (w_fmt wl) now' did (last_seq l1 + 1) ''#commit'' pa])"
    using emit_announces [OF assms(7) pb(3)] .
  have ok: "chain_ok lib good d1" using apply_locked_chain [OF assms(1,4,2)] by metis
  have links: "(apSince b, apPrevData b) = head_of a"
    using apply_locked_links(1) [OF assms(5)] apply_locked_head [OF assms(1,4) ok] by simp
  have rev: "coRev (apCommit a) < coRev (apCommit b)"
    using apply_locked_chain [OF assms(1,4,2)] apply_locked_chain [OF assms(1,5) ok] by (metis option.inject prod.inject)
  show ?thesis
  proof -
    have sq: "last_seq l1 + 1 = last_seq log + 2" using pb(2) by simp
    have "wsPcs ?s4 0 = WEnd (Inr a)" "wsPcs ?s4 1 = WEnd (Inr b)" "wsDb ?s4 = d2" "wsOwner ?s4 = None" "wsLog ?s4 = l2"
      by (simp_all add: simps)
    moreover have "apSince b = Some (coRev (apCommit a))" using links by (simp add: head_of_def)
    ultimately show ?thesis using reach pa pb(1,4) rev unfolding sq by metis
  qed
qed

section \<open>Runs on the example library\<close>

datatype move = MLock nat | MRun nat | MEmit int nat

fun play :: "('t, 'k) repo_lib \<Rightarrow> wire_lib \<Rightarrow> string \<Rightarrow> move \<Rightarrow> ('t, 'k) wsys \<Rightarrow> ('t, 'k) wsys option" where
  "play lib wl did (MLock i) s = (case (wsOwner s, wsPcs s i) of (None, WWait b) \<Rightarrow> Some (take_lock i b s) | _ \<Rightarrow> None)"
| "play lib wl did (MRun i) s = (if inside (wsPcs s i) then Some (run_writer lib did i s) else None)"
| "play lib wl did (MEmit now i) s = (case wsPcs s i of WDone a \<Rightarrow> Some (emit_writer wl now did i a s) | _ \<Rightarrow> None)"

fun plays :: "('t, 'k) repo_lib \<Rightarrow> wire_lib \<Rightarrow> string \<Rightarrow> move list \<Rightarrow> ('t, 'k) wsys \<Rightarrow> ('t, 'k) wsys option" where
  "plays lib wl did [] s = Some s"
| "plays lib wl did (m # ms) s = Option.bind (play lib wl did m s) (plays lib wl did ms)"

lemma play_step: "play lib wl did m s = Some s' \<Longrightarrow> wstep lib wl did other s s'"
  by (cases m) (auto split: option.splits writer.splits if_splits intro: wstep.Lock wstep.Run wstep.Emit)

lemma plays_reach: "wreach lib wl did other s0 s \<Longrightarrow> plays lib wl did ms s = Some s' \<Longrightarrow> wreach lib wl did other s0 s'"
proof (induction ms arbitrary: s)
  case (Cons m ms)
  then obtain s1 where s1: "play lib wl did m s = Some s1" "plays lib wl did ms s1 = Some s'" by (auto simp: bind_eq_Some_conv)
  show ?case using Cons.IH [OF wreach.Step [OF Cons.prems(1) play_step [OF s1(1)]] s1(2)] .
qed simp

definition demo_bs :: "nat \<Rightarrow> batch" where
  "demo_bs i = demo_batches ! (if i = 0 then 0 else 2)"

definition demo_moves :: "move list" where
  "demo_moves = [MLock 1, MRun 1, MRun 1, MLock 0, MRun 0, MEmit 5000000000 1, MRun 0, MRun 0, MEmit 5000000000 0]"

lemma demo_played: "(case plays demo_lib demo_wire ''did:plc:a'' demo_moves (wstart demo_bs (empty_actordb []) (empty_seqdb [])) of
    Some s \<Rightarrow> hist_revs (wsHist s) = [''1'', ''11''] \<and> map fst (wsHist s) = [1, 0] \<and> (case wsPcs s 0 of WEnd (Inr a) \<Rightarrow> True | _ \<Rightarrow> False)
  | None \<Rightarrow> False)"
  by code_simp

lemma demo_play:
  obtains s where "plays demo_lib demo_wire ''did:plc:a'' demo_moves (wstart demo_bs (empty_actordb []) (empty_seqdb [])) = Some s"
    "hist_revs (wsHist s) = [''1'', ''11'']" "map fst (wsHist s) = [1, 0]" "\<exists>a. wsPcs s 0 = WEnd (Inr a)"
    "wreach demo_lib demo_wire ''did:plc:a'' same_repo (wstart demo_bs (empty_actordb []) (empty_seqdb [])) s"
proof -
  obtain s where s: "plays demo_lib demo_wire ''did:plc:a'' demo_moves (wstart demo_bs (empty_actordb []) (empty_seqdb [])) = Some s"
    "hist_revs (wsHist s) = [''1'', ''11'']" "map fst (wsHist s) = [1, 0]" "\<exists>a. wsPcs s 0 = WEnd (Inr a)"
    using demo_played by (auto split: option.splits writer.splits sum.splits)
  show thesis by (rule that [OF s plays_reach [OF wreach.Here s(1)]])
qed

theorem concurrent_writes_serialise_witness:
  "\<exists>h d a. serial demo_lib ''did:plc:a'' demo_bs (empty_actordb []) h d \<and> map fst h = [1, 0] \<and> (0, a) \<in> set h"
proof -
  obtain s where s: "map fst (wsHist s) = [1, 0]" "\<exists>a. wsPcs s 0 = WEnd (Inr a)"
    "wreach demo_lib demo_wire ''did:plc:a'' same_repo (wstart demo_bs (empty_actordb []) (empty_seqdb [])) s"
    by (rule demo_play)
  note run = concurrent_writes_serialise [OF s(3)]
  obtain a where "(0, a) \<in> set (wsHist s)" using run s(2) by metis
  then show ?thesis using run s(1) by (intro exI [of _ "wsHist s"] exI [of _ "wsDb s"] exI [of _ a] conjI) simp_all
qed

lemma demo_plain: "\<forall>i. plain_batch (demo_bs i)"
  by (simp add: demo_bs_def demo_batches_def plain_batch_def)

lemma demo_sync_empty: "in_sync demo_lib map_of (empty_actordb [])"
  by (simp add: in_sync_def current_def index_def empty_actordb_def demo_lib_def)

theorem no_update_is_lost_witness:
  "\<exists>h d. linked (None, None) (map snd h) \<and> hist_revs h = [''1'', ''11''] \<and> in_sync demo_lib map_of d"
proof -
  obtain s where s: "hist_revs (wsHist s) = [''1'', ''11'']"
    "wreach demo_lib demo_wire ''did:plc:a'' same_repo (wstart demo_bs (empty_actordb []) (empty_seqdb [])) s"
    by (rule demo_play)
  have "base_of demo_lib (empty_actordb []) = (None, None)" by (simp add: base_of_def empty_actordb_def)
  then show ?thesis
    using no_update_is_lost [OF demo_laws chain_ok_empty s(2)] demo_plain demo_sync_empty s(1) by auto
qed

lemma demo_swap: "(case apply_locked demo_lib (baTimes (demo_bs 0)) ''did:plc:a'' (baKey (demo_bs 0)) (baOps (demo_bs 0)) (empty_actordb []) of
    (Inl e, d) \<Rightarrow> False
  | (Inr a, d1) \<Rightarrow> (case apply_locked demo_lib (baTimes (demo_bs 1)) ''did:plc:a'' (baKey (demo_bs 1)) (baOps (demo_bs 1)) d1 of
      (Inl e, d) \<Rightarrow> False
    | (Inr b, d2) \<Rightarrow> (case emitCommitEvent demo_wire 5000000000 ''did:plc:a'' b (empty_seqdb []) of
        (Inl e, l) \<Rightarrow> False
      | (Inr u, l1) \<Rightarrow> (case emitCommitEvent demo_wire 5000000000 ''did:plc:a'' a l1 of (Inl e, l) \<Rightarrow> False | (Inr u, l2) \<Rightarrow> True))))"
  by code_simp

theorem later_commit_announced_first_witness:
  "\<exists>s a b pa pb. wreach demo_lib demo_wire ''did:plc:a'' same_repo (wstart demo_bs (empty_actordb []) (empty_seqdb [])) s
    \<and> wsPcs s 0 = WEnd (Inr a) \<and> wsPcs s 1 = WEnd (Inr b) \<and> coRev (apCommit a) < coRev (apCommit b)
    \<and> announces demo_wire 5000000000 ''did:plc:a'' b 1 pb \<and> announces demo_wire 5000000000 ''did:plc:a'' a 2 pa"
proof -
  obtain a d1 b d2 l1 l2 where r: "apply_locked demo_lib (baTimes (demo_bs 0)) ''did:plc:a'' (baKey (demo_bs 0)) (baOps (demo_bs 0)) (empty_actordb []) = (Inr a, d1)"
    "apply_locked demo_lib (baTimes (demo_bs 1)) ''did:plc:a'' (baKey (demo_bs 1)) (baOps (demo_bs 1)) d1 = (Inr b, d2)"
    "emitCommitEvent demo_wire 5000000000 ''did:plc:a'' b (empty_seqdb []) = (Inr (), l1)"
    "emitCommitEvent demo_wire 5000000000 ''did:plc:a'' a l1 = (Inr (), l2)"
  proof -
    obtain x d1 where 1: "apply_locked demo_lib (baTimes (demo_bs 0)) ''did:plc:a'' (baKey (demo_bs 0)) (baOps (demo_bs 0)) (empty_actordb []) = (x, d1)" by fastforce
    obtain a where a: "x = Inr a" using demo_swap unfolding 1 by (cases x) auto
    obtain y d2 where 2: "apply_locked demo_lib (baTimes (demo_bs 1)) ''did:plc:a'' (baKey (demo_bs 1)) (baOps (demo_bs 1)) d1 = (y, d2)" by fastforce
    obtain b where b: "y = Inr b" using demo_swap unfolding 1 a prod.case sum.case 2 by (cases y) auto
    obtain u l1 where 3: "emitCommitEvent demo_wire 5000000000 ''did:plc:a'' b (empty_seqdb []) = (u, l1)" by fastforce
    have u: "u = Inr ()" using demo_swap unfolding 1 a prod.case sum.case 2 b 3 by (cases u) auto
    obtain v l2 where 4: "emitCommitEvent demo_wire 5000000000 ''did:plc:a'' a l1 = (v, l2)" by fastforce
    have "v = Inr ()" using demo_swap unfolding 1 a prod.case sum.case 2 b 3 u 4 by (cases v) auto
    then show thesis using that 1 2 3 4 a b u by simp
  qed
  have "seq_inv (empty_seqdb [])" "last_seq (empty_seqdb []) = 0" by (simp_all add: seq_inv_def empty_seqdb_def)
  then show ?thesis
    using later_commit_announced_first [OF demo_laws chain_ok_empty _ r] by fastforce
qed

end
