(* ===== verification/ImportRace.thy ===== *)
theory ImportRace
  imports MigrationSpec ConcurrentSpec
begin

text \<open>
  The request that writes a repository without taking its lock: \<^verbatim>\<open>importRepo\<close> beside a writer that has
  loaded the tree and not yet begun its transaction.
\<close>

text \<open>Content addressing: from any store of good blocks, the root of a tree loads that tree or nothing.\<close>

definition root_law :: "('t, 'k) repo_lib \<Rightarrow> ('t \<Rightarrow> string \<Rightarrow> cid option) \<Rightarrow> (block \<Rightarrow> bool) \<Rightarrow> bool" where
  "root_law lib entries good \<longleftrightarrow> (\<forall>L t t' blks root. (\<forall>c b. L c = Some b \<longrightarrow> good (c, b))
     \<and> mst_diff lib t = Inr (blks, root) \<and> mst_load lib L root = Inr t' \<longrightarrow> entries t' = entries t)"

lemma fold_result_other:
  assumes "\<forall>res \<in> set rs. rec_path (wrCollection res) (wrRKey res) \<noteq> rec_path coll key"
  shows "fold tree_result rs e (rec_path coll key) = e (rec_path coll key)"
    and "fold apply_result rs m (coll, key) = m (coll, key)"
  using assms by (induction rs arbitrary: e m) (auto simp: tree_result_def apply_result_def res_key_def)

lemma stale_write:
  assumes laws: "repo_laws lib entries stored good now_of" "root_law lib entries good"
    and good: "\<forall>x \<in> set (blocks d). good x"
    and run: "locked_step lib did (WTree b tree clk since prev) d = (WDone a, d')"
    and path: "index d (coll, key) = Some c" "CHR ''/'' \<notin> set coll" "entries tree (rec_path coll key) = None"
    and other: "\<forall>res \<in> set (apResults a). rec_path (wrCollection res) (wrRKey res) \<noteq> rec_path coll key"
  shows "index d' (coll, key) = Some c \<and> \<not> in_sync lib entries d' \<and> apSince a = since \<and> apPrevData a = prev"
proof -
  have tx: "with_tx id (Wrapf ''committing repo write'') (write_commit lib did (baKey b) (baOps b) tree clk since prev) d = (Inr a, d')"
    using run by (simp split: prod.splits sum.splits)
  then obtain t1 d2 t2 where w: "write_commit lib did (baKey b) (baOps b) tree clk since prev (d\<lparr>tape := t1\<rparr>) = (Inr a, d2)"
    and d': "d' = d2\<lparr>tape := t2\<rparr>"
    by (elim with_tx_Inr) auto
  have g: "\<forall>x \<in> set (blocks (d\<lparr>tape := t1\<rparr>)). good x" using good by simp
  obtain tree' blks x where t: "mst_diff lib tree' = Inr (blks, coData (apCommit a))"
    "entries tree' = fold tree_result (apResults a) (entries tree)" "prevs_ok (entries tree) (apResults a)"
    "stored tree (block_look (d\<lparr>tape := t1\<rparr>)) \<longrightarrow> stored tree' (block_look (d\<lparr>tape := t1\<rparr>))" "now_of clk < coRev (apCommit a)"
    "\<forall>x \<in> set (blocks d2). good x" "block_look (d\<lparr>tape := t1\<rparr>) \<subseteq>\<^sub>m block_look d2" "\<forall>(c, x) \<in> set blks. block_look d2 c = Some x"
    "repo_root d2 = Some \<lparr>rrCommitCID = apCID a, rrRev = coRev (apCommit a)\<rparr>"
    "block_look d2 (apCID a) = Some x" "unmarshal_commit lib x = Inr (apCommit a)"
    using write_commit_tree [OF laws(1) w g] .
  have ix: "index d' (coll, key) = Some c"
    using write_commit_effect [OF w] fold_result_other(2) [OF other] path(1) d' by (simp add: index_def)
  have "\<not> in_sync lib entries d'"
  proof
    assume "in_sync lib entries d'"
    then obtain rv t' where cur: "current lib d2 = Some (rv, t')" and "index d' (coll, key) = entries t' (rec_path coll key)"
      using path(2) d' by (auto simp: in_sync_def)
    moreover have "mst_load lib (block_look d2) (coData (apCommit a)) = Inr t'"
      using cur t(9-11) by (auto simp: current_def split: sum.splits if_splits)
    moreover have "\<forall>c b. block_look d2 c = Some b \<longrightarrow> good (c, b)" using t(6) by (auto simp: block_look_def dest: map_of_SomeD)
    ultimately have "entries tree' (rec_path coll key) = Some c" using laws(2) t(1) ix unfolding root_law_def by metis
    then show False using t(2) fold_result_other(1) [OF other] path(3) by simp
  qed
  then show ?thesis using ix with_tx_write [OF tx] by simp
qed

text \<open>C10. The one path around the lock breaks the repository. If an import commits after a writer of the same
  repository has loaded the tree and before the writer's transaction begins, all three succeed, but the writer
  signs a commit over the tree from before the import and names the commit from before the import as its
  predecessor: a record of the import that the old tree does not have stays in the index and is served, although
  it is not in the repository that is signed.\<close>

theorem import_breaks_sync:
  assumes "repo_laws (svLib sv) entries stored good now_of" "root_law (svLib sv) entries good"
    and "read_ok (svLib sv) ts d tree clk since prev" "disk (wMgr w) did = Some d"
    and "handleImportRepo sv rq w = (r, w')" "rsStatus r = 200" "token_of sv rq did" "disk (wMgr w') did = Some d1"
    and "svCar sv (rqBody rq) = Inr cr" "\<forall>x \<in> set (cfBlocks cr). good x"
    and "locked_step (svLib sv) did (WTree b tree clk since prev) d1 = (WDone a, d2)"
    and "index d1 (coll, key) = Some c" "CHR ''/'' \<notin> set coll" "entries tree (rec_path coll key) = None"
    and "\<forall>res \<in> set (apResults a). rec_path (wrCollection res) (wrRKey res) \<noteq> rec_path coll key"
  shows "imported sv did cr d1 \<and> index d2 (coll, key) = Some c \<and> \<not> in_sync (svLib sv) entries d2
    \<and> (apSince a, apPrevData a) = base_of (svLib sv) d"
proof -
  have imp: "imported sv did cr d1" using import_cases [OF assms(5,4,7)] assms(6,8,9) by auto
  then have "\<forall>x \<in> set (blocks d1). good x" using assms(10) by (auto simp: imported_def)
  note stale = stale_write [OF assms(1,2) this assms(11-15)]
  have "(since, prev) = base_of (svLib sv) d" using assms(3) by (auto simp: read_ok_def base_of_def split: option.splits)
  then show ?thesis using imp stale by simp
qed

section \<open>On the example server\<close>

lemma demo_root_law: "root_law demo_lib map_of demo_good"
  by (auto simp: root_law_def demo_lib_def demo_good_def split: option.splits)

definition race_batch :: batch where
  "race_batch = \<lparr>baKey = ''key'', baOps = [\<lparr>woAction = ''create'', woCollection = ''p'', woRKey = ''b'', woRecord = Some [(''t'', DNull)]\<rparr>],
     baTimes = demo_times\<rparr>"

lemma race_runs: "(case tx_steps (InternalServerError ''failed to begin import'') (InternalServerError ''failed to commit import'')
    (import_body demo_importer ''did:plc:a'' demo_head demo_car) (empty_actordb []) of
     (Inl _, _) \<Rightarrow> False
   | (Inr c, d) \<Rightarrow> index d (''p'', ''a'') \<noteq> None \<and> (case locked_step demo_lib ''did:plc:a'' (WTree race_batch [] '''' None None) d of
       (WDone a, d2) \<Rightarrow> list_all (\<lambda>res. rec_path (wrCollection res) (wrRKey res) \<noteq> ''p/a'') (apResults a) | _ \<Rightarrow> False))"
  by code_simp

lemma demo_car_good: "list_all demo_good (cfBlocks demo_car)"
  by (simp add: demo_car_def demo_good_def)

lemma demo_import_tape: "(case tx_steps (InternalServerError ''failed to begin import'') (InternalServerError ''failed to commit import'')
    (import_body demo_importer ''did:plc:a'' demo_head demo_car) (empty_actordb []) of
     (Inl _, _) \<Rightarrow> False
   | (Inr c, d) \<Rightarrow> tape d = [] \<and> (case emitSyncEvent demo_importer 5000000000 ''did:plc:a'' demo_head ''1'' (demo_opened d) of
        (_, w) \<Rightarrow> map_option tape (disk (wMgr w) ''did:plc:a'') = Some []))"
  by code_simp

lemma demo_import_store:
  obtains c d1 w' where "tx_steps (InternalServerError ''failed to begin import'') (InternalServerError ''failed to commit import'')
      (import_body demo_importer ''did:plc:a'' demo_head demo_car) (empty_actordb []) = (Inr c, d1)"
    "handleImportRepo demo_importer (demo_post ''access'') (demo_opened (empty_actordb [])) = (empty_object, w')"
    "disk (wMgr w') ''did:plc:a'' = Some d1"
proof -
  let ?tx = "tx_steps (InternalServerError ''failed to begin import'') (InternalServerError ''failed to commit import'')
      (import_body demo_importer ''did:plc:a'' demo_head demo_car)"
  obtain c d1 where tx: "?tx (empty_actordb []) = (Inr c, d1)" and rev: "coRev c = ''1''"
    and emit: "case emitSyncEvent demo_importer 5000000000 ''did:plc:a'' demo_head ''1'' (demo_opened d1) of (Inl _, _) \<Rightarrow> False | (Inr _, _) \<Rightarrow> True"
    using demo_import by (auto split: prod.splits sum.splits)
  obtain w' where w': "emitSyncEvent demo_importer 5000000000 ''did:plc:a'' demo_head ''1'' (demo_opened d1) = (Inr (), w')"
    using emit by (auto split: prod.splits sum.splits)
  have run: "actor_steps ''did:plc:a'' m (demo_opened e) = (case m e of (x, d) \<Rightarrow> (x, demo_opened d))" for e :: actordb and m :: "(actordb, commit) hd_step"
    by (simp add: actor_steps_def demo_opened_def split: prod.split)
  have "read_body demo_importer (demo_post ''access'') (maxImportSize + 1) = Inr [1]"
    by (simp add: read_body_def demo_importer_def demo_post_def maxImportSize_def)
  moreover have "svCar demo_importer b = Inr demo_car" "svNow demo_importer i = 5000000000" for b i
    by (simp_all add: demo_importer_def)
  moreover have "cfRoots demo_car = [demo_head]" by (simp add: demo_car_def)
  ultimately have h: "handleImportRepo demo_importer (demo_post ''access'') (demo_opened (empty_actordb [])) = (empty_object, w')"
    using tx rev w' run demo_principal_opened [of "svJson demo_server"] demo_reopen [of "svJson demo_server"]
    by (auto simp: handleImportRepo_def requireMigrationAccessToken_def demo_importer_principal handler_simps maxImportSize_def Let_def)
  have "holds ''did:plc:a'' d1 (demo_opened d1)" by (auto simp: holds_def demo_opened_def)
  then have "holds ''did:plc:a'' d1 w'" using preservesE [OF holds_sync w'] by blast
  moreover have "tape d1 = [] \<and> map_option tape (disk (wMgr w') ''did:plc:a'') = Some []"
    using demo_import_tape unfolding tx prod.case sum.case w' by simp
  ultimately have "disk (wMgr w') ''did:plc:a'' = Some d1" by (auto simp: holds_def)
  then show thesis by (rule that [OF tx h])
qed

theorem import_breaks_sync_witness:
  "\<exists>d1 d2 a c. imported demo_importer ''did:plc:a'' demo_car d1
    \<and> locked_step demo_lib ''did:plc:a'' (WTree race_batch [] '''' None None) d1 = (WDone a, d2)
    \<and> index d2 (''p'', ''a'') = Some c \<and> \<not> in_sync demo_lib map_of d2 \<and> apSince a = None"
proof -
  obtain c0 d1 w' where i: "tx_steps (InternalServerError ''failed to begin import'') (InternalServerError ''failed to commit import'')
      (import_body demo_importer ''did:plc:a'' demo_head demo_car) (empty_actordb []) = (Inr c0, d1)"
    and h: "handleImportRepo demo_importer (demo_post ''access'') (demo_opened (empty_actordb [])) = (empty_object, w')"
      "disk (wMgr w') ''did:plc:a'' = Some d1"
    by (rule demo_import_store)
  obtain p d2 where l: "locked_step demo_lib ''did:plc:a'' (WTree race_batch [] '''' None None) d1 = (p, d2)" by fastforce
  obtain c a where c: "index d1 (''p'', ''a'') = Some c" and p: "p = WDone a"
    and o: "list_all (\<lambda>res. rec_path (wrCollection res) (wrRKey res) \<noteq> ''p/a'') (apResults a)"
    using race_runs unfolding i prod.case sum.case l by (cases p) auto
  have sv: "svLib demo_importer = demo_lib" by (simp add: demo_importer_def)
  have ro: "read_ok demo_lib demo_times (empty_actordb []) [] '''' None None" by (simp add: read_ok_def empty_actordb_def demo_lib_def)
  have tok: "token_of demo_importer (demo_post ''access'') ''did:plc:a''"
    by (simp add: demo_importer_def token_of_def bearerToken_def demo_parse has_prefix_def trim_prefix_def)
  have dk: "disk (wMgr (demo_opened (empty_actordb []))) ''did:plc:a'' = Some (empty_actordb [])" by (simp add: demo_opened_def)
  have car: "svCar demo_importer b = Inr demo_car" for b by (simp add: demo_importer_def)
  have good: "\<forall>x \<in> set (cfBlocks demo_car). demo_good x" using demo_car_good by (simp add: list_all_iff)
  have ok: "rsStatus empty_object = 200" by (simp add: empty_object_def)
  have pa: "rec_path ''p'' ''a'' = ''p/a''" by (simp add: rec_path_def)
  have e: "CHR ''/'' \<notin> set ''p''" "map_of ([] :: (string \<times> cid) list) (rec_path ''p'' ''a'') = None" by simp_all
  have other: "\<forall>res \<in> set (apResults a). rec_path (wrCollection res) (wrRKey res) \<noteq> rec_path ''p'' ''a''"
    using o by (simp add: pa list_all_iff)
  note race = import_breaks_sync [where sv = demo_importer, unfolded sv, OF demo_laws demo_root_law ro dk h(1) ok tok h(2) car good
      l [unfolded p] c e other]
  have "base_of demo_lib (empty_actordb []) = (None, None)" by (simp add: base_of_def empty_actordb_def)
  then show ?thesis using race l p by auto
qed

end
