(* ===== verification/ProxySpec.thy ===== *)
theory ProxySpec
  imports ServerSpec
begin

text \<open>
  What the service proxy lets out: a request to the target that the caller named, without the caller's own
  credentials and connection headers, and with a fresh token only for a caller whose session is live.
\<close>

lemma optionalAccessToken_run:
  assumes "optionalAccessToken sv rq w = (Inr c, w')"
  shows "same_tables w w' \<and> (case c of None \<Rightarrow> True | Some did \<Rightarrow>
    \<exists>tok p. bearerToken rq = Some tok \<and> ParseAccessToken (svJwt sv) (svNow sv 0) (cfJWTSecret sv) tok = Inr p
      \<and> ptDID p = did \<and> live_principal (wAcct w) p False)"
proof (cases "\<exists>tok p. bearerToken rq = Some tok \<and> ParseAccessToken (svJwt sv) (svNow sv 0) (cfJWTSecret sv) tok = Inr p")
  case False
  then show ?thesis using assms by (auto simp: optionalAccessToken_def split: option.splits sum.splits)
next
  case True
  then obtain tok p where tok: "bearerToken rq = Some tok"
    "ParseAccessToken (svJwt sv) (svNow sv 0) (cfJWTSecret sv) tok = Inr p" by blast
  obtain x d where g: "GetAccountByDID (ptDID p) (wAcct w) = (x, d)" by fastforce
  obtain t where d: "d = (wAcct w)\<lparr>tape := t\<rparr>" using readsD [OF reads_accounts(1) g] by blast
  show ?thesis
  proof (cases x)
    case (Inl e)
    then show ?thesis using assms tok g d by (auto simp: optionalAccessToken_def hbind_Inr_iff)
  next
    case (Inr a)
    have a: "acct_lookup (accounts (wAcct w)) (ptDID p) = Some a" using GetAccountByDID_ok [OF g [unfolded Inr]] by simp
    show ?thesis
    proof (cases "acStatus a \<noteq> StatusActive \<or> acAuthVersion a \<noteq> ptAuthVersion p")
      case True
      then show ?thesis using assms tok g d Inr by (auto simp: optionalAccessToken_def hbind_Inr_iff)
    next
      case False
      have o: "optional_credential p (w\<lparr>wAcct := d\<rparr>) = (Inr c, w')"
        using assms tok g Inr False by (auto simp: optionalAccessToken_def hbind_Inr_iff)
      obtain y d' where l: "ListAppPasswords (ptDID p) d = (y, d')" by fastforce
      obtain t' where d': "d' = (wAcct w)\<lparr>tape := t'\<rparr>" using readsD [OF reads_accounts(5) l] d by auto
      have cred: "\<exists>ap \<in> set (app_passwords (wAcct w)). apDID ap = ptDID p \<and> apName ap = ptAppPasswordName p
          \<and> crKind (app_credential ap) = ptCredentialKind p" if "matchingAppCredential aps p" "y = Inr aps" for aps
        using matching_credential [OF that(1)] ListAppPasswords_ok l that(2) d by fastforce
      have "same_tables w w' \<and> (c = None \<or> c = Some (ptDID p) \<and> live_principal (wAcct w) p False)"
        using o l d d' cred a False
        by (cases y) (auto simp: optional_credential_def hbind_Inr_iff live_principal_def split: if_splits)
      then show ?thesis using tok by auto
    qed
  qed
qed

text \<open>The values of one header, in order.\<close>

definition header_values :: "string \<Rightarrow> (string \<times> string) list \<Rightarrow> string list" where
  "header_values k hs = map snd (filter (\<lambda>h. fst h = k) hs)"

lemma header_values_simps:
  "header_values k [] = []"
  "header_values k (h # hs) = (if fst h = k then snd h # header_values k hs else header_values k hs)"
  "header_values k (copyProxyHeaders hs) = (if k \<in> set hopByHopHeaders then [] else header_values k hs)"
  "header_values k (header_set n v hs) = (if k = n then [v] else header_values k hs)"
  by (auto simp: header_values_def header_set_def copyProxyHeaders_def filter_empty_conv
      intro!: arg_cong [where f = "map snd"] filter_cong)

lemma pick_service_https: "pick_service did sid svcs = Inr target \<Longrightarrow> has_prefix (tgURL target) ''https://'' \<and> tgDID target = did"
  by (induction svcs) (auto split: if_splits)

lemma target_https: "resolveProxyTarget sv rq = Inr target \<Longrightarrow> tgTrusted target \<or> has_prefix (tgURL target) ''https://''"
  by (auto simp: resolveProxyTarget_def Let_def dest: pick_service_https split: if_splits prod.splits sum.splits)

text \<open>A token is minted for a caller whose session is live only.\<close>

lemma proxy_token_some:
  assumes "proxy_token sv rq target lxm w = (Inr (Some minted), w')"
  shows "\<exists>tok p key. bearerToken rq = Some tok
    \<and> ParseAccessToken (svJwt sv) (svNow sv 0) (cfJWTSecret sv) tok = Inr p \<and> live_principal (wAcct w) p False
    \<and> svServiceAuth sv (ptDID p) target (60 * 1000000000) (Some lxm) key = Inr minted"
proof -
  obtain c0 w1 where o: "optionalAccessToken sv rq w = (Inr c0, w1)"
    and rest: "(case c0 of None \<Rightarrow> hret None | Some did \<Rightarrow> hbind (outcome (signingKeyFor sv did)) (\<lambda>k. hret (case k of
       Inl _ \<Rightarrow> None | Inr key \<Rightarrow> (case svServiceAuth sv did target proxyServiceAuthTTL (Some lxm) key of
         Inl _ \<Rightarrow> None | Inr minted \<Rightarrow> Some minted)))) w1 = (Inr (Some minted), w')"
    using assms unfolding proxy_token_def hbind_Inr_iff by blast
  obtain did where did: "c0 = Some did" using rest by (cases c0) auto
  obtain x w2 where x: "signingKeyFor sv did w1 = (x, w2)" by fastforce
  obtain key where "svServiceAuth sv did target (60 * 1000000000) (Some lxm) key = Inr minted"
    using rest did x by (cases x) (auto simp: hbind_def outcome_def proxyServiceAuthTTL_def nanos_def split: sum.splits)
  then show ?thesis using optionalAccessToken_run [OF o] did by auto
qed

lemma same_tables_reads: "reads m \<Longrightarrow> preserves (same_tables w0) (on_acct m)"
  using readsD by (intro preservesI) (fastforce simp: same_tables_def)

lemma proxy_token_tables: "keeps (same_tables w0) (proxy_token sv rq target lxm)"
  unfolding proxy_token_def optionalAccessToken_def optional_credential_def signingKeyFor_def
  by (intro ok_intros keeps_hbind reads_accounts [THEN same_tables_reads])

text \<open>C15. The proxy gives nothing away. The request goes to the service the caller named, over https, or to
  the configured AppView, with the caller's method, query and, for POST, body. The caller's headers pass
  with all their values, save the sixteen of connections, credentials, lengths and cached answers, the
  caller's own \<^verbatim>\<open>Authorization\<close> among them. The only credential that goes out is a bearer token minted for a
  caller whose session is live, addressed to the target, limited to the method and to a minute; and
  building the request changes no table.\<close>

theorem proxy_request_sound:
  assumes "proxy_request sv rq w = (Inr (target, out), w')"
  shows "same_tables w w' \<and> resolveProxyTarget sv rq = Inr target
    \<and> (tgTrusted target \<or> has_prefix (tgURL target) ''https://'')
    \<and> orMethod out = rqMethod rq \<and> orBody out = (if rqMethod rq = ''POST'' then rqBody rq else [])
    \<and> orURL out = trim_right (CHR ''/'') (tgURL target) @ ''/xrpc/'' @ trim_prefix (rqPath rq) ''/xrpc/''
        @ (if rqRawQuery rq = '''' then '''' else ''?'' @ rqRawQuery rq)
    \<and> (\<exists>minted.
        (\<forall>k. header_values k (orHeaders out) =
           (if k = ''User-Agent'' then [''robby-proxy'']
            else if k = ''Authorization'' then (case minted of None \<Rightarrow> [] | Some t \<Rightarrow> [''Bearer '' @ t])
            else if k \<in> {''Connection'', ''Keep-Alive'', ''Proxy-Authenticate'', ''Proxy-Authorization'', ''Te'', ''Trailer'',
              ''Transfer-Encoding'', ''Upgrade'', ''Content-Length'', ''If-None-Match'', ''If-Modified-Since'', ''If-Match'',
              ''If-Unmodified-Since'', ''If-Range'', ''Range''} then []
            else header_values k (rqHeaders rq)))
        \<and> (case minted of None \<Rightarrow> True | Some t \<Rightarrow>
            \<exists>tok p key lxm. bearerToken rq = Some tok
              \<and> ParseAccessToken (svJwt sv) (svNow sv 0) (cfJWTSecret sv) tok = Inr p \<and> live_principal (wAcct w) p False
              \<and> svParseNSID sv (trim_prefix (rqPath rq) ''/xrpc/'') = Inr lxm
              \<and> svServiceAuth sv (ptDID p) (tgDID target) (60 * 1000000000) (Some lxm) key = Inr t))"
proof -
  obtain lxm minted where m: "svParseNSID sv (trim_prefix (rqPath rq) ''/xrpc/'') = Inr lxm"
      "resolveProxyTarget sv rq = Inr target" "proxy_token sv rq (tgDID target) lxm w = (Inr minted, w')"
    and out: "orMethod out = rqMethod rq" "orURL out = proxy_url target (trim_prefix (rqPath rq) ''/xrpc/'') (rqRawQuery rq)"
      "orHeaders out = proxy_headers rq minted" "orBody out = (if rqMethod rq = ''POST'' then rqBody rq else [])"
    using assms by (auto simp: proxy_request_def Let_def hbind_Inr_iff)
  have hs: "header_values k (orHeaders out) =
      (if k = ''User-Agent'' then [''robby-proxy'']
       else if k = ''Authorization'' then (case minted of None \<Rightarrow> [] | Some t \<Rightarrow> [''Bearer '' @ t])
       else if k \<in> {''Connection'', ''Keep-Alive'', ''Proxy-Authenticate'', ''Proxy-Authorization'', ''Te'', ''Trailer'',
         ''Transfer-Encoding'', ''Upgrade'', ''Content-Length'', ''If-None-Match'', ''If-Modified-Since'', ''If-Match'',
         ''If-Unmodified-Since'', ''If-Range'', ''Range''} then []
       else header_values k (rqHeaders rq))" for k
    by (cases minted) (simp_all add: out proxy_headers_def header_values_simps hopByHopHeaders_def)
  have tok: "case minted of None \<Rightarrow> True | Some t \<Rightarrow>
      \<exists>tok p key lxm. bearerToken rq = Some tok
        \<and> ParseAccessToken (svJwt sv) (svNow sv 0) (cfJWTSecret sv) tok = Inr p \<and> live_principal (wAcct w) p False
        \<and> svParseNSID sv (trim_prefix (rqPath rq) ''/xrpc/'') = Inr lxm
        \<and> svServiceAuth sv (ptDID p) (tgDID target) (60 * 1000000000) (Some lxm) key = Inr t"
    using proxy_token_some m(1,3) by (cases minted) fastforce+
  show ?thesis
    using hs tok m(2) out target_https [OF m(2)] keepsE [OF proxy_token_tables m(3) same_tables_refl]
    by (auto simp: proxy_url_def)
qed

definition demo_forward :: request where
  "demo_forward = (demo_post ''access'')\<lparr>rqPath := ''/xrpc/app.x''\<rparr>"

lemma demo_forward_runs:
  "\<exists>target out w'. proxy_request demo_server demo_forward demo_home = (Inr (target, out), w')
     \<and> header_values ''Authorization'' (orHeaders out) = [''Bearer service-token'']"
proof -
  have fwd: "bearerToken demo_forward = Some ''access''" "header_get demo_forward ''Atproto-Proxy'' = ''''"
    "trim_prefix (rqPath demo_forward) ''/xrpc/'' = ''app.x''"
    by (simp_all add: demo_forward_def bearerToken_def header_get_def first_value_def demo_post_def has_prefix_def trim_prefix_def)
  have home: "demo_home\<lparr>wAcct := (wAcct demo_home)\<lparr>tape := []\<rparr>\<rparr> = demo_home"
    by (simp add: demo_home_def demo_world_def demo_db_def empty_acctdb_def)
  have opt: "optionalAccessToken demo_server demo_forward demo_home = (Inr (Some ''did:plc:a''), demo_home)"
    by (simp add: optionalAccessToken_def fwd demo_parse hbind_def outcome_def on_acct_def exec_simps GetAccountByDID_def
        scanAccount_def optional_credential_def home)
  have tok: "proxy_token demo_server demo_forward t ''app.x'' demo_home = (Inr (Some ''service-token''), demo_home)" for t
    by (simp add: proxy_token_def opt hbind_def outcome_def on_acct_def exec_simps GetAccountByDID_def scanAccount_def
        signingKeyFor_def liftE_def home)
  have req: "svNewRequest demo_server m u = Inr ()" for m u by (simp add: demo_server_def)
  show ?thesis
    by (simp add: proxy_request_def fwd resolveProxyTarget_def Let_def tok req hbind_def attempt_pure_def guard_def
        proxy_headers_def header_values_simps)
qed

text \<open>The caller's own token does not go out: the one that does was minted for its live session.\<close>

theorem proxy_request_sound_witness:
  "\<exists>target out w' t tok p key. proxy_request demo_server demo_forward demo_home = (Inr (target, out), w')
     \<and> header_values ''Authorization'' (orHeaders out) = [''Bearer '' @ t] \<and> bearerToken demo_forward = Some tok
     \<and> ParseAccessToken (svJwt demo_server) (svNow demo_server 0) (cfJWTSecret demo_server) tok = Inr p
     \<and> live_principal (wAcct demo_home) p False
     \<and> svServiceAuth demo_server (ptDID p) (tgDID target) (60 * 1000000000) (Some ''app.x'') key = Inr t"
proof -
  obtain target out w' where run: "proxy_request demo_server demo_forward demo_home = (Inr (target, out), w')"
    and auth: "header_values ''Authorization'' (orHeaders out) = [''Bearer service-token'']"
    using demo_forward_runs by blast
  have lxm: "svParseNSID demo_server (trim_prefix (rqPath demo_forward) ''/xrpc/'') = Inr ''app.x''"
    by (simp add: demo_forward_def demo_server_def trim_prefix_def has_prefix_def)
  have name: "''Authorization'' \<noteq> ''User-Agent''" by simp
  obtain minted where m: "header_values ''Authorization'' (orHeaders out) = (case minted of None \<Rightarrow> [] | Some t \<Rightarrow> [''Bearer '' @ t])"
    and ok: "case minted of None \<Rightarrow> True | Some t \<Rightarrow> \<exists>tok p key lxm. bearerToken demo_forward = Some tok
              \<and> ParseAccessToken (svJwt demo_server) (svNow demo_server 0) (cfJWTSecret demo_server) tok = Inr p
              \<and> live_principal (wAcct demo_home) p False
              \<and> svParseNSID demo_server (trim_prefix (rqPath demo_forward) ''/xrpc/'') = Inr lxm
              \<and> svServiceAuth demo_server (ptDID p) (tgDID target) (60 * 1000000000) (Some lxm) key = Inr t"
    using proxy_request_sound [OF run] name by (elim conjE exE) presburger
  obtain t where t: "minted = Some t" using m auth by (cases minted) auto
  show ?thesis using run m ok lxm by (auto simp: t)
qed

end
