(* ===== verification/IdentitySpec.thy ===== *)
theory IdentitySpec
  imports HandlerSpec
begin

text \<open>
  A change of handle touches nothing else of the identity: the operation that goes to the PLC directory
  takes over every other field of the last one, and the local row and the firehose follow.
\<close>

lemma SetHandle_run:
  assumes "SetHandle did h d = (Inr (), d')"
  shows "acct_lookup (accounts d') x = map_option (\<lambda>a. if acDID a = did then a\<lparr>acHandle := h\<rparr> else a) (acct_lookup (accounts d) x)"
  using assms
  by (cases "acct_lookup (accounts d) x")
     (auto simp: SetHandle_def gobind_Inr_iff exec_update_def stmt_Inr_iff checkRowsAffected_def
      dest!: sql_updateD dest: acct_lookup_SomeD split: sum.splits prod.splits if_splits)

lemma append_event_run:
  assumes "append_event sv now did e w = (Inr (), w')" "seq_inv (wSeq w)"
  shows "last_seq (wSeq w') = last_seq (wSeq w) + 1 \<and> wSent w' = wSent w \<and> wAcct w' = wAcct w"
proof -
  obtain sq d where a: "Append (w_cbor (svWire sv)) (w_fmt (svWire sv)) now did e (wSeq w) = (Inr sq, d)"
    "w' = w\<lparr>wSeq := d\<rparr>"
    using assms(1) by (auto simp: append_event_def gobind_Inr_iff)
  then show ?thesis using Append_ok [OF a(1) assms(2)] by auto
qed

lemma Submit_run:
  "Submit sv did sop w = (Inr (), w') \<Longrightarrow> w' = log_sent (plc_url sv did) (DMap sop) w"
  by (auto simp: Submit_def split: sum.splits if_splits)

text \<open>C16. Changing the handle changes nothing else. A successful \<^verbatim>\<open>updateHandle\<close> sends exactly one operation
  to the PLC directory, signed with the account's rotation key on top of the last operation of its DID: the
  rotation keys, verification methods and services of that operation and the new handle. In the account's row
  only the handle changes, no other row changes, and one event follows.\<close>

theorem update_handle_keeps_identity:
  assumes "handleUpdateHandle sv rq w = (r, w')" "rsStatus r = 200" "seq_inv (wSeq w)"
  shows "\<exists>did a h key prev lastOp sop. token_of sv rq did \<and> acct_lookup (accounts (wAcct w)) did = Some a
    \<and> svParseKey sv (acRotationKey a) = Inr key \<and> GetLastOp sv did = Inr (prev, lastOp)
    \<and> SignOp sv key (Some prev) \<lparr>ofRotationKeys = toStringSlice (json_value lastOp ''rotationKeys''),
         ofVerificationMethods = toMap (json_value lastOp ''verificationMethods''), ofAlsoKnownAs = [''at://'' @ h],
         ofServices = toMap (json_value lastOp ''services'')\<rparr> = Inr sop
    \<and> wSent w' = wSent w @ [(plc_url sv did, DMap sop)]
    \<and> (\<forall>x. acct_lookup (accounts (wAcct w')) x =
         (if x = did then Some (a\<lparr>acHandle := h\<rparr>) else acct_lookup (accounts (wAcct w)) x))
    \<and> last_seq (wSeq w') = last_seq (wSeq w) + 1"
proof -
  obtain did w1 h u w2 key prev lastOp w3 sop w4 w5 where
    q: "requirePrivilegedAccessToken sv rq w = (Inr did, w1)" and
    l: "on_acct (GetAccountByHandle h) w1 = (u, w2)" and
    p: "plc_state sv did w2 = (Inr (key, prev, lastOp), w3)" and
    s: "SignOp sv key (Some prev) (update_fields lastOp h) = Inr sop" and
    b: "Submit sv did sop w3 = (Inr (), w4)" and
    h: "on_acct (SetHandle did h) w4 = (Inr (), w5)" and
    e: "emitIdentityEvent sv (svNow sv 1) did h w5 = (Inr (), w')"
    using assms(1) unfolding handleUpdateHandle_def
  proof (rule serve_okE [OF _ assms(2)], goal_cases)
    case 1
    show ?case unfolding plc_state_def by (intro stops_intros; simp)
  next
    case 2
    then show ?case by (auto simp: hbind_Inr_iff simp del: on_acct_eq)
  qed
  note c = require_caller(2) [OF q]
  obtain t where t: "w2 = w\<lparr>wAcct := (wAcct w)\<lparr>tape := t\<rparr>\<rparr>"
    using c l readsD [OF reads_accounts(2)] by (fastforce simp: same_tables_def)
  obtain a t' where a: "acct_lookup (accounts (wAcct w)) did = Some a" "svParseKey sv (acRotationKey a) = Inr key"
    "GetLastOp sv did = Inr (prev, lastOp)" "w3 = w\<lparr>wAcct := (wAcct w)\<lparr>tape := t'\<rparr>\<rparr>"
    using p t by (auto simp: plc_state_def hbind_Inr_iff dest!: GetAccountByDID_ok)
  have w4: "w4 = log_sent (plc_url sv did) (DMap sop) w3" using Submit_run [OF b] .
  obtain d5 where d5: "SetHandle did h (wAcct w4) = (Inr (), d5)" "w5 = w4\<lparr>wAcct := d5\<rparr>" using h by auto
  have acct: "acct_lookup (accounts (wAcct w5)) x =
      (if x = did then Some (a\<lparr>acHandle := h\<rparr>) else acct_lookup (accounts (wAcct w)) x)" for x
    using SetHandle_run [OF d5(1), of x] d5(2) w4 a(1,4)
    by (cases "acct_lookup (accounts (wAcct w)) x") (auto simp: log_sent_def dest: acct_lookup_SomeD)
  have ev: "last_seq (wSeq w') = last_seq (wSeq w) + 1 \<and> wSent w' = wSent w5 \<and> wAcct w' = wAcct w5"
    using append_event_run [OF e [unfolded emitIdentityEvent_def]] d5(2) w4 a(4) assms(3) by (simp add: log_sent_def)
  have "wSent w' = wSent w @ [(plc_url sv did, DMap sop)]" using ev d5(2) w4 a(4) by (simp add: log_sent_def)
  then show ?thesis
    using c a(1-3) s acct ev
    by (intro exI [of _ did] exI [of _ a] exI [of _ h] exI [of _ key] exI [of _ prev] exI [of _ lastOp] exI [of _ sop])
       (simp add: update_fields_def)
qed

text \<open>A caller who becomes \<^verbatim>\<open>b.test\<close>, on a directory that has one operation for its DID.\<close>

definition demo_handle_json :: "bytes \<Rightarrow> json_read" where
  "demo_handle_json b = (if b = [] then JsonEOF else if b = [1] then JsonVal (DMap [(''handle'', DStr ''b.test'')]) []
     else JsonVal (DList [DMap [(''cid'', DStr ''c0''), (''operation'', DMap [(''rotationKeys'', DList [DStr ''rk''])])]]) [])"

definition demo_directory :: "((string \<times> cid) list, string) server" where
  "demo_directory = demo_server\<lparr>svJson := demo_handle_json, svPlcGet := \<lambda>url. Inr (200, [2])\<rparr>"

lemma demo_entry:
  "str_field ''cid'' (DMap [(''cid'', DStr ''c0''), (''operation'', DMap [(''rotationKeys'', DList [DStr ''rk''])])]) = Some ''c0''"
  "field as_map [] ''operation'' (DMap [(''cid'', DStr ''c0''), (''operation'', DMap [(''rotationKeys'', DList [DStr ''rk''])])])
    = Some [(''rotationKeys'', DList [DStr ''rk''])]"
  "str_field ''handle'' (DMap [(''handle'', DStr ''b.test'')]) = Some ''b.test''"
  by code_simp+

lemma demo_last_op: "GetLastOp demo_directory did = Inr (''c0'', [(''rotationKeys'', DList [DStr ''rk''])])"
  by (simp add: GetLastOp_def demo_directory_def demo_server_def demo_handle_json_def read_audit_log_def Let_def
      read_entry_def last_op_def demo_entry)

lemma demo_directory_principal:
  "requirePrincipal demo_directory rq priv ad w = requirePrincipal (demo_server\<lparr>svJson := demo_handle_json\<rparr>) rq priv ad w"
  by (simp add: requirePrincipal_def demo_directory_def bearer_def)

text \<open>An identity event on an empty log, and the run of the handler.\<close>

lemma demo_identity_event:
  "fst (emitIdentityEvent demo_directory now did h (w\<lparr>wSeq := empty_seqdb []\<rparr>)) = Inr ()"
  by (simp add: emitIdentityEvent_def append_event_def on_seq_def Append_def append_tx_def with_tx_def insert_event_def SeqOf_def
      update_event_def trimLocked_def Serialize_def both_def writeCBOR_def frame_header_def liftE_def no_event_def demo_directory_def
      demo_wire_def demo_cbor_def empty_seqdb_def exec_simps)

lemma demo_update_runs: "rsStatus (fst (handleUpdateHandle demo_directory (demo_post ''access'') demo_home)) = 200"
proof -
  have d: "svJson demo_directory = demo_handle_json" "svParseHandle demo_directory = Inr"
    "svNow demo_directory i = 5000000000" "svWire demo_directory = demo_wire" "svParseKey demo_directory = Inr" for i
    by (simp_all add: demo_directory_def demo_server_def)
  have j: "decodeJSON demo_handle_json (demo_post tok) = Some (DMap [(''handle'', DStr ''b.test'')])" for tok
    by (simp add: decodeJSON_def demo_handle_json_def demo_post_def maxJSONBodyBytes_def)
  have s: "SignOp demo_directory k p f = Inr (unsigned_op p f @ [(''sig'', DStr (base64url_encode []))])" for k p f
    by (simp add: SignOp_def demo_directory_def demo_server_def)
  have b: "Submit demo_directory did sop w = (Inr (), log_sent (plc_url demo_directory did) (DMap sop) w)" for did sop w
    by (simp add: Submit_def demo_directory_def demo_server_def)
  have q: "w = w\<lparr>wSeq := empty_seqdb []\<rparr>" if "wSeq w = wSeq demo_home" for w
    using that by (cases w) (simp add: demo_home_def demo_world_def)
  have e: "\<exists>w'. emitIdentityEvent demo_directory now did h w = (Inr (), w')" if "wSeq w = wSeq demo_home" for now did h w
    using demo_identity_event [of now did h w] q [OF that] by (metis prod.collapse)
  have u: "\<exists>d. SetHandle ''did:plc:a'' h (wAcct demo_home) = (Inr (), d)" for h
    by (simp add: SetHandle_def exec_simps sql_update_def)
  obtain d' where d': "SetHandle ''did:plc:a'' ''b.test'' (wAcct demo_home) = (Inr (), d')" using u by blast
  have t: "wAcct demo_home\<lparr>tape := []\<rparr> = wAcct demo_home" by (simp add: demo_home_def demo_world_def demo_db_def empty_acctdb_def)
  define w where "w = demo_home\<lparr>wSent := wSent demo_home @ [(plc_url demo_directory ''did:plc:a'',
    DMap (unsigned_op (Some ''c0'') (update_fields [(''rotationKeys'', DList [DStr ''rk''])] ''b.test'') @
      [(''sig'', DStr (base64url_encode []))]))], wAcct := d'\<rparr>"
  obtain w' where w': "emitIdentityEvent demo_directory 5000000000 ''did:plc:a'' ''b.test'' w = (Inr (), w')"
    using e [of w] that by (fastforce simp: w_def)
  show ?thesis
    using w' unfolding w_def
    by (simp add: t handleUpdateHandle_def requirePrivilegedAccessToken_def demo_directory_principal demo_principal handler_simps d j
        exec_simps GetAccountByHandle_def GetAccountByDID_def scanAccount_def taken_by_other_def plc_state_def demo_last_op s b
        log_sent_def demo_entry d' empty_object_def writeJSON_def)
qed

theorem update_handle_keeps_identity_witness:
  "length (wSent (snd (handleUpdateHandle demo_directory (demo_post ''access'') demo_home))) = length (wSent demo_home) + 1"
proof -
  have "seq_inv (wSeq demo_home)" by (simp add: seq_inv_def demo_home_def demo_world_def empty_seqdb_def)
  from update_handle_keeps_identity [OF prod.collapse [symmetric] demo_update_runs this]
  show ?thesis by (elim exE conjE) simp
qed

end
