(* ===== verification/RaceSpec.thy ===== *)
theory RaceSpec
  imports IdentitySpec
begin

text \<open>
  Two handlers at once. The server runs every request in its own goroutine, and the database serialises
  statements, not handlers: between the check of the caller's account and the update that follows, another
  request can run to its end.
\<close>

text \<open>What \<^verbatim>\<open>activateAccount\<close> does after it has admitted the caller.\<close>

definition activate_rest :: "('t, 'k) server \<Rightarrow> string \<Rightarrow> (world, response) hd_step" where
  "activate_rest sv did =
     hbind (attempt (actors_Get sv did) (\<lambda>_. open_failed)) (\<lambda>_.
     hbind (attempt (actor_op did GetRepoRoot)
       (\<lambda>_. InvalidRequest ''account has no repo yet; import one before activating'')) (\<lambda>_.
     hbind (attempt (on_acct (ActivateAccount did)) (\<lambda>_. account_not_found)) (\<lambda>_.
     hbind (attempt (emitAccountEvent sv (svNow sv 1) did True None) (\<lambda>_. account_event_failed)) (\<lambda>_.
     hret empty_object))))"

lemma activate_split: "handleActivateAccount sv rq = serve (hbind (requireMigrationAccessToken sv rq) (activate_rest sv))"
  by (simp add: handleActivateAccount_def activate_rest_def [abs_def])

section \<open>The rows that the two handlers write\<close>

lemma update_account_run:
  assumes "gobind (wrapf m (exec_update accounts accounts_update account_clash (\<lambda>a. acDID a = did) f)) checkRowsAffected d = (Inr (), d')"
    and "\<And>a. acDID (f a) = acDID a" "acct_lookup (accounts d) did = Some a"
  shows "acct_lookup (accounts d') did = Some (f a)"
  using assms
  by (auto simp: gobind_Inr_iff exec_update_def stmt_Inr_iff checkRowsAffected_def
      dest!: sql_updateD dest: acct_lookup_SomeD split: sum.splits prod.splits if_splits)

lemma emitAccountEvent_accounts: "emitAccountEvent sv now did b st w = (r, w') \<Longrightarrow> wAcct w' = wAcct w"
  by (auto simp: emitAccountEvent_def append_event_def gobind_def split: prod.splits sum.splits)

lemma actors_Get_accounts: "actors_Get sv did w = (r, w') \<Longrightarrow> wAcct w' = wAcct w"
  by (auto simp: actors_Get_def)

lemma actor_op_accounts: "actor_op did m w = (r, w') \<Longrightarrow> wAcct w' = wAcct w"
  by (auto simp: actor_op_def)

lemma activate_rest_run:
  assumes "activate_rest sv did w = (Inr r, w')" "acct_lookup (accounts (wAcct w)) did = Some a"
  shows "acct_lookup (accounts (wAcct w')) did = Some (a\<lparr>acStatus := StatusActive\<rparr>)"
proof -
  obtain w1 x w2 w3 where s: "actors_Get sv did w = (Inr (), w1)" "actor_op did GetRepoRoot w1 = (Inr x, w2)"
    "on_acct (ActivateAccount did) w2 = (Inr (), w3)" "emitAccountEvent sv (svNow sv 1) did True None w3 = (Inr (), w')"
    using assms(1) by (auto simp: activate_rest_def hbind_Inr_iff simp del: on_acct_eq)
  have "wAcct w2 = wAcct w" using actors_Get_accounts [OF s(1)] actor_op_accounts [OF s(2)] by simp
  then obtain d where d: "ActivateAccount did (wAcct w) = (Inr (), d)" "wAcct w3 = d" using s(3) by auto
  have "acct_lookup (accounts d) did = Some (a\<lparr>acStatus := StatusActive\<rparr>)"
    using update_account_run [OF d(1) [unfolded ActivateAccount_def]] assms(2) by simp
  then show ?thesis using emitAccountEvent_accounts [OF s(4)] d(2) by simp
qed

lemma takedown_run:
  assumes "handleAdminTakedownAccount sv rq w = (r, w')" "rsStatus r = 200"
    and "Option.bind (decodeJSON (svJson sv) rq) (str_field ''did'') = Some did"
    and "acct_lookup (accounts (wAcct w)) did = Some a"
  shows "acct_lookup (accounts (wAcct w')) did = Some (a\<lparr>acStatus := StatusTakenDown, acAuthVersion := acAuthVersion a + 1\<rparr>)"
proof -
  obtain w1 x w2 where s: "on_acct (SetStatus did StatusTakenDown) w = (Inr (), w1)"
    "on_acct (DeleteRefreshTokensForDID did) w1 = (x, w2)" "emitAccountEvent sv (svNow sv 0) did False (Some StatusTakenDown) w2 = (Inr (), w')"
    using assms(1) unfolding handleAdminTakedownAccount_def admin_takedown_def
  proof (rule serve_okE [OF _ assms(2)], goal_cases)
    case 1
    show ?case unfolding change_status_def by (intro stops_intros; simp)
  next
    case 2
    then show ?case using assms(3)
      by (auto simp: hbind_Inr_iff change_status_def decode_body_def bind_eq_Some_conv split: option.splits simp del: on_acct_eq)
  qed
  obtain d where d: "SetStatus did StatusTakenDown (wAcct w) = (Inr (), d)" "wAcct w1 = d" using s(1) by auto
  have "acct_lookup (accounts d) did = Some (a\<lparr>acStatus := StatusTakenDown, acAuthVersion := acAuthVersion a + 1\<rparr>)"
    using update_account_run [OF d(1) [unfolded SetStatus_def]] assms(4) by simp
  moreover have "accounts (wAcct w2) = accounts (wAcct w1)"
    using s(2) by (auto simp: DeleteRefreshTokensForDID_def exec_delete_def gobind_def wrapf_def stmt_def Let_def split: if_splits)
  ultimately show ?thesis using emitAccountEvent_accounts [OF s(3)] d(2) by simp
qed

text \<open>C4. A takedown can be undone by a request that began before it. If an account whose owner may activate it is
  taken down after \<^verbatim>\<open>activateAccount\<close> has admitted the owner and before it goes on, both requests succeed and
  the account ends up active, with its password and a session version that new logins get: the update is not
  conditional on the status that was checked.\<close>

theorem activation_undoes_takedown:
  assumes "requireMigrationAccessToken sv rq w0 = (Inr did, w1)"
    and "handleAdminTakedownAccount sv' rq' w1 = (r', w2)" "rsStatus r' = 200"
    and "Option.bind (decodeJSON (svJson sv') rq') (str_field ''did'') = Some did"
    and "activate_rest sv did w2 = (Inr r, w3)" "acct_lookup (accounts (wAcct w0)) did = Some a"
  shows "(\<exists>b. acct_lookup (accounts (wAcct w2)) did = Some b \<and> acStatus b = StatusTakenDown)
    \<and> acct_lookup (accounts (wAcct w3)) did = Some (a\<lparr>acStatus := StatusActive, acAuthVersion := acAuthVersion a + 1\<rparr>)
    \<and> handleActivateAccount sv rq = serve (hbind (requireMigrationAccessToken sv rq) (activate_rest sv))"
proof -
  have "acct_lookup (accounts (wAcct w1)) did = Some a"
    using require_caller(3) [OF assms(1)] assms(6) by (auto simp: same_tables_def)
  then have t: "acct_lookup (accounts (wAcct w2)) did = Some (a\<lparr>acStatus := StatusTakenDown, acAuthVersion := acAuthVersion a + 1\<rparr>)"
    using takedown_run [OF assms(2-4)] by simp
  then show ?thesis using activate_rest_run [OF assms(5) t] activate_split by simp
qed

section \<open>On the example server\<close>

lemma demo_append:
  assumes "tape d = []" "last_seq d < 1000"
  shows "\<exists>sq d'. Append (w_cbor demo_wire) (w_fmt demo_wire) now did (no_event\<lparr>RepoAccount := Some m\<rparr>) d = (Inr sq, d')
     \<and> tape d' = [] \<and> last_seq d' = last_seq d + 1"
  using assms
  by (simp add: Append_def append_tx_def with_tx_def insert_event_def SeqOf_def update_event_def trimLocked_def Serialize_def
      both_def writeCBOR_def frame_header_def liftE_def no_event_def demo_wire_def demo_cbor_def broadcast_def exec_simps)

lemma demo_account_event:
  assumes "tape (wSeq w) = []" "last_seq (wSeq w) < 1000" "svWire sv = demo_wire"
  obtains d' where "emitAccountEvent sv now did b st w = (Inr (), w\<lparr>wSeq := d'\<rparr>)" "tape d' = []" "last_seq d' = last_seq (wSeq w) + 1"
proof -
  obtain sq d' where "Append (w_cbor demo_wire) (w_fmt demo_wire) now did (no_event\<lparr>RepoAccount := Some
      \<lparr>amDid = did, amActive = b, amStatus = st, amTime = time_text sv now, amSeq = 0\<rparr>\<rparr>) (wSeq w) = (Inr sq, d')"
    "tape d' = []" "last_seq d' = last_seq (wSeq w) + 1"
    using demo_append [OF assms(1,2)] by blast
  then show thesis
    using that assms(3) by (simp add: emitAccountEvent_def append_event_def on_seq_def gobind_def)
qed

definition demo_repo :: actordb where
  "demo_repo = (empty_actordb [])\<lparr>repo_root := Some \<lparr>rrCommitCID = ''c'', rrRev = ''r''\<rparr>\<rparr>"

definition demo_did_json :: data where
  "demo_did_json = DMap [(''did'', DStr ''did:plc:a'')]"

lemma demo_did_read: "str_field ''did'' demo_did_json = Some ''did:plc:a''"
  by code_simp

theorem activation_undoes_takedown_witness:
  "\<exists>w2 w3 a. snd (handleAdminTakedownAccount (demo_server\<lparr>svJson := demo_json demo_did_json\<rparr>) (demo_post ''x'') (demo_opened demo_repo)) = w2
     \<and> snd (activate_rest demo_server ''did:plc:a'' w2) = w3
     \<and> acct_lookup (accounts (wAcct w3)) ''did:plc:a'' = Some a \<and> acStatus a = StatusActive"
proof -
  let ?sv = "demo_server\<lparr>svJson := demo_json demo_did_json\<rparr>" and ?w = "demo_opened demo_repo"
  have p: "requireMigrationAccessToken demo_server (demo_post ''access'') ?w = (Inr ''did:plc:a'', ?w)"
    using demo_principal_opened [of "svJson demo_server" "True" True demo_repo] by (simp add: requireMigrationAccessToken_def hbind_def)
  define D where "D = \<lparr>tape = [], accounts = [demo_user\<lparr>acStatus := StatusTakenDown, acAuthVersion := 2\<rparr>], refresh_tokens = [],
    app_passwords = [], reserved_signing_keys = [], admin_tokens = []\<rparr>"
  have db: "wAcct ?w = \<lparr>tape = [], accounts = [demo_user], refresh_tokens = [demo_refresh ''3030''], app_passwords = [],
      reserved_signing_keys = [], admin_tokens = []\<rparr>" "wSeq ?w = empty_seqdb []"
    by (simp_all add: demo_opened_def demo_home_def demo_world_def demo_db_def empty_acctdb_def)
  have sd: "\<exists>d1. SetStatus ''did:plc:a'' StatusTakenDown (wAcct ?w) = (Inr (), d1) \<and> DeleteRefreshTokensForDID ''did:plc:a'' d1 = (Inr (), D)"
    by (simp add: db SetStatus_def DeleteRefreshTokensForDID_def exec_simps sql_update_def D_def demo_refresh_def)
  obtain d1 where d1: "SetStatus ''did:plc:a'' StatusTakenDown (wAcct ?w) = (Inr (), d1)"
    "DeleteRefreshTokensForDID ''did:plc:a'' d1 = (Inr (), D)" using sd by blast
  obtain q where q: "emitAccountEvent ?sv 5000000000 ''did:plc:a'' False (Some StatusTakenDown) (?w\<lparr>wAcct := D\<rparr>)
      = (Inr (), ?w\<lparr>wAcct := D, wSeq := q\<rparr>)" "tape q = []" "last_seq q = 1"
    using demo_account_event [of "?w\<lparr>wAcct := D\<rparr>" ?sv 5000000000 "''did:plc:a''" False "Some StatusTakenDown"]
    by (auto simp: db(2) empty_seqdb_def)
  have t: "handleAdminTakedownAccount ?sv (demo_post ''x'') ?w = (empty_object, ?w\<lparr>wAcct := D, wSeq := q\<rparr>)"
    by (simp add: handleAdminTakedownAccount_def admin_takedown_def handler_simps demo_did_read change_status_def d1 q(1))
  have ok: "rsStatus empty_object = 200" by (simp add: empty_object_def writeJSON_def)
  define w2 where "w2 = ?w\<lparr>wAcct := D, wSeq := q\<rparr>"
  obtain d3 where d3: "ActivateAccount ''did:plc:a'' D = (Inr (), d3)"
    by (simp add: ActivateAccount_def exec_simps sql_update_def D_def)
  obtain q' where q': "emitAccountEvent demo_server 5000000000 ''did:plc:a'' True None (w2\<lparr>wAcct := d3\<rparr>)
      = (Inr (), w2\<lparr>wAcct := d3, wSeq := q'\<rparr>)"
    using demo_account_event [of "w2\<lparr>wAcct := d3\<rparr>" demo_server 5000000000 "''did:plc:a''" True None] q(2,3)
    by (auto simp: w2_def)
  have a: "activate_rest demo_server ''did:plc:a'' w2 = (Inr empty_object, w2\<lparr>wAcct := d3, wSeq := q'\<rparr>)"
  proof -
    have m: "wMgr w2 = \<lparr>tape = [], disk = [''did:plc:a'' \<mapsto> demo_repo], fresh = (\<lambda>_. []), blob_dirs = [''did:plc:a''], cached = [''did:plc:a''], locks = []\<rparr>"
      "wAcct w2 = D" by (simp_all add: w2_def demo_opened_def)
    have g: "actors_Get demo_server ''did:plc:a'' w2 = (Inr (), w2)"
      by (simp add: actors_Get_def on_mgr_def mgr_Get_def demo_valid m)
    have o: "actor_op ''did:plc:a'' GetRepoRoot w2 = (Inr \<lparr>rrCommitCID = ''c'', rrRev = ''r''\<rparr>, w2)"
      by (simp add: actor_op_def on_actor_def on_mgr_def m GetRepoRoot_def exec_simps demo_repo_def empty_actordb_def)
    show ?thesis by (simp add: activate_rest_def handler_simps g o m d3 q')
  qed
  have u: "acct_lookup (accounts (wAcct ?w)) ''did:plc:a'' = Some demo_user"
    by (simp add: demo_opened_def acct_lookup_def)
  have d: "Option.bind (decodeJSON (svJson ?sv) (demo_post ''x'')) (str_field ''did'') = Some ''did:plc:a''"
    by (simp add: demo_did_read)
  show ?thesis
    using activation_undoes_takedown [OF p t ok d a [unfolded w2_def] u] t a by (auto simp: w2_def)
qed

end
