(* ===== verification/WriteErrors.thy ===== *)
theory WriteErrors
  imports HandlerSpec
begin

text \<open>
  What a client learns from a write that failed. \<^verbatim>\<open>writeWriteError\<close> tells a missing record from other
  errors by comparing the error with \<^verbatim>\<open>actorstore.ErrNotFound\<close>; the write path wraps that error.
\<close>

section \<open>Operations that never return the bare sentinel\<close>

definition no_sentinel :: "('s, 'a) op \<Rightarrow> bool" where
  "no_sentinel m \<longleftrightarrow> (\<forall>s s'. m s \<noteq> (Inl ActorErrNotFound, s'))"

named_theorems sentinel_intros \<open>rules on the errors an operation may return\<close>

lemma no_sentinel_basic [sentinel_intros]:
  "no_sentinel (goret x)" "e \<noteq> ActorErrNotFound \<Longrightarrow> no_sentinel (gofail e)" "no_sentinel (wrapf t m)"
  "r \<noteq> Inl ActorErrNotFound \<Longrightarrow> no_sentinel (liftE r)"
  by (auto simp: no_sentinel_def wrapf_def liftE_def split: sum.splits prod.splits)

lemma no_sentinel_gobind [sentinel_intros]: "no_sentinel m \<Longrightarrow> (\<And>x. no_sentinel (k x)) \<Longrightarrow> no_sentinel (gobind m k)"
  by (auto simp: no_sentinel_def gobind_def split: sum.splits prod.splits)

lemma no_sentinel_stmt [sentinel_intros]: "no_sentinel m \<Longrightarrow> no_sentinel (stmt m)"
  by (auto simp: no_sentinel_def stmt_def Let_def)

lemma no_sentinel_with_tx [sentinel_intros]: "no_sentinel m \<Longrightarrow> no_sentinel (with_tx id (Wrapf t) m)"
  by (auto simp: no_sentinel_def with_tx_def stmt_def Let_def split: sum.splits prod.splits if_splits)

lemma no_sentinel_case_prod [sentinel_intros]: "(\<And>a b. no_sentinel (f a b)) \<Longrightarrow> no_sentinel (case y of (a, b) \<Rightarrow> f a b)"
  by (simp split: prod.split)

lemma no_sentinel_applyAll [sentinel_intros]: "no_sentinel (applyAll lib xs st)"
  by (induction xs arbitrary: st) (auto intro!: sentinel_intros)

section \<open>The write path\<close>

text \<open>The libraries know nothing of the sentinel, a value of this program.\<close>

definition foreign_errors :: "('t, 'k) repo_lib \<Rightarrow> bool" where
  "foreign_errors lib \<longleftrightarrow> (\<forall>b. cid_sum lib b \<noteq> Inl ActorErrNotFound) \<and> (\<forall>b c. new_block lib b c \<noteq> Inl ActorErrNotFound)"

lemma no_sentinel_write_commit [sentinel_intros]:
  assumes "foreign_errors lib"
  shows "no_sentinel (write_commit lib did key xs t k since prev)"
  using assms unfolding write_commit_def foreign_errors_def SetRepoRoot_def
  by (intro sentinel_intros) auto

lemma no_sentinel_apply_locked:
  assumes "foreign_errors lib"
  shows "no_sentinel (apply_locked lib ts did key xs)"
proof -
  have "no_sentinel (gobind (loadTree lib c) (\<lambda>(tree, pc). with_tx id (Wrapf ''committing repo write'')
      (write_commit lib did key xs tree (f pc) (g pc) (h pc))))" for c f g h
    unfolding loadTree_def by (intro sentinel_intros assms)
  moreover have "no_sentinel (with_tx id (Wrapf ''committing repo write'') (write_commit lib did key xs t k since prev))" for t k since prev
    by (intro sentinel_intros assms)
  ultimately show ?thesis
    unfolding no_sentinel_def apply_locked_def by (auto split: sum.splits prod.splits)
qed

lemma no_sentinel_ApplyWrites:
  assumes "foreign_errors lib"
  shows "no_sentinel (ApplyWrites lib wl parse ts now did key xs)"
proof -
  have "no_sentinel (mgr_Get parse d)" for d
    by (auto simp: no_sentinel_def mgr_Get_def validDID_def gobind_Inl_iff wrapf_def split: sum.splits prod.splits if_splits)
  moreover have "no_sentinel (on_actor did (apply_locked lib ts did key xs))"
    using no_sentinel_apply_locked [OF assms] by (auto simp: no_sentinel_def on_actor_def split: option.splits prod.splits)
  ultimately have "no_sentinel (gobind (mgr_Get parse did) (\<lambda>_. on_actor did (apply_locked lib ts did key xs)))"
    by (intro sentinel_intros)
  then have "no_sentinel (on_mgr (WithLock parse did (apply_locked lib ts did key xs)))"
    by (auto simp: no_sentinel_def WithLock_def)
  then show ?thesis unfolding ApplyWrites_def by (intro sentinel_intros)
qed

section \<open>The answers\<close>

abbreviation record_missing :: response where
  "record_missing \<equiv> writeXRPCError 400 ''RecordNotFound'' ''record not found''"

definition avoids :: "response \<Rightarrow> ('s, 'a) hd_step \<Rightarrow> bool" where
  "avoids r m \<longleftrightarrow> (\<forall>s s'. m s \<noteq> (Inl r, s'))"

lemma avoids_hbind: "avoids r m \<Longrightarrow> (\<And>x. avoids r (k x)) \<Longrightarrow> avoids r (hbind m k)"
  unfolding avoids_def hbind_Inl_iff by blast

lemma avoids_status: "stops_with S m \<Longrightarrow> rsStatus r \<notin> S \<Longrightarrow> avoids r m"
  unfolding avoids_def stops_with_def by blast

lemma avoids_attempt: "(\<And>s e s'. m s = (Inl e, s') \<Longrightarrow> f e \<noteq> r) \<Longrightarrow> avoids r (attempt m f)"
  unfolding avoids_def attempt_Inl_iff by blast

lemma avoids_attempt_pure: "(\<And>e. f e \<noteq> r) \<Longrightarrow> avoids r (attempt_pure x f)"
  unfolding avoids_def attempt_pure_Inl_iff by blast

lemma invalid_not_missing: "InvalidRequest m \<noteq> record_missing"
  by (simp add: writeXRPCError_def writeJSON_def)

lemma avoids_apply_as:
  assumes "foreign_errors (svLib sv)"
  shows "avoids record_missing (apply_as sv did ops)"
  unfolding apply_as_def
proof (intro avoids_hbind avoids_attempt)
  show "writeWriteError e \<noteq> record_missing" if "ApplyWrites (svLib sv) (svWire sv) (svParseDid sv) (svTid sv) (svNow sv 1) did key ops s = (Inl e, s')" for key s e s'
    using that no_sentinel_ApplyWrites [OF assms] invalid_not_missing unfolding no_sentinel_def writeWriteError_def by metis
qed (simp add: writeXRPCError_def writeJSON_def)

lemma avoids_requireOwnRepo: "avoids record_missing (requireOwnRepo sv rq repo)"
  by (rule avoids_status [of "{401, 403, 404}"]) (auto simp: requireOwnRepo_def intro!: stops_intros)

text \<open>The answer of a handler that ran through.\<close>

definition yields :: "('a \<Rightarrow> bool) \<Rightarrow> ('s, 'a) hd_step \<Rightarrow> bool" where
  "yields P m \<longleftrightarrow> (\<forall>s x s'. m s = (Inr x, s') \<longrightarrow> P x)"

lemma yields_intros: "P x \<Longrightarrow> yields P (hret x)" "(\<And>x. yields P (k x)) \<Longrightarrow> yields P (hbind m k)"
  by (auto simp: yields_def hbind_Inr_iff)

lemma serve_avoids: "avoids r m \<Longrightarrow> yields (\<lambda>x. rsStatus x \<noteq> rsStatus r) m \<Longrightarrow> fst (serve m s) \<noteq> r"
  unfolding serve_def avoids_def yields_def by (cases "m s"; cases "fst (m s)") force+

lemma avoids_doWrite: "foreign_errors (svLib sv) \<Longrightarrow> avoids record_missing (doWrite sv did ops)"
  unfolding doWrite_def by (intro avoids_hbind avoids_apply_as) (simp_all add: avoids_def)

lemma yields_doWrite: "yields (\<lambda>x. rsStatus x \<noteq> rsStatus record_missing) (doWrite sv did ops)"
  unfolding doWrite_def by (intro yields_intros) (simp add: writeJSON_def writeXRPCError_def)

lemma parse_write_invalid: "parse_write sv v = Inl r \<Longrightarrow> r \<noteq> record_missing"
  using invalid_not_missing by (auto simp: parse_write_def split: option.splits if_splits sum.splits prod.splits)

lemma parse_writes_invalid: "parse_writes sv vs = Inl r \<Longrightarrow> r \<noteq> record_missing"
  by (induction vs) (auto split: sum.splits dest: parse_write_invalid)

lemma avoids_simple:
  "avoids r (hret x)" "f \<noteq> r \<Longrightarrow> avoids r (decode_body dec rq read f)" "(\<And>x. v = Inl x \<Longrightarrow> x \<noteq> r) \<Longrightarrow> avoids r (hlift v)"
  "avoids r (outcome m)" "avoids r (put_action sv did c k)"
  by (auto simp: avoids_def decode_body_def put_action_def hbind_Inl_iff split: option.splits)

lemma avoids_cases:
  "avoids r m \<Longrightarrow> avoids r n \<Longrightarrow> avoids r (if b then m else n)" "(\<And>a b. avoids r (f a b)) \<Longrightarrow> avoids r (case y of (a, b) \<Rightarrow> f a b)"
  by (simp_all split: prod.split)

lemma yields_case_prod: "(\<And>a b. yields P (f a b)) \<Longrightarrow> yields P (case y of (a, b) \<Rightarrow> f a b)"
  by (simp split: prod.split)

lemmas avoids_intros = avoids_cases avoids_hbind avoids_attempt_pure avoids_simple avoids_requireOwnRepo avoids_doWrite avoids_apply_as
  invalid_not_missing

text \<open>C40. A missing record is never reported as such. No answer of the four endpoints that write records is
  the \<^verbatim>\<open>RecordNotFound\<close> that \<^verbatim>\<open>writeWriteError\<close> has for it: the write path hands its errors on wrapped,
  and the comparison with \<^verbatim>\<open>==\<close> sees only the wrapper. The libraries may fail in any way but with this
  program's own sentinel.\<close>

theorem record_not_found_never:
  assumes "foreign_errors (svLib sv)"
    and "h \<in> {handleCreateRecord, handlePutRecord, handleDeleteRecord, handleApplyWrites}"
  shows "fst (h sv rq w) \<noteq> writeXRPCError 400 ''RecordNotFound'' ''record not found''"
proof -
  have s: "rsStatus (writeJSON 200 v) \<noteq> rsStatus record_missing" for v by (simp add: writeXRPCError_def writeJSON_def)
  have c: "fst (handleCreateRecord sv rq w) \<noteq> record_missing" unfolding handleCreateRecord_def
    using assms(1) by (intro serve_avoids avoids_intros yields_intros yields_doWrite)
  have p: "fst (handlePutRecord sv rq w) \<noteq> record_missing" unfolding handlePutRecord_def
    using assms(1) by (intro serve_avoids avoids_intros yields_intros yields_doWrite)
  have d: "fst (handleDeleteRecord sv rq w) \<noteq> record_missing" unfolding handleDeleteRecord_def
    using assms(1) by (intro serve_avoids avoids_intros yields_intros yields_case_prod yields_doWrite)
  have a: "fst (handleApplyWrites sv rq w) \<noteq> record_missing" unfolding handleApplyWrites_def
    using assms(1) by (intro serve_avoids avoids_intros yields_intros yields_case_prod parse_writes_invalid s)
  show ?thesis using assms(2) c p d a by auto
qed

definition demo_delete :: data where
  "demo_delete = DMap [(''repo'', DStr ''did:plc:a''), (''collection'', DStr ''app.note''), (''rkey'', DStr ''k'')]"

lemma demo_delete_read: "read_delete_input demo_delete = Some (''did:plc:a'', ''app.note'', ''k'')"
  by code_simp

lemma demo_foreign: "foreign_errors demo_lib"
  by (simp add: foreign_errors_def demo_lib_def)

lemma demo_apply_fails:
  "apply_locked demo_lib ts did key [\<lparr>woAction = ActionDelete, woCollection = ''app.note'', woRKey = ''k'', woRecord = None\<rparr>]
     (empty_actordb []) = (Inl (Wrapf ''applying write to app.note/k'' ActorErrNotFound), empty_actordb [])"
  by (simp add: apply_locked_def GetRepoRoot_def exec_simps empty_actordb_def with_tx_def write_commit_def applyOne_def
      apply_delete_def demo_lib_def liftE_def rec_path_def)

lemma demo_delete_fails:
  "\<exists>w'. ApplyWrites demo_lib demo_wire demo_parse_did demo_times 5000000000 ''did:plc:a'' ''sk''
     [\<lparr>woAction = ActionDelete, woCollection = ''app.note'', woRKey = ''k'', woRecord = None\<rparr>] demo_home
     = (Inl (Wrapf ''applying write to app.note/k'' ActorErrNotFound), w')"
  by (simp add: ApplyWrites_def WithLock_def on_mgr_def demo_manager mgr_Get_def demo_valid Open_def exec_simps on_actor_def
      create_db_def empty_manager_def demo_apply_fails)

text \<open>The client that deletes a record which does not exist is told that its request is invalid.\<close>

theorem record_not_found_never_witness:
  "fst (handleDeleteRecord (demo_server\<lparr>svJson := demo_json demo_delete\<rparr>) (demo_post ''access'') demo_home)
       = InvalidRequest ''applying write to app.note/k: not found''
   \<and> fst (handleDeleteRecord (demo_server\<lparr>svJson := demo_json demo_delete\<rparr>) (demo_post ''access'') demo_home)
       \<noteq> writeXRPCError 400 ''RecordNotFound'' ''record not found''"
proof -
  obtain w' where run: "ApplyWrites demo_lib demo_wire demo_parse_did demo_times 5000000000 ''did:plc:a'' ''sk''
     [\<lparr>woAction = ActionDelete, woCollection = ''app.note'', woRKey = ''k'', woRecord = None\<rparr>] demo_home
     = (Inl (Wrapf ''applying write to app.note/k'' ActorErrNotFound), w')"
    using demo_delete_fails by blast
  have home: "demo_home\<lparr>wAcct := (wAcct demo_home)\<lparr>tape := []\<rparr>\<rparr> = demo_home"
    by (simp add: demo_home_def demo_world_def demo_db_def empty_acctdb_def)
  have err: "error_text (Wrapf ''applying write to app.note/k'' ActorErrNotFound) = ''applying write to app.note/k: not found''" by simp
  have same: "handleDeleteRecord (demo_server\<lparr>svJson := demo_json demo_delete\<rparr>) (demo_post ''access'') demo_home
      = (InvalidRequest ''applying write to app.note/k: not found'', w')"
    using run by (simp add: handleDeleteRecord_def handler_simps demo_delete_read requireOwnRepo_def requireAccessToken_def demo_principal
     resolveRepoDID_def exec_simps GetAccountByIdentifier_def GetAccountByDID_def scanAccount_def doWrite_def apply_as_def signingKeyFor_def home liftE_def
     trim_prefix_def has_prefix_def writeWriteError_def)
  show ?thesis
    using record_not_found_never [of "demo_server\<lparr>svJson := demo_json demo_delete\<rparr>" handleDeleteRecord
        "demo_post ''access''" demo_home] demo_foreign same by simp
qed

end
