(* ===== verification/Config.thy ===== *)
theory Config
  imports Sql Net GoStd
begin

text \<open>
  \<^verbatim>\<open>internal/config/config.go\<close>: loading the configuration file, and writing it back when a secret
  had to be generated.

  The file system is a map from paths to files. Every system call takes from the failure tape.
  \<open>tmp\<close> is the name that \<^verbatim>\<open>os.CreateTemp\<close> picks, which no file has. The TOML library is a parameter:
  \<open>toml_read\<close> stores a document over a configuration, \<open>toml_write\<close> writes one.
\<close>

section \<open>Files\<close>

datatype file_kind = Regular | Symlink | OtherKind

record fnode =
  fnKind :: file_kind
  fnMode :: nat
  fnData :: bytes

record fsys = dbconn +
  files :: "string \<Rightarrow> fnode option"

definition Lstat :: "string \<Rightarrow> (fsys, fnode) op" where
  "Lstat path = stmt (\<lambda>s. case files s path of None \<Rightarrow> (Inl ErrNotExist, s) | Some n \<Rightarrow> (Inr n, s))"

definition ReadFile :: "string \<Rightarrow> (fsys, bytes) op" where
  "ReadFile path = stmt (\<lambda>s. case files s path of None \<Rightarrow> (Inl ErrNotExist, s) | Some n \<Rightarrow> (Inr (fnData n), s))"

definition change_file :: "string \<Rightarrow> (fnode \<Rightarrow> fnode) \<Rightarrow> (fsys, unit) op" where
  "change_file path f = stmt (\<lambda>s. case files s path of
     None \<Rightarrow> (Inl ErrNotExist, s) | Some n \<Rightarrow> (Inr (), s\<lparr>files := (files s)(path \<mapsto> f n)\<rparr>))"

definition Chmod :: "string \<Rightarrow> nat \<Rightarrow> (fsys, unit) op" where
  "Chmod path mode = change_file path (\<lambda>n. n\<lparr>fnMode := mode\<rparr>)"

definition WriteAll :: "string \<Rightarrow> bytes \<Rightarrow> (fsys, unit) op" where
  "WriteAll path b = change_file path (\<lambda>n. n\<lparr>fnData := b\<rparr>)"

definition CreateTemp :: "string \<Rightarrow> (fsys, unit) op" where
  "CreateTemp tmp = stmt (\<lambda>s. if files s tmp \<noteq> None then (Inl (ErrMsg ''file exists''), s)
     else (Inr (), s\<lparr>files := (files s)(tmp \<mapsto> \<lparr>fnKind = Regular, fnMode = 384, fnData = []\<rparr>)\<rparr>))"

definition CloseFile :: "(fsys, unit) op" where
  "CloseFile = stmt (goret ())"

definition Rename :: "string \<Rightarrow> string \<Rightarrow> (fsys, unit) op" where
  "Rename old new = stmt (\<lambda>s. case files s old of
     None \<Rightarrow> (Inl ErrNotExist, s) | Some n \<Rightarrow> (Inr (), s\<lparr>files := ((files s)(old := None))(new \<mapsto> n)\<rparr>))"

definition Remove :: "string \<Rightarrow> (fsys, unit) op" where
  "Remove path = stmt (\<lambda>s. case files s path of
     None \<Rightarrow> (Inl ErrNotExist, s) | Some n \<Rightarrow> (Inr (), s\<lparr>files := (files s)(path := None)\<rparr>))"

section \<open>The configuration\<close>

record config =
  cgHostname :: string
  cgDataDir :: string
  cgListen :: string
  cgPLCURL :: string
  cgAppviewURL :: string
  cgAppviewDID :: string
  cgRelays :: "string list"
  cgJWTSecret :: string
  cgAdminPassword :: string
  cgAdminNetworks :: "string list"

definition defaults :: config where
  "defaults = \<lparr>cgHostname = '''', cgDataDir = '''', cgListen = '':3000'', cgPLCURL = ''https://plc.directory'',
     cgAppviewURL = ''https://api.bsky.app'', cgAppviewDID = ''did:web:api.bsky.app'',
     cgRelays = [''https://bsky.network''], cgJWTSecret = '''', cgAdminPassword = '''',
     cgAdminNetworks = [''127.0.0.0/8'', ''::1/128'']\<rparr>"

record toml_lib =
  toml_read :: "bytes \<Rightarrow> config \<Rightarrow> go_error + config"
  toml_write :: "config \<Rightarrow> go_error + bytes"

text \<open>The permissions 0600.\<close>

definition private_mode :: nat where "private_mode = 384"

definition cfg_error :: "string \<Rightarrow> string \<Rightarrow> go_error" where
  "cfg_error path m = ErrMsg (''config '' @ path @ '': '' @ m)"

definition validateRegularConfig :: "string \<Rightarrow> (fsys, unit) op" where
  "validateRegularConfig path = gobind (wrapf (''inspecting config '' @ path) (Lstat path)) (\<lambda>info.
     if fnKind info = Symlink then gofail (cfg_error path ''symlinks are not allowed'')
     else if fnKind info \<noteq> Regular then gofail (cfg_error path ''must be a regular file'')
     else goret ())"

definition verifyPrivateConfig :: "string \<Rightarrow> (fsys, unit) op" where
  "verifyPrivateConfig path =
     gobind (validateRegularConfig path) (\<lambda>_.
     gobind (wrapf (''inspecting config '' @ path) (Lstat path)) (\<lambda>info.
     if fnMode info \<noteq> private_mode then gofail (cfg_error path ''private permissions were not applied'') else goret ()))"

definition makeConfigPrivate :: "string \<Rightarrow> (fsys, unit) op" where
  "makeConfigPrivate path =
     gobind (wrapf (''setting private permissions on config '' @ path) (Chmod path private_mode)) (\<lambda>_.
     verifyPrivateConfig path)"

definition fill_temp :: "string \<Rightarrow> string \<Rightarrow> bytes \<Rightarrow> (fsys, unit) op" where
  "fill_temp tmp path b =
     gobind (wrapf (''setting private permissions on temporary config '' @ path) (Chmod tmp private_mode)) (\<lambda>_.
     gobind (wrapf (''writing temporary config '' @ path) (WriteAll tmp b)) (\<lambda>_.
     gobind (wrapf (''closing temporary config '' @ path) CloseFile) (\<lambda>_.
     wrapf (''replacing config '' @ path) (Rename tmp path))))"

text \<open>The deferred function removes the temporary file unless it was renamed.\<close>

definition writePrivateConfig :: "string \<Rightarrow> string \<Rightarrow> bytes \<Rightarrow> (fsys, unit) op" where
  "writePrivateConfig tmp path b s =
     (case wrapf (''creating temporary config near '' @ path) (CreateTemp tmp) s of
        (Inl e, s1) \<Rightarrow> (Inl e, s1)
      | (Inr _, s1) \<Rightarrow>
          (case fill_temp tmp path b s1 of
             (Inl e, s2) \<Rightarrow> (Inl e, snd (Remove tmp s2))
           | (Inr _, s2) \<Rightarrow> verifyPrivateConfig path s2))"

definition randomHex :: "go_error + bytes \<Rightarrow> go_error + string" where
  "randomHex rnd = map_sum id hex_encode rnd"

fun parse_networks :: "string \<Rightarrow> string list \<Rightarrow> go_error + prefix list" where
  "parse_networks path [] = Inr []"
| "parse_networks path (s # ss) = (case ParsePrefix s of
     None \<Rightarrow> Inl (cfg_error path (''admin_networks: \"'' @ s @ ''\" is not a valid CIDR''))
   | Some p \<Rightarrow> (case parse_networks path ss of Inl e \<Rightarrow> Inl e | Inr ps \<Rightarrow> Inr (p # ps)))"

text \<open>A secret that is missing is generated; the flag is \<^verbatim>\<open>changed\<close>.\<close>

definition fill_jwt_secret :: "go_error + bytes \<Rightarrow> config \<Rightarrow> go_error + config \<times> bool" where
  "fill_jwt_secret rnd cfg = (if cgJWTSecret cfg \<noteq> '''' then Inr (cfg, False)
     else (case randomHex rnd of
       Inl e \<Rightarrow> Inl (Wrapf ''generating jwt_secret'' e)
     | Inr secret \<Rightarrow> Inr (cfg\<lparr>cgJWTSecret := secret\<rparr>, True)))"

definition fill_admin_password :: "go_error + bytes \<Rightarrow> config \<times> bool \<Rightarrow> go_error + config \<times> bool" where
  "fill_admin_password rnd c = (case c of (cfg, changed) \<Rightarrow>
     if cgAdminPassword cfg \<noteq> '''' then Inr (cfg, changed)
     else (case randomHex rnd of
       Inl e \<Rightarrow> Inl (Wrapf ''generating admin_password'' e)
     | Inr pass \<Rightarrow> Inr (cfg\<lparr>cgAdminPassword := pass\<rparr>, True)))"

definition lift_sum :: "go_error + 'a \<Rightarrow> (fsys, 'a) op" where
  "lift_sum r s = (r, s)"

text \<open>What the file says, checked and completed.\<close>

definition read_config :: "toml_lib \<Rightarrow> go_error + bytes \<Rightarrow> go_error + bytes \<Rightarrow> string \<Rightarrow> bytes \<Rightarrow>
    go_error + (config \<times> bool) \<times> prefix list" where
  "read_config lib rnd1 rnd2 path b = (case toml_read lib b defaults of
     Inl e \<Rightarrow> Inl (Wrapf (''parsing config '' @ path) e)
   | Inr cfg \<Rightarrow>
       if cgHostname cfg = '''' then Inl (cfg_error path ''hostname is required'')
       else if cgDataDir cfg = '''' then Inl (cfg_error path ''data_dir is required'')
       else (case parse_networks path (cgAdminNetworks cfg) of
         Inl e \<Rightarrow> Inl e
       | Inr nets \<Rightarrow> (case fill_jwt_secret rnd1 cfg of
           Inl e \<Rightarrow> Inl e
         | Inr c \<Rightarrow> (case fill_admin_password rnd2 c of
             Inl e \<Rightarrow> Inl e | Inr c' \<Rightarrow> Inr (c', nets)))))"

text \<open>\<open>rnd1\<close> and \<open>rnd2\<close> are the random reads of 32 and 16 bytes.\<close>

definition Load :: "toml_lib \<Rightarrow> go_error + bytes \<Rightarrow> go_error + bytes \<Rightarrow> string \<Rightarrow> string \<Rightarrow>
    (fsys, config \<times> prefix list) op" where
  "Load lib rnd1 rnd2 tmp path =
     gobind (validateRegularConfig path) (\<lambda>_.
     gobind (wrapf (''reading config '' @ path) (ReadFile path)) (\<lambda>b.
     gobind (lift_sum (read_config lib rnd1 rnd2 path b)) (\<lambda>((cfg, changed), nets).
     gobind (if changed
       then gobind (wrapf ''marshaling config'' (lift_sum (toml_write lib cfg))) (writePrivateConfig tmp path)
       else makeConfigPrivate path) (\<lambda>_.
     goret (cfg, nets)))))"

end
