(* ===== verification/Cli.thy ===== *)
theory Cli
  imports Routes Config
begin

text \<open>
  The command line: the requests of \<^verbatim>\<open>cmd/robby/account.go\<close> to the administration API, the crawl
  requests of \<^verbatim>\<open>internal/relay/relay.go\<close> and \<^verbatim>\<open>cmd/robby/relay.go\<close>, and the version of
  \<^verbatim>\<open>cmd/robby/version.go\<close>.
\<close>

section \<open>The administration client\<close>

definition JoinHostPort :: "string \<Rightarrow> string \<Rightarrow> string" where
  "JoinHostPort host port = (if CHR '':'' \<in> set host \<or> CHR ''%'' \<in> set host
     then ''['' @ host @ '']:'' @ port else host @ '':'' @ port)"

definition adminBaseURL :: "string \<Rightarrow> go_error + string" where
  "adminBaseURL listen = (case SplitHostPort listen of
     None \<Rightarrow> Inl (Wrapf (''parsing listen address \"'' @ listen @ ''\"'') (ErrMsg ''address''))
   | Some (host, port) \<Rightarrow>
       Inr (''http://'' @ JoinHostPort (if host = '''' \<or> host = ''0.0.0.0'' \<or> host = ''::'' then ''127.0.0.1'' else host) port))"

text \<open>\<^verbatim>\<open>StdEncoding.EncodeToString\<close> and \<^verbatim>\<open>req.SetBasicAuth\<close>.\<close>

definition base64_std_encode :: "bytes \<Rightarrow> string" where
  "base64_std_encode b = (let t = base64_encode b in t @ replicate ((4 - length t mod 4) mod 4) (CHR ''=''))"

definition basic_auth :: "string \<Rightarrow> string \<Rightarrow> string" where
  "basic_auth user pass = ''Basic '' @ base64_std_encode (bytes_of (user @ '':'' @ pass))"

text \<open>\<open>json\<close> is \<^verbatim>\<open>json.Marshal\<close>.\<close>

definition admin_request :: "(data \<Rightarrow> bytes) \<Rightarrow> config \<Rightarrow> string \<Rightarrow> string \<Rightarrow> data option \<Rightarrow> go_error + out_request" where
  "admin_request json cfg meth nsid body = (case adminBaseURL (cgListen cfg) of
     Inl e \<Rightarrow> Inl e
   | Inr base \<Rightarrow> Inr \<lparr>orMethod = meth, orURL = base @ ''/xrpc/'' @ nsid,
       orHeaders = (''Authorization'', basic_auth ''admin'' (cgAdminPassword cfg))
         # (if body = None then [] else [(''Content-Type'', ''application/json'')]),
       orBody = (case body of None \<Rightarrow> [] | Some v \<Rightarrow> json v)\<rparr>)"

text \<open>The response of the server with the error that cut off its body, if any, or the error of sending the
  request; \<open>parse\<close> is \<^verbatim>\<open>json.Unmarshal\<close>.\<close>

definition admin_result :: "(bytes \<Rightarrow> go_error + data) \<Rightarrow> go_error + in_response \<times> go_error option \<Rightarrow> go_error + data" where
  "admin_result parse resp = (case resp of
     Inl e \<Rightarrow> Inl (Wrapf ''contacting server (is it running?)'' e)
   | Inr (_, Some e) \<Rightarrow> Inl e
   | Inr (ir, None) \<Rightarrow>
       if 300 \<le> irStatus ir
       then Inl (ErrMsg (''server returned '' @ dec_string (irStatus ir) @ '': '' @ string_of (irBody ir)))
       else (case parse (irBody ir) of Inl e \<Rightarrow> Inl (Wrapf ''decoding response'' e) | Inr v \<Rightarrow> Inr v))"

text \<open>\<^verbatim>\<open>adminRequest\<close>, without loading the configuration; \<open>send\<close> is the HTTP client.\<close>

definition adminRequest :: "(data \<Rightarrow> bytes) \<Rightarrow> (bytes \<Rightarrow> go_error + data) \<Rightarrow> (string \<Rightarrow> string \<Rightarrow> go_error + unit) \<Rightarrow>
    (out_request \<Rightarrow> go_error + in_response \<times> go_error option) \<Rightarrow>
    config \<Rightarrow> string \<Rightarrow> string \<Rightarrow> data option \<Rightarrow> go_error + data" where
  "adminRequest json parse new_request send cfg meth nsid body = (case admin_request json cfg meth nsid body of
     Inl e \<Rightarrow> Inl e
   | Inr out \<Rightarrow> (case new_request (orMethod out) (orURL out) of
       Inl e \<Rightarrow> Inl e | Inr _ \<Rightarrow> admin_result parse (send out)))"

text \<open>A password is the flag's, or else typed at a terminal, or else a line of the standard input without its end;
  \<open>typed\<close> is what \<^verbatim>\<open>term.ReadPassword\<close> returns, when the input is a terminal.\<close>

definition promptPassword :: "(go_error + string) option \<Rightarrow> go_error + string \<Rightarrow> go_error + string" where
  "promptPassword typed line = (case typed of
     Some r \<Rightarrow> r
   | None \<Rightarrow> map_sum id (\<lambda>l. rev (dropWhile (\<lambda>c. c = CHR 0x0D \<or> c = CHR 0x0A) (rev l))) line)"

definition with_password :: "string \<Rightarrow> go_error + string \<Rightarrow> (string \<Rightarrow> 'c) \<Rightarrow> go_error + 'c" where
  "with_password flag prompt mk = (if flag \<noteq> '''' then Inr (mk flag) else map_sum id mk prompt)"

text \<open>The commands, with the password already read, and their requests.\<close>

datatype command = Create string string | ListAll | SetPassword string string | Deactivate string
  | Takedown string | ApprovePlcOp string | ApproveDelete string | RefreshIdentity string

fun command_name :: "command \<Rightarrow> string" where
  "command_name (Create _ _) = ''createAccount''"
| "command_name ListAll = ''listAccounts''"
| "command_name (SetPassword _ _) = ''setPassword''"
| "command_name (Deactivate _) = ''deactivateAccount''"
| "command_name (Takedown _) = ''takedownAccount''"
| "command_name (ApprovePlcOp _) = ''approveToken''"
| "command_name (ApproveDelete _) = ''approveToken''"
| "command_name (RefreshIdentity _) = ''refreshIdentity''"

definition approveToken :: "string \<Rightarrow> string \<Rightarrow> data" where
  "approveToken did purpose = DMap [(''did'', DStr did), (''purpose'', DStr purpose)]"

fun command_body :: "command \<Rightarrow> data option" where
  "command_body (Create handle pw) = Some (DMap [(''handle'', DStr handle), (''password'', DStr pw)])"
| "command_body ListAll = None"
| "command_body (SetPassword did pw) = Some (DMap [(''did'', DStr did), (''password'', DStr pw)])"
| "command_body (Deactivate did) = Some (DMap [(''did'', DStr did)])"
| "command_body (Takedown did) = Some (DMap [(''did'', DStr did)])"
| "command_body (ApprovePlcOp did) = Some (approveToken did ''plc_sign'')"
| "command_body (ApproveDelete did) = Some (approveToken did ''delete_account'')"
| "command_body (RefreshIdentity did) = Some (DMap [(''did'', DStr did)])"

definition command_method :: "command \<Rightarrow> string" where
  "command_method c = (if c = ListAll then ''GET'' else ''POST'')"

definition command_request :: "(data \<Rightarrow> bytes) \<Rightarrow> config \<Rightarrow> command \<Rightarrow> go_error + out_request" where
  "command_request json cfg c = admin_request json cfg (command_method c) (admin_nsid (command_name c)) (command_body c)"

section \<open>What the commands print\<close>

text \<open>\<^verbatim>\<open>%s\<close> and \<^verbatim>\<open>%v\<close> of a value out of a \<^verbatim>\<open>map[string]any\<close>; a missing key gives nil. How \<^verbatim>\<open>fmt\<close> writes a
  value that is neither nil nor a string is \<open>fmt_any\<close>.\<close>

definition fmt_s :: "(char \<Rightarrow> data \<Rightarrow> string) \<Rightarrow> data \<Rightarrow> string" where
  "fmt_s fmt_any v = (case v of DStr s \<Rightarrow> s | DNull \<Rightarrow> ''%!s(<nil>)'' | _ \<Rightarrow> fmt_any (CHR ''s'') v)"

definition fmt_v :: "(char \<Rightarrow> data \<Rightarrow> string) \<Rightarrow> data \<Rightarrow> string" where
  "fmt_v fmt_any v = (case v of DStr s \<Rightarrow> s | DNull \<Rightarrow> ''<nil>'' | _ \<Rightarrow> fmt_any (CHR ''v'') v)"

text \<open>Decoding into a \<^verbatim>\<open>map[string]any\<close>: null leaves it nil, the last of equal keys wins.\<close>

definition any_map :: "data \<Rightarrow> go_error + (string \<Rightarrow> data)" where
  "any_map v = (case v of
     DMap kvs \<Rightarrow> Inr (\<lambda>k. case map_of (rev kvs) k of None \<Rightarrow> DNull | Some x \<Rightarrow> x)
   | DNull \<Rightarrow> Inr (\<lambda>_. DNull)
   | _ \<Rightarrow> Inl (Wrapf ''decoding response'' (ErrMsg ''json: cannot unmarshal'')))"

abbreviation newline :: string where
  "newline \<equiv> [CHR 0x0A]"

abbreviation tab :: string where
  "tab \<equiv> [CHR 0x09]"

text \<open>The accounts of \<^verbatim>\<open>robby account list\<close>.\<close>

definition account_line :: "data \<Rightarrow> string option" where
  "account_line a = Option.bind (str_field ''did'' a) (\<lambda>did. Option.bind (str_field ''handle'' a) (\<lambda>handle.
     map_option (\<lambda>status. did @ tab @ handle @ tab @ status @ newline) (str_field ''status'' a)))"

definition account_lines :: "data \<Rightarrow> go_error + string" where
  "account_lines v = (case Option.bind (field as_list [] ''accounts'' v) (\<lambda>as. those (map account_line as)) of
     None \<Rightarrow> Inl (Wrapf ''decoding response'' (ErrMsg ''json: cannot unmarshal''))
   | Some ls \<Rightarrow> Inr (concat ls))"

definition token_line :: "(char \<Rightarrow> data \<Rightarrow> string) \<Rightarrow> (string \<Rightarrow> data) \<Rightarrow> string" where
  "token_line fmt_any out = ''token: '' @ fmt_s fmt_any (out ''token'') @ '' (expires '' @ fmt_s fmt_any (out ''expiresAt'') @ '')'' @ newline"

fun command_line :: "(char \<Rightarrow> data \<Rightarrow> string) \<Rightarrow> command \<Rightarrow> (string \<Rightarrow> data) \<Rightarrow> string" where
  "command_line fmt_any (Create _ _) out = ''created account: did='' @ fmt_s fmt_any (out ''did'') @ '' handle=''
     @ fmt_s fmt_any (out ''handle'') @ '' status='' @ fmt_s fmt_any (out ''status'') @ newline"
| "command_line fmt_any ListAll out = ''''"
| "command_line fmt_any (SetPassword _ _) out = ''password updated'' @ newline"
| "command_line fmt_any (Deactivate _) out = ''account deactivated'' @ newline"
| "command_line fmt_any (Takedown _) out = ''account taken down'' @ newline"
| "command_line fmt_any (ApprovePlcOp _) out = token_line fmt_any out"
| "command_line fmt_any (ApproveDelete _) out = token_line fmt_any out"
| "command_line fmt_any (RefreshIdentity _) out = ''identity event emitted for '' @ fmt_v fmt_any (out ''did'')
     @ '' (handle='' @ fmt_v fmt_any (out ''handle'') @ '')'' @ newline"

definition command_output :: "(char \<Rightarrow> data \<Rightarrow> string) \<Rightarrow> command \<Rightarrow> data \<Rightarrow> go_error + string" where
  "command_output fmt_any c v =
     (if c = ListAll then account_lines v else map_sum id (command_line fmt_any c) (any_map v))"

text \<open>A command from the configuration to the standard output; \<open>load\<close> is \<^verbatim>\<open>config.Load\<close>.\<close>

definition run_command :: "(data \<Rightarrow> bytes) \<Rightarrow> (bytes \<Rightarrow> go_error + data) \<Rightarrow> (char \<Rightarrow> data \<Rightarrow> string) \<Rightarrow> (string \<Rightarrow> string \<Rightarrow> go_error + unit) \<Rightarrow>
    (out_request \<Rightarrow> go_error + in_response \<times> go_error option) \<Rightarrow> go_error + config \<Rightarrow> command \<Rightarrow> go_error + string" where
  "run_command json parse fmt_any new_request send load c = (case load of
     Inl e \<Rightarrow> Inl e
   | Inr cfg \<Rightarrow> (case adminRequest json parse new_request send cfg (command_method c) (admin_nsid (command_name c)) (command_body c) of
       Inl e \<Rightarrow> Inl e
     | Inr v \<Rightarrow> command_output fmt_any c v))"

section \<open>Relays\<close>

definition trim_space :: "string \<Rightarrow> string" where
  "trim_space s = (let sp = (\<lambda>c. c \<in> {CHR '' '', CHR 0x09, CHR 0x0A, CHR 0x0B, CHR 0x0C, CHR 0x0D})
     in rev (dropWhile sp (rev (dropWhile sp s))))"

definition crawl_request :: "(data \<Rightarrow> bytes) \<Rightarrow> string \<Rightarrow> string \<Rightarrow> out_request" where
  "crawl_request json relayURL hostname = \<lparr>orMethod = ''POST'',
     orURL = trim_right (CHR ''/'') relayURL @ ''/xrpc/com.atproto.sync.requestCrawl'',
     orHeaders = [(''Content-Type'', ''application/json'')], orBody = json (DMap [(''hostname'', DStr hostname)])\<rparr>"

definition RequestCrawl :: "(data \<Rightarrow> bytes) \<Rightarrow> (string \<Rightarrow> string \<Rightarrow> go_error + unit) \<Rightarrow>
    (out_request \<Rightarrow> go_error + in_response) \<Rightarrow> string \<Rightarrow> string \<Rightarrow> go_error + unit" where
  "RequestCrawl json new_request send relayURL hostname =
     (let out = crawl_request json relayURL hostname in
      case new_request (orMethod out) (orURL out) of
        Inl e \<Rightarrow> Inl e
      | Inr _ \<Rightarrow> (case send out of
          Inl e \<Rightarrow> Inl (Wrapf (''contacting relay '' @ relayURL) e)
        | Inr ir \<Rightarrow>
            if 300 \<le> irStatus ir
            then Inl (ErrMsg (''relay '' @ relayURL @ '' rejected requestCrawl (status '' @ dec_string (irStatus ir)
              @ ''): '' @ trim_space (string_of (take 4096 (irBody ir)))))
            else Inr ()))"

definition crawl_errors :: "(string \<Rightarrow> go_error + unit) \<Rightarrow> string list \<Rightarrow> string list" where
  "crawl_errors crawl relays = concat (map (\<lambda>r. case crawl r of Inl e \<Rightarrow> [error_text e] | Inr _ \<Rightarrow> []) relays)"

definition RequestCrawlAll :: "(data \<Rightarrow> bytes) \<Rightarrow> (string \<Rightarrow> string \<Rightarrow> go_error + unit) \<Rightarrow>
    (out_request \<Rightarrow> go_error + in_response) \<Rightarrow> string list \<Rightarrow> string \<Rightarrow> go_error + unit" where
  "RequestCrawlAll json new_request send relays hostname =
     (let errs = crawl_errors (\<lambda>r. RequestCrawl json new_request send r hostname) relays
      in if errs \<noteq> [] then Inl (ErrMsg (join_with ''; '' errs)) else Inr ())"

text \<open>\<^verbatim>\<open>robby relay request-crawl\<close>: the relays given, else those configured, all of them tried.\<close>

definition relay_line :: "string \<times> (go_error + unit) \<Rightarrow> string" where
  "relay_line x = fst x @ tab @ (case snd x of Inl e \<Rightarrow> ''FAILED: '' @ error_text e | Inr _ \<Rightarrow> ''OK'') @ newline"

definition relay_command :: "(string \<Rightarrow> go_error + unit) \<Rightarrow> go_error + config \<Rightarrow> string list \<Rightarrow> string \<times> (go_error + unit)" where
  "relay_command crawl load args = (case load of
     Inl e \<Rightarrow> ('''', Inl e)
   | Inr cfg \<Rightarrow>
       (let relays = (if args = [] then cgRelays cfg else args);
            tried = map (\<lambda>r. (r, crawl r)) relays
        in if relays = [] then ('''', Inl (ErrMsg ''no relays given and none configured''))
           else (concat (map relay_line tried),
             if list_ex (\<lambda>x. isl (snd x)) tried then Inl (ErrMsg ''one or more relays failed'') else Inr ())))"

section \<open>The version\<close>

record build_info =
  biVersion :: string
  biSettings :: "(string \<times> string) list"

definition vcs_setting :: "string \<Rightarrow> build_info \<Rightarrow> string option" where
  "vcs_setting k bi = map_of (rev (biSettings bi)) k"

definition revision_text :: "build_info \<Rightarrow> string" where
  "revision_text bi = (case vcs_setting ''vcs.revision'' bi of None \<Rightarrow> '''' | Some v \<Rightarrow> take 12 v)"

text \<open>The loop sets \<^verbatim>\<open>dirty\<close> once a setting says so.\<close>

definition dirty_text :: "build_info \<Rightarrow> string" where
  "dirty_text bi = (if (''vcs.modified'', ''true'') \<in> set (biSettings bi) then ''-dirty'' else '''')"

definition program_version :: "string \<Rightarrow> build_info option \<Rightarrow> string" where
  "program_version stamped info =
     (if stamped \<noteq> '''' then stamped
      else (case info of
        None \<Rightarrow> ''unknown''
      | Some bi \<Rightarrow>
          if biVersion bi \<noteq> '''' \<and> biVersion bi \<noteq> ''(devel)'' then biVersion bi
          else if revision_text bi = '''' then ''devel''
          else ''devel-'' @ revision_text bi @ dirty_text bi))"

text \<open>What \<^verbatim>\<open>--version\<close> prints; the last three are of the Go runtime.\<close>

definition VersionString :: "string \<Rightarrow> build_info option \<Rightarrow> string \<Rightarrow> string \<Rightarrow> string \<Rightarrow> string" where
  "VersionString stamped info goversion goos goarch =
     ''robby '' @ program_version stamped info @ newline @ goversion @ '' '' @ goos @ ''/'' @ goarch"

end
