(* ===== verification/Schema.thy ===== *)
theory Schema
  imports ActorStore
begin

text \<open>
  Opening \<^verbatim>\<open>accounts.db\<close>: \<^verbatim>\<open>Open\<close> and \<^verbatim>\<open>migrate\<close> of \<^verbatim>\<open>internal/store/store.go\<close> and \<^verbatim>\<open>New\<close> of
  \<^verbatim>\<open>internal/sequencer/sequencer.go\<close>, on the file as SQLite sees it, one level below the typed tables of
  \<open>Store\<close>: a table is its columns and its rows, and a row maps a column to a value.

  \<^verbatim>\<open>CREATE INDEX\<close> statements change no table and are left out. SQLite (third party, documented):
  \<^verbatim>\<open>CREATE TABLE IF NOT EXISTS\<close> leaves a table that exists alone, whatever its columns;
  \<^verbatim>\<open>ALTER TABLE ADD COLUMN\<close> gives every row the default, and its error for a column that exists
  contains \<^verbatim>\<open>duplicate column name\<close>.
\<close>

datatype sql_value = SText string | SInt int

type_synonym raw_row = "string \<Rightarrow> sql_value option"

record raw_table =
  tbCols :: "string set"
  tbRows :: "raw_row list"

record raw_db = dbconn +
  raw_tables :: "string \<Rightarrow> raw_table option"

definition create_table :: "string \<times> string list \<Rightarrow> (raw_db, unit) op" where
  "create_table tc = stmt (\<lambda>d. (Inr (), if raw_tables d (fst tc) \<noteq> None then d
     else d\<lparr>raw_tables := (raw_tables d)(fst tc \<mapsto> \<lparr>tbCols = set (snd tc), tbRows = []\<rparr>)\<rparr>))"

definition add_column :: "string \<times> string \<times> sql_value \<Rightarrow> raw_table \<Rightarrow> raw_table" where
  "add_column a T = (case a of (_, c, v) \<Rightarrow> \<lparr>tbCols = insert c (tbCols T), tbRows = map (\<lambda>r. r(c \<mapsto> v)) (tbRows T)\<rparr>)"

definition alter_table :: "string \<times> string \<times> sql_value \<Rightarrow> (raw_db, unit) op" where
  "alter_table a = stmt (\<lambda>d. case raw_tables d (fst a) of
     None \<Rightarrow> (Inl (ErrMsg (''no such table: '' @ fst a)), d)
   | Some T \<Rightarrow> if fst (snd a) \<in> tbCols T then (Inl (ErrMsg (''duplicate column name: '' @ fst (snd a))), d)
       else (Inr (), d\<lparr>raw_tables := (raw_tables d)(fst a \<mapsto> add_column a T)\<rparr>))"

definition store_schema :: "(string \<times> string list) list" where
  "store_schema =
    [(''accounts'', [''did'', ''handle'', ''password_hash'', ''signing_key'', ''rotation_key'', ''status'', ''auth_version'', ''created_at'']),
     (''refresh_tokens'', [''token_hash'', ''did'', ''expires_at'', ''created_at'', ''auth_version'', ''credential_kind'', ''app_password_name'']),
     (''app_passwords'', [''did'', ''name'', ''password_hash'', ''privileged'', ''created_at'']),
     (''reserved_signing_keys'', [''did'', ''signing_key'', ''created_at'', ''expires_at'']),
     (''admin_tokens'', [''token'', ''did'', ''purpose'', ''expires_at'', ''created_at''])]"

definition alterations :: "(string \<times> string \<times> sql_value) list" where
  "alterations =
    [(''accounts'', ''auth_version'', SInt 1),
     (''refresh_tokens'', ''auth_version'', SInt 0),
     (''refresh_tokens'', ''credential_kind'', SText ''''),
     (''refresh_tokens'', ''app_password_name'', SText ''''),
     (''reserved_signing_keys'', ''expires_at'', SText '''')]"

text \<open>An alteration that fails because the column exists is passed over.\<close>

definition alter_once :: "string \<times> string \<times> sql_value \<Rightarrow> (raw_db, unit) op" where
  "alter_once a d = (case alter_table a d of
     (Inl e, d') \<Rightarrow> (if contains (error_text e) ''duplicate column name'' then (Inr (), d')
       else (Inl (Wrapf ''migrating auth schema'' e), d'))
   | (Inr _, d') \<Rightarrow> (Inr (), d'))"

definition legacy_reservation :: "raw_row \<Rightarrow> bool" where
  "legacy_reservation r \<longleftrightarrow> r ''expires_at'' = Some (SText '''')"

definition drop_rows :: "string \<Rightarrow> (raw_row \<Rightarrow> bool) \<Rightarrow> (raw_db, unit) op" where
  "drop_rows t p = stmt (\<lambda>d. case raw_tables d t of
     None \<Rightarrow> (Inl (ErrMsg (''no such table: '' @ t)), d)
   | Some T \<Rightarrow> (Inr (), d\<lparr>raw_tables := (raw_tables d)(t \<mapsto> T\<lparr>tbRows := filter (\<lambda>r. \<not> p r) (tbRows T)\<rparr>)\<rparr>))"

definition store_migrate :: "(raw_db, unit) op" where
  "store_migrate =
     gobind (wrapf ''migrating accounts db'' (goeach create_table store_schema)) (\<lambda>_.
     gobind (goeach alter_once alterations) (\<lambda>_.
     wrapf ''invalidating legacy signing key reservations'' (drop_rows ''reserved_signing_keys'' legacy_reservation)))"

definition events_schema :: "string \<times> string list" where
  "events_schema = (''events'', [''seq'', ''did'', ''evt_type'', ''payload'', ''created_at''])"

definition seq_migrate :: "(raw_db, unit) op" where
  "seq_migrate = wrapf ''migrating events table'' (create_table events_schema)"

text \<open>What the start of the server does to the file: \<^verbatim>\<open>store.Open\<close>, then \<^verbatim>\<open>sequencer.New\<close> in \<^verbatim>\<open>NewServer\<close>.\<close>

definition open_database :: "(raw_db, unit) op" where
  "open_database = gobind store_migrate (\<lambda>_. seq_migrate)"

definition full_schema :: "(string \<times> string list) list" where
  "full_schema = events_schema # store_schema"

section \<open>What opening does to a database file\<close>

text \<open>The contract: a table that is missing is created empty, a column that is missing gets its default in
  every row, everything else stays, and reservations of signing keys without an expiry are gone.\<close>

definition default_of :: "string \<Rightarrow> string \<Rightarrow> sql_value option" where
  "default_of t c = map_of (map (\<lambda>(t, c, v). ((t, c), v)) alterations) (t, c)"

definition fill_row :: "string \<Rightarrow> raw_table \<Rightarrow> raw_row \<Rightarrow> raw_row" where
  "fill_row t T r c = (if c \<in> tbCols T then r c else case default_of t c of None \<Rightarrow> r c | Some v \<Rightarrow> Some v)"

definition kept_row :: "string \<Rightarrow> raw_row \<Rightarrow> bool" where
  "kept_row t r \<longleftrightarrow> \<not> (t = ''reserved_signing_keys'' \<and> legacy_reservation r)"

definition upgrade_table :: "string \<Rightarrow> raw_table \<Rightarrow> raw_table" where
  "upgrade_table t T = \<lparr>tbCols = tbCols T \<union> {c. default_of t c \<noteq> None},
     tbRows = filter (kept_row t) (map (fill_row t T) (tbRows T))\<rparr>"

definition upgrade :: "string \<Rightarrow> raw_table option \<Rightarrow> raw_table option" where
  "upgrade t x = (case x of
     None \<Rightarrow> map_option (\<lambda>cols. \<lparr>tbCols = set cols, tbRows = []\<rparr>) (map_of full_schema t)
   | Some T \<Rightarrow> Some (upgrade_table t T))"

text \<open>No statement changes what the file is upgraded to.\<close>

definition on_the_way :: "(string \<Rightarrow> raw_table option) \<Rightarrow> raw_db \<Rightarrow> bool" where
  "on_the_way goal d \<longleftrightarrow> (\<forall>t. upgrade t (raw_tables d t) = goal t)"

lemma default_schema: "(t, cols) \<in> set full_schema \<Longrightarrow> default_of t c \<noteq> None \<Longrightarrow> c \<in> set cols"
  by (auto simp: full_schema_def events_schema_def store_schema_def default_of_def alterations_def split: if_splits)

lemma schema_lookup: "(t, cols) \<in> set full_schema \<longleftrightarrow> map_of full_schema t = Some cols"
  by (subst map_of_eq_Some_iff) (simp_all add: full_schema_def events_schema_def store_schema_def)

lemma default_alteration: "(t, c, v) \<in> set alterations \<Longrightarrow> default_of t c = Some v"
  by (auto simp: alterations_def default_of_def)

lemma upgrade_new_table:
  assumes "(t, cols) \<in> set full_schema"
  shows "upgrade t (Some \<lparr>tbCols = set cols, tbRows = []\<rparr>) = upgrade t None"
proof -
  have "set cols \<union> {c. default_of t c \<noteq> None} = set cols" using default_schema [OF assms] by blast
  then show ?thesis using assms by (simp add: upgrade_def upgrade_table_def schema_lookup)
qed

lemma upgrade_add_column:
  assumes "(t, c, v) \<in> set alterations" "c \<notin> tbCols T"
  shows "upgrade_table t (add_column (t, c, v) T) = upgrade_table t T"
proof -
  have "fill_row t (add_column (t, c, v) T) (r(c \<mapsto> v)) = fill_row t T r" for r
    using default_alteration [OF assms(1)] assms(2) by (intro ext) (auto simp: fill_row_def add_column_def split: option.split)
  moreover have "insert c (tbCols T) \<union> {c. default_of t c \<noteq> None} = tbCols T \<union> {c. default_of t c \<noteq> None}"
    using default_alteration [OF assms(1)] by auto
  ultimately show ?thesis by (simp add: upgrade_table_def add_column_def comp_def)
qed

lemma upgrade_purge:
  "upgrade_table t (T\<lparr>tbRows := filter (\<lambda>r. \<not> (t = ''reserved_signing_keys'' \<and> legacy_reservation r)) (tbRows T)\<rparr>) = upgrade_table t T"
proof -
  have same: "fill_row t (T\<lparr>tbRows := xs\<rparr>) = fill_row t T" for xs by (intro ext) (simp add: fill_row_def)
  have "kept_row t (fill_row t T r) \<Longrightarrow> kept_row t r" for r
    by (auto simp: kept_row_def legacy_reservation_def fill_row_def default_of_def alterations_def split: if_splits)
  then have "filter (kept_row t \<circ> fill_row t T) (filter (\<lambda>r. \<not> (t = ''reserved_signing_keys'' \<and> legacy_reservation r)) (tbRows T))
      = filter (kept_row t \<circ> fill_row t T) (tbRows T)"
    by (auto simp: kept_row_def intro!: filter_cong)
  then show ?thesis by (simp add: upgrade_table_def same filter_map)
qed

lemma upgrade_Some: "upgrade t (Some T) = Some (upgrade_table t T)"
  by (simp add: upgrade_def)

lemma on_the_way_step:
  "on_the_way goal d \<Longrightarrow> upgrade t (Some T) = upgrade t (raw_tables d t)
     \<Longrightarrow> on_the_way goal (d\<lparr>raw_tables := (raw_tables d)(t \<mapsto> T)\<rparr>)"
  by (auto simp: on_the_way_def)

lemma tapefree_on_the_way: "tapefree (on_the_way goal)"
  by (rule tapefreeI) (simp add: on_the_way_def)

lemma create_on_the_way: "tc \<in> set full_schema \<Longrightarrow> preserves (on_the_way goal) (create_table tc)"
  unfolding create_table_def
  by (rule preserves_stmt [OF tapefree_on_the_way], rule preservesI)
     (use upgrade_new_table [of "fst tc" "snd tc"] in \<open>auto intro!: on_the_way_step split: if_splits\<close>)

lemma alter_on_the_way:
  assumes "a \<in> set alterations"
  shows "preserves (on_the_way goal) (alter_once a)"
proof -
  obtain t c v where a: "a = (t, c, v)" by (cases a)
  have "preserves (on_the_way goal) (alter_table a)"
    unfolding alter_table_def a
    by (rule preserves_stmt [OF tapefree_on_the_way], rule preservesI)
       (use upgrade_add_column assms in \<open>auto intro!: on_the_way_step simp: upgrade_Some a split: option.splits if_splits\<close>)
  then show ?thesis
    by (intro preservesI) (auto simp: alter_once_def split: prod.splits sum.splits if_splits dest: preservesE)
qed

lemma purge_on_the_way: "preserves (on_the_way goal) (drop_rows ''reserved_signing_keys'' legacy_reservation)"
  unfolding drop_rows_def
  by (rule preserves_stmt [OF tapefree_on_the_way], rule preservesI)
     (use upgrade_purge [of "''reserved_signing_keys''"] in \<open>auto intro!: on_the_way_step simp: upgrade_Some split: option.splits\<close>)

lemma open_on_the_way: "preserves (on_the_way goal) open_database"
  unfolding open_database_def store_migrate_def seq_migrate_def
  by (intro preserves_intros create_on_the_way alter_on_the_way purge_on_the_way) (simp_all add: full_schema_def)

section \<open>A migration that succeeded has arrived\<close>

lemma goeach_reaches:
  assumes "\<And>x y. x \<in> set xs \<Longrightarrow> preserves (Q y) (f x)" "\<And>x d d'. x \<in> set xs \<Longrightarrow> f x d = (Inr (), d') \<Longrightarrow> Q x d'"
    and "goeach f xs d = (Inr (), d')" "y \<in> set xs"
  shows "Q y d'"
  using assms
proof (induction xs arbitrary: d)
  case (Cons x xs)
  obtain d1 where d1: "f x d = (Inr (), d1)" "goeach f xs d1 = (Inr (), d')"
    using Cons.prems(3) by (auto simp: gobind_Inr_iff)
  show ?case
  proof (cases "y \<in> set xs")
    case True
    show ?thesis by (rule Cons.IH [OF Cons.prems(1,2) d1(2) True]) simp_all
  next
    case False
    then have "y = x" using Cons.prems(4) by simp
    then have "Q y d1" using Cons.prems(2) d1(1) by simp
    moreover have "preserves (Q y) (goeach f xs)" using Cons.prems(1) by (intro preserves_intros) simp
    ultimately show ?thesis using preservesE d1(2) by metis
  qed
qed simp

text \<open>The table \<open>t\<close> exists, with the column \<open>c\<close> if one is given.\<close>

definition has_column :: "string \<Rightarrow> string set \<Rightarrow> raw_db \<Rightarrow> bool" where
  "has_column t cs d \<longleftrightarrow> (case raw_tables d t of None \<Rightarrow> False | Some T \<Rightarrow> cs \<subseteq> tbCols T)"

lemma tapefree_has: "tapefree (has_column t cs)"
  by (rule tapefreeI) (simp add: has_column_def)

lemma has_column_kept:
  "preserves (has_column t cs) (create_table tc)" "preserves (has_column t cs) (alter_once a)"
  "preserves (has_column t cs) (drop_rows t' p)"
proof -
  show "preserves (has_column t cs) (create_table tc)" unfolding create_table_def
    by (rule preserves_stmt [OF tapefree_has], rule preservesI) (auto simp: has_column_def split: if_splits)
  show "preserves (has_column t cs) (drop_rows t' p)" unfolding drop_rows_def
    by (rule preserves_stmt [OF tapefree_has], rule preservesI) (auto simp: has_column_def split: option.splits)
  have "preserves (has_column t cs) (alter_table a)" unfolding alter_table_def
    by (rule preserves_stmt [OF tapefree_has], rule preservesI)
       (auto simp: has_column_def add_column_def split: option.splits if_splits prod.splits)
  then show "preserves (has_column t cs) (alter_once a)"
    by (intro preservesI) (auto simp: alter_once_def split: prod.splits sum.splits if_splits dest: preservesE)
qed

lemma create_table_done: "create_table tc d = (Inr (), d') \<Longrightarrow> has_column (fst tc) {} d'"
  by (auto simp: create_table_def stmt_Inr_iff has_column_def split: if_splits)

lemma not_duplicate: "\<not> contains (error_text ErrDB) ''duplicate column name''"
  "\<forall>a \<in> set alterations. \<not> contains (error_text (ErrMsg (''no such table: '' @ fst a))) ''duplicate column name''"
  by code_simp+

lemma alter_once_done:
  assumes "(t, c, v) \<in> set alterations" "alter_once (t, c, v) d = (Inr (), d')"
  shows "has_column t {c} d'"
  using assms(2) not_duplicate(1) bspec [OF not_duplicate(2) assms(1)]
  by (auto simp: alter_once_def alter_table_def stmt_def Let_def has_column_def add_column_def
      split: prod.splits sum.splits if_splits option.splits)

lemma contains_prefix: "contains (xs @ ys) xs"
  by (auto simp: contains_def list_ex_iff intro!: bexI [of _ 0])

lemma alter_once_again:
  assumes "has_column t {c} d" "tape d = []"
  shows "alter_once (t, c, v) d = (Inr (), d)"
proof -
  have "contains (''duplicate column name'' @ '': '' @ c) ''duplicate column name''" by (rule contains_prefix)
  then show ?thesis
    using assms by (cases d) (auto simp: alter_once_def alter_table_def stmt_def Let_def has_column_def split: option.splits)
qed

text \<open>A file that is its own upgrade is left as it is.\<close>

definition arrived :: "raw_db \<Rightarrow> bool" where
  "arrived d \<longleftrightarrow> (\<forall>(t, cols) \<in> set full_schema. has_column t {} d) \<and> (\<forall>(t, c, v) \<in> set alterations. has_column t {c} d)
     \<and> (case raw_tables d ''reserved_signing_keys'' of None \<Rightarrow> True | Some T \<Rightarrow> list_all (\<lambda>r. \<not> legacy_reservation r) (tbRows T))"

lemma goeach_same: "(\<And>x. x \<in> set xs \<Longrightarrow> f x d = (Inr (), d)) \<Longrightarrow> goeach f xs d = (Inr (), d)"
  by (induction xs) auto

lemma open_arrived:
  assumes "arrived d" "tape d = []"
  shows "open_database d = (Inr (), d)"
proof -
  have c: "create_table tc d = (Inr (), d)" if "tc \<in> set full_schema" for tc
    using that assms by (cases d) (auto simp: arrived_def has_column_def create_table_def stmt_def split: option.splits)
  have a: "alter_once x d = (Inr (), d)" if x: "x \<in> set alterations" for x
  proof -
    obtain t c v where e: "x = (t, c, v)" by (cases x)
    then have "has_column t {c} d" using x assms(1) unfolding arrived_def by blast
    then show ?thesis using alter_once_again assms(2) e by simp
  qed
  have "(''reserved_signing_keys'', [''did'', ''signing_key'', ''created_at'', ''expires_at'']) \<in> set full_schema"
    by (simp add: full_schema_def store_schema_def)
  then obtain T where T: "raw_tables d ''reserved_signing_keys'' = Some T" "list_all (\<lambda>r. \<not> legacy_reservation r) (tbRows T)"
    using assms(1) by (fastforce simp: arrived_def has_column_def split: option.splits)
  have "filter (\<lambda>r. \<not> legacy_reservation r) (tbRows T) = tbRows T" using T(2) by (simp add: filter_id_conv list_all_iff)
  then have p: "drop_rows ''reserved_signing_keys'' legacy_reservation d = (Inr (), d)"
    using T(1) assms(2) by (cases d) (auto simp: drop_rows_def stmt_def Let_def fun_upd_idem)
  have cs: "goeach create_table store_schema d = (Inr (), d)" by (rule goeach_same) (simp add: c full_schema_def)
  have as: "goeach alter_once alterations d = (Inr (), d)" by (rule goeach_same) (rule a)
  have "create_table events_schema d = (Inr (), d)" by (rule c) (simp add: full_schema_def)
  then show ?thesis using cs as p by (simp add: open_database_def store_migrate_def seq_migrate_def)
qed

lemma open_arrives:
  assumes "open_database d = (Inr (), d')"
  shows "arrived d'"
proof -
  obtain d1 d2 d3 where run: "goeach create_table store_schema d = (Inr (), d1)" "goeach alter_once alterations d1 = (Inr (), d2)"
    "drop_rows ''reserved_signing_keys'' legacy_reservation d2 = (Inr (), d3)" "create_table events_schema d3 = (Inr (), d')"
    using assms by (auto simp: open_database_def store_migrate_def seq_migrate_def gobind_Inr_iff)
  have later: "has_column t cs d'" if "has_column t cs d2" for t cs
    using preservesE [OF has_column_kept(1) run(4) preservesE [OF has_column_kept(3) run(3) that]] .
  have tables1: "has_column t {} d1" if "(t, cols) \<in> set store_schema" for t cols
    using goeach_reaches [of store_schema "\<lambda>tc. has_column (fst tc) {}" create_table, OF has_column_kept(1) create_table_done run(1) that]
    by simp
  have keep: "preserves (has_column t cs) (goeach alter_once xs)" for t cs xs
    by (intro preserves_intros has_column_kept)
  have tables2: "has_column t {} d2" if "(t, cols) \<in> set store_schema" for t cols
    using preservesE [OF keep run(2) tables1 [OF that]] .
  have alters: "has_column (fst a) {fst (snd a)} d2" if a: "a \<in> set alterations" for a
  proof (rule goeach_reaches [of alterations "\<lambda>a. has_column (fst a) {fst (snd a)}" alter_once, OF has_column_kept(2) _ run(2) a])
    fix x e e'
    assume "x \<in> set alterations" "alter_once x e = (Inr (), e')"
    then show "has_column (fst x) {fst (snd x)} e'" using alter_once_done [of "fst x" "fst (snd x)" "snd (snd x)"] by simp
  qed
  have "has_column (fst tc) {} d'" if "tc \<in> set full_schema" for tc
  proof (cases "tc = events_schema")
    case True
    then show ?thesis using create_table_done [OF run(4)] by simp
  next
    case False
    then have "(fst tc, snd tc) \<in> set store_schema" using that by (simp add: full_schema_def)
    then show ?thesis using tables2 later by blast
  qed
  moreover have "has_column (fst a) {fst (snd a)} d'" if "a \<in> set alterations" for a
    using alters [OF that] by (rule later)
  moreover have "case raw_tables d' ''reserved_signing_keys'' of None \<Rightarrow> True | Some T \<Rightarrow> list_all (\<lambda>r. \<not> legacy_reservation r) (tbRows T)"
    using run(3,4) by (auto simp: drop_rows_def create_table_def events_schema_def stmt_Inr_iff list_all_iff split: option.splits if_splits)
  ultimately show ?thesis by (force simp: arrived_def)
qed

lemma arrived_upgrade:
  assumes "arrived d"
  shows "upgrade t (raw_tables d t) = raw_tables d t"
proof (cases "raw_tables d t")
  case None
  have "(t, cols) \<notin> set full_schema" for cols using assms None by (auto simp: arrived_def has_column_def)
  then have "map_of full_schema t = None" by (cases "map_of full_schema t") (auto simp: schema_lookup)
  then show ?thesis using None by (simp add: upgrade_def)
next
  case (Some T)
  have col: "c \<in> tbCols T" if "default_of t c = Some v" for c v
  proof -
    have "(t, c, v) \<in> set alterations"
      using that by (auto simp: default_of_def alterations_def split: if_splits)
    then show ?thesis using assms Some by (fastforce simp: arrived_def has_column_def)
  qed
  have "fill_row t T = id" using col by (intro ext) (auto simp: fill_row_def split: option.split)
  moreover have "tbCols T \<union> {c. default_of t c \<noteq> None} = tbCols T" using col by auto
  moreover have "filter (kept_row t) (tbRows T) = tbRows T"
    using assms Some by (auto simp: arrived_def kept_row_def list_all_iff filter_id_conv)
  ultimately show ?thesis using Some by (simp add: upgrade_def upgrade_table_def)
qed

text \<open>Without a failure of the driver every start succeeds.\<close>

lemma goeach_runs:
  assumes "\<And>x d. x \<in> set xs \<Longrightarrow> P d \<Longrightarrow> \<exists>d'. f x d = (Inr (), d') \<and> P d'" "P d"
  shows "\<exists>d'. goeach f xs d = (Inr (), d') \<and> P d'"
  using assms
proof (induction xs arbitrary: d)
  case (Cons x xs)
  obtain d1 where "f x d = (Inr (), d1)" "P d1" using Cons.prems by force
  then show ?case using Cons.IH [of d1] Cons.prems(1) by simp
qed simp

lemma create_table_runs: "tape d = [] \<Longrightarrow> \<exists>d'. create_table tc d = (Inr (), d') \<and> tape d' = []"
  by (simp add: create_table_def)

lemma alter_once_runs:
  assumes "has_column t {} d" "tape d = []"
  shows "\<exists>d'. alter_once (t, c, v) d = (Inr (), d') \<and> tape d' = []"
proof -
  have "contains (''duplicate column name'' @ '': '' @ c) ''duplicate column name''" by (rule contains_prefix)
  then show ?thesis
    using assms by (auto simp: alter_once_def alter_table_def has_column_def split: option.splits)
qed

lemma open_runs:
  assumes "tape d = []"
  shows "fst (open_database d) = Inr ()"
proof -
  let ?P = "\<lambda>d. tape d = [] \<and> (\<forall>tc \<in> set store_schema. has_column (fst tc) {} d)"
  obtain d1 where d1: "goeach create_table store_schema d = (Inr (), d1)" "tape d1 = []"
    using goeach_runs [of store_schema "\<lambda>d. tape d = []" create_table d] create_table_runs assms by blast
  have "has_column (fst tc) {} d1" if "tc \<in> set store_schema" for tc
    using goeach_reaches [of store_schema "\<lambda>tc. has_column (fst tc) {}" create_table, OF has_column_kept(1) create_table_done d1(1) that] .
  then have P1: "?P d1" using d1(2) by simp
  have step: "\<exists>e'. alter_once a e = (Inr (), e') \<and> ?P e'" if a: "a \<in> set alterations" and P: "?P e" for a e
  proof -
    obtain t c v where abc: "a = (t, c, v)" by (cases a)
    have "t \<in> fst ` set store_schema" using a abc by (auto simp: alterations_def store_schema_def)
    then have "has_column t {} e" using P by auto
    then obtain e' where e': "alter_once a e = (Inr (), e')" "tape e' = []" using alter_once_runs P abc by blast
    then show ?thesis using P preservesE [OF has_column_kept(2) e'(1)] by blast
  qed
  obtain d2 where d2: "goeach alter_once alterations d1 = (Inr (), d2)" "?P d2"
    using goeach_runs [of alterations ?P alter_once d1, OF step P1] by blast
  have "''reserved_signing_keys'' \<in> fst ` set store_schema" by (simp add: store_schema_def)
  then have "has_column ''reserved_signing_keys'' {} d2" using d2(2) by auto
  then obtain d3 where d3: "drop_rows ''reserved_signing_keys'' legacy_reservation d2 = (Inr (), d3)" "tape d3 = []"
    using d2(2) by (auto simp: drop_rows_def has_column_def split: option.splits)
  obtain d4 where "create_table events_schema d3 = (Inr (), d4)" using create_table_runs d3(2) by blast
  then show ?thesis using d1(1) d2(1) d3(1) by (simp add: open_database_def store_migrate_def seq_migrate_def)
qed

text \<open>C19. Opening upgrades any older file, also after an interruption. However an earlier start ended, in an error
  at any statement included, the next start that succeeds leaves every table as the contract says of the
  file before both: old rows with old values, defaults in the new columns, no reservation without an
  expiry, missing tables empty. It does succeed when the driver does not fail, and opening once more
  changes nothing.\<close>

theorem migration_resumes:
  assumes "open_database d = (r, d1)" "open_database (d1\<lparr>tape := tp\<rparr>) = (Inr (), d2)"
  shows "raw_tables d2 t = upgrade t (raw_tables d t) \<and> fst (open_database (d1\<lparr>tape := []\<rparr>)) = Inr ()
    \<and> open_database (d2\<lparr>tape := []\<rparr>) = (Inr (), d2\<lparr>tape := []\<rparr>)"
proof (intro conjI)
  define goal where "goal t = upgrade t (raw_tables d t)" for t
  have "on_the_way goal d" by (simp add: on_the_way_def goal_def)
  then have "on_the_way goal d1" using preservesE [OF open_on_the_way assms(1)] by simp
  then have "on_the_way goal (d1\<lparr>tape := tp\<rparr>)" by (simp add: on_the_way_def)
  then have "on_the_way goal d2" using preservesE [OF open_on_the_way assms(2)] by simp
  then show "raw_tables d2 t = upgrade t (raw_tables d t)"
    using arrived_upgrade [OF open_arrives [OF assms(2)]] by (simp add: on_the_way_def goal_def)
  show "fst (open_database (d1\<lparr>tape := []\<rparr>)) = Inr ()" by (rule open_runs) simp
  have "arrived (d2\<lparr>tape := []\<rparr>)" using open_arrives [OF assms(2)] by (simp add: arrived_def has_column_def)
  then show "open_database (d2\<lparr>tape := []\<rparr>) = (Inr (), d2\<lparr>tape := []\<rparr>)" by (rule open_arrived) simp
qed

text \<open>A file from before the auth versions, whose first start under the new program fails at its seventh
  statement and whose second succeeds.\<close>

definition old_file :: raw_db where
  "old_file = \<lparr>tape = replicate 6 False @ [True], raw_tables = [''accounts'' \<mapsto>
     \<lparr>tbCols = {''did''}, tbRows = [[''did'' \<mapsto> SText ''did:plc:a'']]\<rparr>]\<rparr>"

theorem migration_resumes_witness:
  "map_option tbRows (raw_tables (snd (open_database ((snd (open_database old_file))\<lparr>tape := []\<rparr>))) ''accounts'')
     = Some [[''did'' \<mapsto> SText ''did:plc:a'', ''auth_version'' \<mapsto> SInt 1]]"
proof -

  obtain d2 where d2: "open_database ((snd (open_database old_file))\<lparr>tape := []\<rparr>) = (Inr (), d2)"
    using open_runs [of "(snd (open_database old_file))\<lparr>tape := []\<rparr>"] by (cases "open_database ((snd (open_database old_file))\<lparr>tape := []\<rparr>)") auto
  have "fill_row ''accounts'' \<lparr>tbCols = {''did''}, tbRows = rs\<rparr> [''did'' \<mapsto> SText ''did:plc:a'']
      = [''did'' \<mapsto> SText ''did:plc:a'', ''auth_version'' \<mapsto> SInt 1]" for rs
    by (intro ext) (auto simp: fill_row_def default_of_def alterations_def)
  then have "upgrade ''accounts'' (raw_tables old_file ''accounts'') = Some \<lparr>tbCols = {''did''} \<union> {c. default_of ''accounts'' c \<noteq> None},
      tbRows = [[''did'' \<mapsto> SText ''did:plc:a'', ''auth_version'' \<mapsto> SInt 1]]\<rparr>"
    by (simp add: old_file_def upgrade_def upgrade_table_def kept_row_def)
  then show ?thesis
    using migration_resumes [OF prod.collapse [symmetric] d2, of "''accounts''"] d2 by simp
qed

end
