(* ===== verification/Startup.thy ===== *)
theory Startup
  imports Cli Schema
begin

text \<open>
  Starting the server: \<^verbatim>\<open>runServe\<close> of \<^verbatim>\<open>cmd/robby/serve.go\<close> and \<^verbatim>\<open>NewServer\<close> of
  \<^verbatim>\<open>internal/xrpc/server.go\<close>. The machine is its files, for the configuration, and the database file.
  Parameters: the result of creating the data directory, the listener's error, and the crawl requests.
\<close>

record machine =
  mcFiles :: fsys
  mcDb :: raw_db

definition on_files :: "(fsys, 'a) op \<Rightarrow> (machine, 'a) op" where
  "on_files m s = (case m (mcFiles s) of (r, f) \<Rightarrow> (r, s\<lparr>mcFiles := f\<rparr>))"

definition on_db :: "(raw_db, 'a) op \<Rightarrow> (machine, 'a) op" where
  "on_db m s = (case m (mcDb s) of (r, d) \<Rightarrow> (r, s\<lparr>mcDb := d\<rparr>))"

text \<open>The server of a configuration; \<open>libs\<close> has the libraries.\<close>

definition configured :: "config \<Rightarrow> prefix list \<Rightarrow> string \<Rightarrow> ('t, 'k) server \<Rightarrow> ('t, 'k) server" where
  "configured cfg nets version libs = libs\<lparr>cfHostname := cgHostname cfg, cfPLCURL := cgPLCURL cfg,
     cfAppviewURL := cgAppviewURL cfg, cfAppviewDID := cgAppviewDID cfg, cfJWTSecret := cgJWTSecret cfg,
     cfAdminPassword := cgAdminPassword cfg, svAdminNets := nets, svVersion := version\<rparr>"

definition NewServer :: "config \<Rightarrow> prefix list \<Rightarrow> string \<Rightarrow> int \<Rightarrow> ('t, 'k) server \<Rightarrow>
    (machine, ('t, 'k) server \<times> 'l ip_limiter) op" where
  "NewServer cfg nets version now libs =
     gobind (on_db seq_migrate) (\<lambda>_. goret (configured cfg nets version libs, newIPRateLimiter now))"

definition start :: "toml_lib \<Rightarrow> go_error + bytes \<Rightarrow> go_error + bytes \<Rightarrow> string \<Rightarrow> string \<Rightarrow> go_error + unit \<Rightarrow>
    string \<Rightarrow> int \<Rightarrow> ('t, 'k) server \<Rightarrow> (machine, config \<times> ('t, 'k) server \<times> 'l ip_limiter) op" where
  "start lib rnd1 rnd2 tmp path mkdir version now libs =
     gobind (on_files (Load lib rnd1 rnd2 tmp path)) (\<lambda>(cfg, nets).
     gobind (wrapf ''creating data dir'' (liftE mkdir)) (\<lambda>_.
     gobind (on_db store_migrate) (\<lambda>_.
     gobind (NewServer cfg nets version now libs) (\<lambda>(sv, lim). goret (cfg, sv, lim)))))"

text \<open>Every relay of the configuration is asked to crawl; a failure is only logged.\<close>

definition startup_crawls :: "(string \<Rightarrow> string \<Rightarrow> go_error + unit) \<Rightarrow> config \<Rightarrow> (string \<times> (go_error + unit)) list" where
  "startup_crawls crawl cfg = map (\<lambda>r. (r, crawl r (cgHostname cfg))) (cgRelays cfg)"

text \<open>The first of the two channels that is ready ends the server: the listener's error, or a signal, after which
  the result is that of closing the listener.\<close>

datatype ending = ListenFailed go_error | Signalled "go_error + unit"

fun run_result :: "ending \<Rightarrow> go_error + unit" where
  "run_result (ListenFailed e) = Inl e"
| "run_result (Signalled r) = r"

definition runServe :: "toml_lib \<Rightarrow> go_error + bytes \<Rightarrow> go_error + bytes \<Rightarrow> string \<Rightarrow> string \<Rightarrow> go_error + unit \<Rightarrow>
    string \<Rightarrow> int \<Rightarrow> ('t, 'k) server \<Rightarrow> ending \<Rightarrow> (machine, unit) op" where
  "runServe lib rnd1 rnd2 tmp path mkdir version now libs ends =
     gobind (start lib rnd1 rnd2 tmp path mkdir version now libs :: (machine, config \<times> ('t, 'k) server \<times> unit ip_limiter) op)
       (\<lambda>_. liftE (run_result ends))"

text \<open>\<^verbatim>\<open>main\<close>: any error of the command makes the process exit with 1.\<close>

definition exit_status :: "go_error + unit \<Rightarrow> nat" where
  "exit_status r = (case r of Inl _ \<Rightarrow> 1 | Inr _ \<Rightarrow> 0)"

end
