(* ===== verification/CliSpec.thy ===== *)
theory CliSpec
  imports Startup Demo
begin

text \<open>
  The command line and the server agree: a request that \<^verbatim>\<open>robby account\<close> builds from the configuration is
  routed to the endpoint it is meant for, passes its guard from an admitted address, and has there the effect
  that the user asked for.
\<close>

section \<open>Credentials\<close>

lemma base64_std_strip:
  assumes "set s \<subseteq> set base64_alphabet" "(length s + n) mod 4 = 0" "n \<le> 2"
  shows "base64_std_decode (s @ replicate n (CHR ''='')) = base64_decode s"
proof -
  have eq: "CHR ''='' \<notin> set base64_alphabet" by (simp add: base64_alphabet_def)
  have "filter (\<lambda>c. c \<noteq> CHR 0x0A \<and> c \<noteq> CHR 0x0D) s = s"
    using assms(1) base64_alphabet_facts(4,5) by (intro filter_True) auto
  then have f: "filter (\<lambda>c. c \<noteq> CHR 0x0A \<and> c \<noteq> CHR 0x0D) (s @ replicate n (CHR ''='')) = s @ replicate n (CHR ''='')"
    by simp
  have "takeWhile (\<lambda>c. c = CHR ''='') (rev s) = []"
    using assms(1) eq by (cases "rev s") (auto simp: subset_iff rev_eq_Cons_iff)
  then have n: "length (takeWhile (\<lambda>c. c = CHR ''='') (rev (s @ replicate n (CHR ''='')))) = n"
    by (simp add: takeWhile_append)
  show ?thesis using assms(2,3) unfolding base64_std_decode_def f n Let_def by simp
qed

lemma base64_std_roundtrip: "base64_std_decode (base64_std_encode bs) = Some bs"
proof -
  define s where "s = base64_encode bs"
  define n where "n = (4 - length s mod 4) mod 4"
  have chars: "set s \<subseteq> set base64_alphabet"
    unfolding s_def base64_encode_def by (rule base_encode_chars) (simp_all add: base64_alphabet_facts)
  have "length s = (8 * length bs + 5) div 6"
    by (simp add: s_def base64_encode_def length_base_encode)
  then have m: "length s mod 4 \<noteq> 1" by presburger
  have small: "(r + (4 - r) mod 4) mod 4 = 0 \<and> (r = 1 \<or> (4 - r) mod 4 \<le> 2)" if "r < 4" for r :: nat
  proof -
    have "r = 0 \<or> r = 1 \<or> r = 2 \<or> r = 3" using that by linarith
    then show ?thesis by (elim disjE) simp_all
  qed
  have "(length s + n) mod 4 = (length s mod 4 + n) mod 4" by (rule mod_add_left_eq [symmetric])
  moreover have "(length s mod 4 + n) mod 4 = 0" "n \<le> 2"
    using m small [of "length s mod 4"] unfolding n_def by simp_all
  ultimately have "base64_std_decode (s @ replicate n (CHR ''='')) = base64_decode s"
    by (intro base64_std_strip chars) simp_all
  then show ?thesis using base64_roundtrip [of bs] unfolding base64_std_encode_def Let_def s_def n_def by simp
qed

lemma cut_colon: "cut (CHR '':'') (''admin'' @ '':'' @ p) = (''admin'', p, True)"
  by (simp add: cut_def)

lemma admin_password_read:
  assumes "header_get rq ''Authorization'' = basic_auth ''admin'' p"
  shows "basic_password rq = Some p"
proof -
  have "take 6 (basic_auth ''admin'' p) = ''Basic ''" "drop 6 (basic_auth ''admin'' p) = base64_std_encode (bytes_of (''admin'' @ '':'' @ p))"
    by (simp_all add: basic_auth_def)
  then show ?thesis
    using assms cut_colon [of p] by (simp add: basic_password_def base64_std_roundtrip Let_def)
qed

section \<open>Routes\<close>

fun command_handler :: "command \<Rightarrow> ('t, 'k) handler" where
  "command_handler (Create _ _) = handleAdminCreateAccount"
| "command_handler ListAll = handleAdminListAccounts"
| "command_handler (SetPassword _ _) = handleAdminSetPassword"
| "command_handler (Deactivate _) = handleAdminDeactivateAccount"
| "command_handler (Takedown _) = handleAdminTakedownAccount"
| "command_handler (ApprovePlcOp _) = handleAdminApproveToken"
| "command_handler (ApproveDelete _) = handleAdminApproveToken"
| "command_handler (RefreshIdentity _) = handleAdminRefreshIdentity"

definition public_paths :: "string list" where
  "public_paths = map (fst \<circ> snd) (server_routes @ repo_routes @ sync_routes handleSyncListRepos :: (unit, unit) route list)"

lemma no_admin_path: "list_all (\<lambda>p. take 10 p \<noteq> ''/xrpc/net.'') public_paths"
  by code_simp

lemma public_not_admin:
  assumes "rqPath rq = xrpc_path (admin_nsid name)"
  shows "find (route_matches rq) (server_routes @ repo_routes @ sync_routes subscribe) = None"
proof -
  have "map (fst \<circ> snd) (server_routes @ repo_routes @ sync_routes subscribe) = public_paths"
    by (simp add: public_paths_def server_routes_def repo_routes_def sync_routes_def get_route_def post_route_def)
  then have p: "(fst \<circ> snd) ` set (server_routes @ repo_routes @ sync_routes subscribe) = set public_paths"
    by (metis list.set_map)
  have "take 10 (fst (snd r)) \<noteq> ''/xrpc/net.''" if "r \<in> set (server_routes @ repo_routes @ sync_routes subscribe)" for r
  proof -
    have "(fst \<circ> snd) r \<in> set public_paths" unfolding p [symmetric] using that by (rule imageI)
    then show ?thesis using no_admin_path by (simp add: list_all_iff)
  qed
  moreover have "take 10 (rqPath rq) = ''/xrpc/net.''" by (simp add: assms xrpc_path_def admin_nsid_def)
  ultimately show ?thesis unfolding find_None_iff route_matches_def by force
qed

lemma admin_route:
  assumes "rqPath rq = xrpc_path (admin_nsid (command_name c))" "rqMethod rq = command_method c"
  shows "dispatch (all_routes subscribe) rq = Inl (Plain (requireAdmin (command_handler c)))"
proof -
  have "find (route_matches rq) admin_routes
      = Some (command_method c, xrpc_path (admin_nsid (command_name c)), Plain (requireAdmin (command_handler c)))"
    using assms by (cases c) (simp_all add: admin_routes_def get_route_def post_route_def route_matches_def
        method_matches_def command_method_def xrpc_path_def admin_nsid_def)
  moreover have "all_routes subscribe = (server_routes @ repo_routes @ sync_routes subscribe) @ admin_routes"
    by (simp add: all_routes_def)
  ultimately have "find (route_matches rq) (all_routes subscribe)
      = Some (command_method c, xrpc_path (admin_nsid (command_name c)), Plain (requireAdmin (command_handler c)))"
    using public_not_admin [OF assms(1), of subscribe] find_append by (metis option.simps(4))
  then show ?thesis by (simp add: dispatch_def)
qed

section \<open>From the command to the endpoint\<close>

text \<open>What the HTTP client and server of the standard library do with a request to \<open>base\<close>.\<close>

definition delivered :: "string \<Rightarrow> out_request \<Rightarrow> request \<Rightarrow> bool" where
  "delivered base out rq \<longleftrightarrow> rqMethod rq = orMethod out \<and> base @ rqPath rq = orURL out \<and> rqBody rq = orBody out
     \<and> (\<forall>(k, v) \<in> set (orHeaders out). header_get rq k = v)"

text \<open>What the user asked for: what the endpoint does with the arguments the user gave.\<close>

fun command_effect :: "command \<Rightarrow> ('t, 'k) server \<Rightarrow> request \<Rightarrow> world \<Rightarrow> response \<times> world" where
  "command_effect (Create handle pw) sv rq = serve (admin_create sv handle pw)"
| "command_effect ListAll sv rq = handleAdminListAccounts sv rq"
| "command_effect (SetPassword did pw) sv rq = serve (admin_set_password sv did pw)"
| "command_effect (Deactivate did) sv rq = serve (admin_deactivate sv did)"
| "command_effect (Takedown did) sv rq = serve (admin_takedown sv did)"
| "command_effect (ApprovePlcOp did) sv rq = serve (admin_approve sv did TokenPurposePLCSign)"
| "command_effect (ApproveDelete did) sv rq = serve (admin_approve sv did TokenPurposeDeleteAccount)"
| "command_effect (RefreshIdentity did) sv rq = serve (admin_refresh sv did)"

text \<open>The decoder of the server reads back the one value that the encoder of the CLI wrote.\<close>

definition reads_back :: "(bytes \<Rightarrow> json_read) \<Rightarrow> (data \<Rightarrow> bytes) \<Rightarrow> data option \<Rightarrow> bool" where
  "reads_back dec json body \<longleftrightarrow> (case body of None \<Rightarrow> True
     | Some v \<Rightarrow> dec (json v) = JsonVal v [] \<and> dec [] = JsonEOF \<and> length (json v) \<le> maxJSONBodyBytes)"

lemma keys_differ:
  "\<not> same_key ''handle'' ''password''" "\<not> same_key ''password'' ''handle''" "\<not> same_key ''did'' ''password''"
  "\<not> same_key ''password'' ''did''" "\<not> same_key ''did'' ''purpose''" "\<not> same_key ''purpose'' ''did''" "same_key k k"
  by (simp add: same_key_def, code_simp)+ (simp add: same_key_def)

lemma command_understood:
  assumes "rqBody rq = (case command_body c of None \<Rightarrow> [] | Some v \<Rightarrow> json v)" "reads_back (svJson sv) json (command_body c)"
  shows "command_handler c sv rq = command_effect c sv rq"
proof -
  have body: "decodeJSON (svJson sv) rq = Some v" if "command_body c = Some v" for v
    using assms that by (simp add: decodeJSON_def reads_back_def)
  show ?thesis
    by (cases c) (insert body, simp_all add: handleAdminCreateAccount_def handleAdminSetPassword_def
      handleAdminDeactivateAccount_def handleAdminTakedownAccount_def handleAdminApproveToken_def handleAdminRefreshIdentity_def
      decode_body_def read_pair_def str_field_def field_def keys_differ approveToken_def
      TokenPurposePLCSign_def TokenPurposeDeleteAccount_def)
qed

text \<open>C17. A command of the administration CLI does what it says. Take a server that started from a configuration,
  and the request that the CLI builds for a command from the same configuration. If it arrives from an address
  that the admin networks admit, and the server's JSON decoder reads back what the CLI's encoder wrote, then the
  password in it passes the guard and the whole server, its middleware and its table of routes, does with the
  request exactly what the command asks for with the arguments the user gave.\<close>

theorem admin_command_served:
  assumes "command_request json cfg c = Inr out" "adminBaseURL (cgListen cfg) = Inr base" "delivered base out rq"
    and "start toml rnd1 rnd2 tmp path mkdir version t0 libs m = (Inr (cfg, sv, lim), m')" "addrInPrefixes (clientAddr rq) (svAdminNets sv)"
    and "reads_back (svJson libs) json (command_body c)"
  shows "Handler rl now now' subscribe sv rq s
      = withCORS (\<lambda>rq s. case command_effect c sv rq (snd s) of (r, w) \<Rightarrow> (r, (fst s, w))) rq s"
proof -
  have out: "orMethod out = command_method c" "orURL out = base @ xrpc_path (admin_nsid (command_name c))"
    "orBody out = (case command_body c of None \<Rightarrow> [] | Some v \<Rightarrow> json v)"
    "(''Authorization'', basic_auth ''admin'' (cgAdminPassword cfg)) \<in> set (orHeaders out)"
    using assms(1,2) by (auto simp: command_request_def admin_request_def xrpc_path_def)
  have started: "cfAdminPassword sv = cgAdminPassword cfg \<and> svJson sv = svJson libs"
    using assms(4) by (auto simp: start_def NewServer_def configured_def gobind_Inr_iff split: prod.splits)
  have "header_get rq ''Authorization'' = basic_auth ''admin'' (cgAdminPassword cfg)"
    using assms(3) out(4) by (auto simp: delivered_def)
  then have guard: "requireAdmin h sv rq w = h sv rq w" for h w
    using admin_password_read assms(5) started by (simp add: requireAdmin_def)
  have "dispatch (all_routes subscribe) rq = Inl (Plain (requireAdmin (command_handler c)))"
    using assms(3) out by (intro admin_route) (simp_all add: delivered_def)
  moreover have "command_handler c sv rq = command_effect c sv rq"
    using assms(3,6) out(3) started by (intro command_understood [where json = json]) (simp_all add: delivered_def)
  ultimately show ?thesis by (simp add: Handler_def withCORS_def run_target_def guard)
qed

text \<open>The default configuration with a password, a new database file, and a takedown from the same machine.\<close>

definition demo_config :: config where
  "demo_config = defaults\<lparr>cgHostname := ''pds.test'', cgDataDir := ''data'', cgJWTSecret := ''s3cret'', cgAdminPassword := ''admin''\<rparr>"

definition demo_toml :: toml_lib where
  "demo_toml = \<lparr>toml_read = (\<lambda>b cfg. Inr demo_config), toml_write = (\<lambda>cfg. Inr [])\<rparr>"

definition demo_machine :: machine where
  "demo_machine = \<lparr>mcFiles = \<lparr>tape = [], files = [''robby.toml'' \<mapsto> \<lparr>fnKind = Regular, fnMode = 420, fnData = [1]\<rparr>]\<rparr>,
     mcDb = \<lparr>tape = [], raw_tables = (\<lambda>t. None)\<rparr>\<rparr>"

definition demo_json_text :: "data \<Rightarrow> bytes" where
  "demo_json_text v = [1]"

abbreviation demo_libs :: "((string \<times> cid) list, string) server" where
  "demo_libs \<equiv> demo_server\<lparr>svJson := demo_json (DMap [(''did'', DStr ''did:plc:a'')])\<rparr>"

definition demo_takedown :: request where
  "demo_takedown = demo_request\<lparr>rqPath := ''/xrpc/net.vrypan.robby.admin.takedownAccount'', rqBody := [1],
     rqHeaders := [(''Authorization'', basic_auth ''admin'' ''admin''), (''Content-Type'', ''application/json'')],
     rqRemoteAddr := ''127.0.0.1:5000''\<rparr>"

lemma demo_start:
  "\<exists>nets lim m'. start demo_toml (Inr []) (Inr []) ''tmp'' ''robby.toml'' (Inr ()) ''devel'' 0 demo_libs demo_machine
     = (Inr (demo_config, configured demo_config nets ''devel'' demo_libs, lim), m') \<and> addrInPrefixes (clientAddr demo_takedown) nets"
proof -
  have "case parse_networks ''robby.toml'' (cgAdminNetworks demo_config) of
      Inl e \<Rightarrow> False | Inr nets \<Rightarrow> addrInPrefixes (clientAddr demo_takedown) nets"
    by code_simp
  then obtain nets where nets: "parse_networks ''robby.toml'' (cgAdminNetworks demo_config) = Inr nets"
    "addrInPrefixes (clientAddr demo_takedown) nets" by (auto split: sum.splits)
  have cfg: "cgHostname demo_config \<noteq> ''''" "cgDataDir demo_config \<noteq> ''''" "cgJWTSecret demo_config \<noteq> ''''"
    "cgAdminPassword demo_config \<noteq> ''''"
    by (simp_all add: demo_config_def)
  have "read_config demo_toml (Inr []) (Inr []) ''robby.toml'' b = Inr ((demo_config, False), nets)" for b
    using nets(1) cfg by (simp add: read_config_def demo_toml_def fill_jwt_secret_def fill_admin_password_def)
  then have "\<exists>f. Load demo_toml (Inr []) (Inr []) ''tmp'' ''robby.toml'' (mcFiles demo_machine) = (Inr (demo_config, nets), f)"
    by (simp add: Load_def validateRegularConfig_def Lstat_def ReadFile_def lift_sum_def makeConfigPrivate_def verifyPrivateConfig_def
        Chmod_def change_file_def stmt_def gobind_def wrapf_def demo_machine_def private_mode_def)
  then obtain f where load: "Load demo_toml (Inr []) (Inr []) ''tmp'' ''robby.toml'' (mcFiles demo_machine) = (Inr (demo_config, nets), f)"
    by blast
  have "fst (open_database (mcDb demo_machine)) = Inr ()" by (rule open_runs) (simp add: demo_machine_def)
  then have "\<exists>d2. open_database (mcDb demo_machine) = (Inr (), d2)" by (cases "open_database (mcDb demo_machine)") auto
  then obtain d1 d2 where d: "store_migrate (mcDb demo_machine) = (Inr (), d1)" "seq_migrate d1 = (Inr (), d2)"
    unfolding open_database_def gobind_Inr_iff by auto
  show ?thesis
    using nets(2) by (intro exI [of _ nets]) (simp add: start_def NewServer_def on_files_def load on_db_def d gobind_def liftE_def)
qed

theorem admin_command_served_witness:
  "\<exists>sv :: ((string \<times> cid) list, string) server. cfAdminPassword sv = ''admin'' \<and> (\<forall>rl now now' subscribe s. Handler rl now now' subscribe sv demo_takedown s
     = withCORS (\<lambda>rq s. case serve (admin_takedown sv ''did:plc:a'') (snd s) of (r, w) \<Rightarrow> (r, (fst s, w))) demo_takedown s)"
proof -
  obtain nets and lim :: "unit ip_limiter" and m' where start:
    "start demo_toml (Inr []) (Inr []) ''tmp'' ''robby.toml'' (Inr ()) ''devel'' 0 demo_libs demo_machine
       = (Inr (demo_config, configured demo_config nets ''devel'' demo_libs, lim), m')"
    "addrInPrefixes (clientAddr demo_takedown) nets"
    using demo_start by blast
  let ?sv = "configured demo_config nets ''devel'' demo_libs"
  have base: "adminBaseURL (cgListen demo_config) = Inr ''http://127.0.0.1:3000''" by code_simp
  have pw: "cgAdminPassword demo_config = ''admin''" by (simp add: demo_config_def)
  define out where "out = \<lparr>orMethod = ''POST'', orURL = ''http://127.0.0.1:3000/xrpc/net.vrypan.robby.admin.takedownAccount'',
    orHeaders = [(''Authorization'', basic_auth ''admin'' ''admin''), (''Content-Type'', ''application/json'')], orBody = [1]\<rparr>"
  have out: "command_request demo_json_text demo_config (Takedown ''did:plc:a'') = Inr out"
    by (simp add: command_request_def admin_request_def base pw out_def command_method_def admin_nsid_def demo_json_text_def)
  have d: "delivered ''http://127.0.0.1:3000'' out demo_takedown"
    by (simp add: out_def delivered_def demo_takedown_def demo_request_def header_get_def first_value_def)
  have nets: "addrInPrefixes (clientAddr demo_takedown) (svAdminNets ?sv)" using start(2) by (simp add: configured_def)
  have "cfAdminPassword ?sv = ''admin''" by (simp add: configured_def pw)
  moreover have "reads_back (svJson demo_libs) demo_json_text (command_body (Takedown ''did:plc:a''))"
    by (simp add: reads_back_def demo_json_text_def demo_json_def maxJSONBodyBytes_def)
  ultimately show ?thesis
    using admin_command_served [OF out base d start(1) nets] unfolding command_effect.simps by blast
qed

end
