(* ===== verification/Subscribe.thy ===== *)
theory Subscribe
  imports SequencerSpec
begin

text \<open>
  \<^verbatim>\<open>internal/xrpc/subscribe.go\<close>: a \<^verbatim>\<open>subscribeRepos\<close> session beside the appends of the rest of the
  server, as a step relation. The session is a program counter and its local variables; between
  any two of its steps other requests may commit events and broadcast them. \<^verbatim>\<open>Append\<close> broadcasts
  after its transaction, outside any lock that orders it, so a committed event waits in \<open>sPend\<close>
  until some later step broadcasts it. A write to the websocket fails as the tape of the
  connection says, and closing the socket is a step of its own.
\<close>

section \<open>The session\<close>

datatype frame = OutEvent int bytes | OutFrame bytes | OutClose

record conn = dbconn +
  sLast :: int
  sOut :: "frame list"

datatype pc = PCursor int | PNoCursor | PEarliest int | PBackfill int | PLive | PEnd

record sys =
  sLog :: seqdb
  sPend :: "msg list"
  sPc :: pc
  sSeen :: int
  sConn :: conn

definition ws_write :: "frame \<Rightarrow> (conn, unit) op" where
  "ws_write f = stmt (\<lambda>c. (Inr (), c\<lparr>sOut := sOut c @ [f]\<rparr>))"

text \<open>\<^verbatim>\<open>sendFrame\<close> and \<^verbatim>\<open>closeClean\<close> ignore every error.\<close>

definition sendFrame :: "cbor_lib \<Rightarrow> event \<Rightarrow> conn \<Rightarrow> conn" where
  "sendFrame lib evt c = (case Serialize lib evt of
     Inl _ \<Rightarrow> c | Inr b \<Rightarrow> snd (ws_write (OutFrame b) c))"

definition closeClean :: "conn \<Rightarrow> conn" where
  "closeClean c = snd (ws_write OutClose c)"

definition future_cursor :: event where
  "future_cursor = no_event\<lparr>EvError := Some \<lparr>efError = ''FutureCursor'',
     efMessage = ''requested cursor is ahead of the latest known sequence''\<rparr>\<rparr>"

definition outdated_cursor :: event where
  "outdated_cursor = no_event\<lparr>Info := Some \<lparr>inName = ''OutdatedCursor'', inMessage = Some
     ''requested cursor is before the earliest available event; resuming from latest''\<rparr>\<rparr>"

text \<open>The callback of the backfill and the delivery of a live message.\<close>

definition emit_event :: "int \<times> bytes \<Rightarrow> (conn, unit) op" where
  "emit_event x = gobind (ws_write (OutEvent (fst x) (snd x))) (\<lambda>_ c. (Inr (), c\<lparr>sLast := fst x\<rparr>))"

text \<open>Leaving the handler cancels the subscription.\<close>

definition finish :: "nat \<Rightarrow> sys \<Rightarrow> sys" where
  "finish ch s = s\<lparr>sPc := PEnd, sLog := cancel_sub ch (sLog s)\<rparr>"

definition live_step :: "nat \<Rightarrow> sys \<Rightarrow> sys" where
  "live_step ch s = (case receive ch (sLog s) of
     (None, _) \<Rightarrow> s
   | (Some m, d) \<Rightarrow>
       (let s' = s\<lparr>sLog := d\<rparr> in
        if mSeq m \<le> sLast (sConn s) then s'
        else (case emit_event (mSeq m, mPayload m) (sConn s) of
                (Inl _, c) \<Rightarrow> finish ch (s'\<lparr>sConn := c\<rparr>)
              | (Inr _, c) \<Rightarrow> s'\<lparr>sConn := c\<rparr>)))"

definition sess_step :: "cbor_lib \<Rightarrow> nat \<Rightarrow> sys \<Rightarrow> sys" where
  "sess_step lib ch s = (case sPc s of
     PCursor cursor \<Rightarrow>
       (case LatestSeq (sLog s) of
          (Inl _, d) \<Rightarrow> finish ch (s\<lparr>sLog := d\<rparr>)
        | (Inr latest, d) \<Rightarrow>
            if latest < cursor
            then finish ch (s\<lparr>sLog := d, sConn := closeClean (sendFrame lib future_cursor (sConn s))\<rparr>)
            else s\<lparr>sLog := d, sSeen := latest, sPc := PEarliest cursor\<rparr>)
   | PNoCursor \<Rightarrow>
       (case LatestSeq (sLog s) of
          (Inl _, d) \<Rightarrow> finish ch (s\<lparr>sLog := d\<rparr>)
        | (Inr latest, d) \<Rightarrow> s\<lparr>sLog := d, sSeen := latest, sConn := (sConn s)\<lparr>sLast := latest\<rparr>, sPc := PLive\<rparr>)
   | PEarliest cursor \<Rightarrow>
       (case EarliestSeq (sLog s) of
          (Inl _, d) \<Rightarrow> finish ch (s\<lparr>sLog := d\<rparr>)
        | (Inr earliest, d) \<Rightarrow>
            if 0 < earliest \<and> cursor < earliest - 1
            then s\<lparr>sLog := d, sConn := (sendFrame lib outdated_cursor (sConn s))\<lparr>sLast := sSeen s\<rparr>, sPc := PLive\<rparr>
            else s\<lparr>sLog := d, sPc := PBackfill cursor\<rparr>)
   | PBackfill cursor \<Rightarrow>
       (case Backfill cursor emit_event (sConn s) (sLog s) of
          (Inr (Inr _, c), d) \<Rightarrow> s\<lparr>sLog := d, sConn := c, sPc := PLive\<rparr>
        | (Inr (Inl _, c), d) \<Rightarrow> finish ch (s\<lparr>sLog := d, sConn := c\<rparr>)
        | (Inl _, d) \<Rightarrow> finish ch (s\<lparr>sLog := d\<rparr>))
   | PLive \<Rightarrow> live_step ch s
   | PEnd \<Rightarrow> s)"

text \<open>Opening the session: \<open>None\<close> is the 400 for a cursor that is not a number.\<close>

definition parse_cursor :: "string \<Rightarrow> pc option" where
  "parse_cursor cs = (if cs = '''' then Some PNoCursor else map_option PCursor (ParseInt cs))"

definition sub_open :: "string \<Rightarrow> bool list \<Rightarrow> seqdb \<Rightarrow> msg list \<Rightarrow> (nat \<times> sys) option" where
  "sub_open cs conn_tape d pend = (case parse_cursor cs of
     None \<Rightarrow> None
   | Some p \<Rightarrow> (case Subscribe d of
       (Inr ch, d') \<Rightarrow> Some (ch, \<lparr>sLog = d', sPend = pend, sPc = p, sSeen = 0,
          sConn = \<lparr>tape = conn_tape, sLast = 0, sOut = []\<rparr>\<rparr>)
     | (Inl _, _) \<Rightarrow> None))"

section \<open>Steps of the whole\<close>

definition msg_of :: "int \<times> bytes \<Rightarrow> msg" where
  "msg_of x = \<lparr>mSeq = fst x, mPayload = snd x\<rparr>"

inductive step :: "cbor_lib \<Rightarrow> (int \<Rightarrow> string) \<Rightarrow> nat \<Rightarrow> sys \<Rightarrow> sys \<Rightarrow> bool" for lib fmt_sec ch where
  Session: "step lib fmt_sec ch s (sess_step lib ch s)"
| Disconnect: "step lib fmt_sec ch s (finish ch s)"
| Commit: "append_tx lib fmt_sec now did evt (sLog s) = (Inr x, d) \<Longrightarrow>
    step lib fmt_sec ch s (s\<lparr>sLog := d, sPend := sPend s @ [msg_of x]\<rparr>)"
| Fail: "append_tx lib fmt_sec now did evt (sLog s) = (Inl e, d) \<Longrightarrow> step lib fmt_sec ch s (s\<lparr>sLog := d\<rparr>)"
| Broadcast: "sPend s = xs @ m # ys \<Longrightarrow>
    step lib fmt_sec ch s (s\<lparr>sLog := broadcast (mSeq m) (mPayload m) (sLog s), sPend := xs @ ys\<rparr>)"

inductive_cases stepE: "step lib fmt_sec ch s s'"

inductive reach :: "cbor_lib \<Rightarrow> (int \<Rightarrow> string) \<Rightarrow> nat \<Rightarrow> sys \<Rightarrow> sys \<Rightarrow> bool" for lib fmt_sec ch s0 where
  Start: "reach lib fmt_sec ch s0 s0"
| Next: "reach lib fmt_sec ch s0 s \<Longrightarrow> step lib fmt_sec ch s s' \<Longrightarrow> reach lib fmt_sec ch s0 s'"

section \<open>Delivery is strictly ordered\<close>

text \<open>The sequence numbers of the events a client has been sent.\<close>

definition delivered_of :: "conn \<Rightarrow> int list" where
  "delivered_of c = [n. OutEvent n p \<leftarrow> sOut c]"

definition delivered :: "sys \<Rightarrow> int list" where
  "delivered s = delivered_of (sConn s)"

definition ordered_conn :: "conn \<Rightarrow> bool" where
  "ordered_conn c \<longleftrightarrow> sorted_wrt (<) (delivered_of c) \<and> (\<forall>n \<in> set (delivered_of c). n \<le> sLast c)"

text \<open>Before the live phase nothing has been delivered.\<close>

definition fresh_pc :: "pc \<Rightarrow> bool" where
  "fresh_pc p \<longleftrightarrow> p \<noteq> PLive \<and> p \<noteq> PEnd"

definition order_inv :: "sys \<Rightarrow> bool" where
  "order_inv s \<longleftrightarrow> ordered_conn (sConn s) \<and> (fresh_pc (sPc s) \<longrightarrow> delivered_of (sConn s) = [])"

lemma delivered_append [simp]:
  "delivered_of (c\<lparr>sOut := xs @ [OutEvent n p]\<rparr>) = delivered_of (c\<lparr>sOut := xs\<rparr>) @ [n]"
  "delivered_of (c\<lparr>sOut := xs @ [OutFrame b]\<rparr>) = delivered_of (c\<lparr>sOut := xs\<rparr>)"
  "delivered_of (c\<lparr>sOut := xs @ [OutClose]\<rparr>) = delivered_of (c\<lparr>sOut := xs\<rparr>)"
  "delivered_of (c\<lparr>tape := t\<rparr>) = delivered_of c" "delivered_of (c\<lparr>sLast := l\<rparr>) = delivered_of c"
  "delivered_of (c\<lparr>sOut := sOut c\<rparr>) = delivered_of c"
  by (simp_all add: delivered_of_def)

lemma delivered_write:
  "delivered_of (snd (ws_write (OutFrame b) c)) = delivered_of c"
  "delivered_of (snd (ws_write OutClose c)) = delivered_of c"
  "sLast (snd (ws_write f c)) = sLast c"
  by (simp_all add: ws_write_def stmt_def Let_def delivered_of_def)

lemma delivered_frames [simp]:
  "delivered_of (sendFrame lib e c) = delivered_of c" "sLast (sendFrame lib e c) = sLast c"
  "delivered_of (closeClean c) = delivered_of c" "sLast (closeClean c) = sLast c"
  by (simp_all add: sendFrame_def closeClean_def delivered_write split: sum.split)

lemma emit_event_eq:
  "emit_event (n, p) c = (if next_fault (tape c) then (Inl ErrDB, c\<lparr>tape := tl (tape c)\<rparr>)
     else (Inr (), c\<lparr>tape := tl (tape c), sOut := sOut c @ [OutEvent n p], sLast := n\<rparr>))"
  by (simp add: emit_event_def ws_write_def stmt_def gobind_def Let_def)

lemma emit_event_delivers:
  assumes "emit_event (n, p) c = (r, c')"
  shows "(r = Inr () \<and> delivered_of c' = delivered_of c @ [n] \<and> sLast c' = n)
    \<or> (\<exists>e. r = Inl e \<and> delivered_of c' = delivered_of c \<and> sLast c' = sLast c)"
  using assms by (auto simp: emit_event_eq delivered_of_def split: if_splits)

lemma ordered_emit:
  assumes "emit_event (n, p) c = (r, c')" "ordered_conn c" "sLast c < n"
  shows "ordered_conn c'"
  using emit_event_delivers [OF assms(1)] assms(2,3)
  by (fastforce simp: ordered_conn_def sorted_wrt_append)

lemma emit_rows:
  assumes "goeach emit_event rows c = (r, c')" "sorted_wrt (<) (map fst rows)"
    "ordered_conn c" "\<forall>x \<in> set rows. \<forall>n \<in> set (delivered_of c). n < fst x"
  shows "ordered_conn c' \<and> (r = Inr () \<longrightarrow> delivered_of c' = delivered_of c @ map fst rows
    \<and> sLast c' = (if rows = [] then sLast c else fst (last rows)))"
  using assms
proof (induction rows arbitrary: c)
  case Nil
  then show ?case by simp
next
  case (Cons x rows)
  obtain n p where x: "x = (n, p)" by (cases x)
  obtain r1 c1 where e: "emit_event (n, p) c = (r1, c1)" by fastforce
  have oc: "ordered_conn c1"
    using emit_event_delivers [OF e] Cons.prems(3,4) x
    by (fastforce simp: ordered_conn_def sorted_wrt_append)
  show ?case
  proof (cases r1)
    case (Inl err)
    then show ?thesis using Cons.prems(1) e x oc by auto
  next
    case (Inr u)
    then have run: "goeach emit_event rows c1 = (r, c')" using Cons.prems(1) e x by simp
    have d1: "delivered_of c1 = delivered_of c @ [n]" "sLast c1 = n"
      using emit_event_delivers [OF e] Inr by auto
    have below: "\<forall>y \<in> set rows. \<forall>k \<in> set (delivered_of c1). k < fst y"
      using Cons.prems(2,4) x d1 by auto
    have "sorted_wrt (<) (map fst rows)" using Cons.prems(2) by simp
    from Cons.IH [OF run this oc below] show ?thesis
      using d1 x by auto
  qed
qed

text \<open>The log as the session sees it.\<close>

definition sys_inv :: "sys \<Rightarrow> bool" where
  "sys_inv s \<longleftrightarrow> seq_inv (sLog s) \<and> order_inv s"

lemma seq_inv_cong:
  "events d' = events d \<Longrightarrow> last_seq d' = last_seq d \<Longrightarrow> seq_inv d' = seq_inv d"
  by (simp add: seq_inv_def)

text \<open>What the session's own steps leave alone.\<close>

definition same_log :: "seqdb \<Rightarrow> seqdb \<Rightarrow> bool" where
  "same_log d d' \<longleftrightarrow> events d' = events d \<and> last_seq d' = last_seq d"

lemma same_log_refl [simp]: "same_log d d"
  by (simp add: same_log_def)

lemma same_log_reads:
  "LatestSeq d = (r, d') \<Longrightarrow> same_log d d' \<and> subs d' = subs d"
  "EarliestSeq d = (r, d') \<Longrightarrow> same_log d d' \<and> subs d' = subs d"
  "Backfill since emit c d = (y, d') \<Longrightarrow> same_log d d' \<and> subs d' = subs d"
  by (auto simp: LatestSeq_def EarliestSeq_def Backfill_def query_row_def stmt_def Let_def same_log_def
      split: if_splits)

lemma same_log_receive: "receive ch d = (m, d') \<Longrightarrow> same_log d d'"
  by (auto simp: receive_def same_log_def split: option.splits list.splits)

lemma same_log_other [simp]: "same_log d (cancel_sub ch d)" "same_log d (broadcast n p d)"
  by (simp_all add: cancel_sub_def broadcast_def same_log_def)

lemma same_log_trans: "same_log d d1 \<Longrightarrow> same_log d1 d2 \<Longrightarrow> same_log d d2"
  by (simp add: same_log_def)

lemma finish_log [simp]: "same_log (sLog s) (sLog (finish ch s))" "sConn (finish ch s) = sConn s"
  "sPc (finish ch s) = PEnd"
  by (simp_all add: finish_def)

lemma live_step_inv:
  assumes "order_inv s" "sPc s = PLive"
  shows "order_inv (live_step ch s) \<and> same_log (sLog s) (sLog (live_step ch s))"
proof (cases "receive ch (sLog s)")
  case (Pair mo d)
  have log: "same_log (sLog s) d" using same_log_receive [OF Pair] .
  show ?thesis
  proof (cases mo)
    case None
    then show ?thesis using assms Pair by (simp add: live_step_def)
  next
    case (Some m)
    obtain r c where e: "emit_event (mSeq m, mPayload m) (sConn s) = (r, c)" by fastforce
    show ?thesis
    proof (cases "mSeq m \<le> sLast (sConn s)")
      case True
      then show ?thesis using assms Pair Some log by (simp add: live_step_def order_inv_def fresh_pc_def)
    next
      case False
      then have "ordered_conn c" using ordered_emit [OF e] assms(1) by (simp add: order_inv_def)
      moreover have "same_log (sLog s) (cancel_sub ch d)" using log same_log_trans same_log_other(1) by blast
      ultimately show ?thesis
        using assms Pair Some False e log
        by (auto simp: live_step_def order_inv_def fresh_pc_def Let_def finish_def split: sum.split)
    qed
  qed
qed

lemma backfill_conn:
  assumes "seq_inv d" "Backfill cursor emit_event c d = (Inr (r, c'), d')" "ordered_conn c" "delivered_of c = []"
  shows "ordered_conn c' \<and> (r = Inr () \<longrightarrow>
     delivered_of c' = map evSeq (filter (\<lambda>e. cursor < evSeq e) (events d))
     \<and> sLast c' = (if delivered_of c' = [] then sLast c else last (delivered_of c')))"
proof (cases "next_fault (tape d)")
  case True
  then show ?thesis using assms by (auto simp: Backfill_def query_row_def)
next
  case False
  let ?rows = "map (\<lambda>r. (evSeq r, evPayload r)) (filter (\<lambda>r. cursor < evSeq r) (events d))"
  have run: "goeach emit_event ?rows c = (r, c')"
    using backfill_rows_exact [OF assms(1), of cursor] False assms(2)
    by (simp add: Backfill_def query_row_def)
  have fst: "map fst ?rows = map evSeq (filter (\<lambda>e. cursor < evSeq e) (events d))" by (simp add: comp_def)
  have "sorted_wrt (<) (map fst ?rows)"
    unfolding fst using assms(1) by (auto simp: seq_inv_def sorted_wrt_map sorted_wrt_filter)
  from emit_rows [OF run this assms(3)] show ?thesis
    using assms(4) unfolding fst by (auto simp: last_map)
qed

lemma sess_step_inv:
  assumes "sys_inv s"
  shows "sys_inv (sess_step lib ch s) \<and> same_log (sLog s) (sLog (sess_step lib ch s))"
proof -
  have log: "same_log (sLog s) (sLog (sess_step lib ch s))"
  proof (cases "sPc s")
    case PLive
    then show ?thesis using assms live_step_inv by (simp add: sess_step_def sys_inv_def)
  qed (auto simp: sess_step_def finish_def cancel_sub_def same_log_def split: prod.split sum.split
      dest: same_log_reads)
  have ord: "order_inv (sess_step lib ch s)"
  proof (cases "sPc s")
    case (PBackfill cursor)
    obtain y d where b: "Backfill cursor emit_event (sConn s) (sLog s) = (y, d)" by fastforce
    show ?thesis
    proof (cases y)
      case (Inl e)
      then show ?thesis using assms PBackfill b
        by (simp add: sess_step_def finish_def order_inv_def sys_inv_def fresh_pc_def)
    next
      case (Inr rc)
      then obtain r c where y: "y = Inr (r, c)" by (cases rc) auto
      have "ordered_conn c"
        using backfill_conn [OF _ b [unfolded y]] assms PBackfill
        by (simp add: sys_inv_def order_inv_def fresh_pc_def)
      then show ?thesis using PBackfill b y
        by (auto simp: sess_step_def finish_def order_inv_def fresh_pc_def split: sum.split)
    qed
  next
    case PLive
    then show ?thesis using assms live_step_inv by (simp add: sess_step_def sys_inv_def)
  qed (use assms in \<open>auto simp: sess_step_def finish_def order_inv_def sys_inv_def fresh_pc_def
      ordered_conn_def split: prod.split sum.split\<close>)
  show ?thesis
    using assms log ord seq_inv_cong [of "sLog (sess_step lib ch s)" "sLog s"]
    by (simp add: sys_inv_def same_log_def)
qed

lemma append_tx_inv:
  assumes "append_tx lib fmt_sec now did evt d = (r, d')" "seq_inv d"
  shows "seq_inv d'"
proof (cases r)
  case (Inl e)
  then show ?thesis using append_tx_err [of lib fmt_sec now did evt d e d'] assms by (auto simp: seq_inv_def)
next
  case (Inr x)
  obtain n p where x: "x = (n, p)" by (cases x)
  obtain ty where "last_seq d' = last_seq d + 1"
    "events d' = filter (retained fmt_sec now) (events d @ [new_row fmt_sec now did (last_seq d + 1) ty p])"
    using append_tx_ok [OF assms(1) [unfolded Inr x] assms(2)] by auto
  then show ?thesis by (intro seq_inv_grow [OF assms(2)]) (auto simp: new_row_def)
qed

lemma step_inv: "step lib fmt_sec ch s s' \<Longrightarrow> sys_inv s \<Longrightarrow> sys_inv s'"
proof (induction rule: step.induct)
  case (Session s)
  then show ?case using sess_step_inv by blast
next
  case (Disconnect s)
  then show ?case
    by (simp add: sys_inv_def order_inv_def finish_def cancel_sub_def fresh_pc_def seq_inv_def)
next
  case (Commit now did evt s x d)
  then show ?case using append_tx_inv by (auto simp: sys_inv_def order_inv_def)
next
  case (Fail now did evt s e d)
  then show ?case using append_tx_inv by (auto simp: sys_inv_def order_inv_def)
next
  case (Broadcast s xs m ys)
  then show ?case by (simp add: sys_inv_def order_inv_def broadcast_def seq_inv_def)
qed

lemma reach_inv: "reach lib fmt_sec ch s0 s \<Longrightarrow> sys_inv s0 \<Longrightarrow> sys_inv s"
  by (induction rule: reach.induct) (auto intro: step_inv)

lemma sub_open_inv:
  assumes "sub_open cs ct d pend = Some (ch, s0)" "seq_inv d"
  shows "sys_inv s0"
  using assms
  by (auto simp: sub_open_def Subscribe_def parse_cursor_def sys_inv_def order_inv_def ordered_conn_def
      delivered_of_def seq_inv_def Let_def split: option.splits if_splits prod.splits)

text \<open>C25. A firehose session never repeats or reorders an event: whatever the cursor, however commits
  and broadcasts of other requests interleave with it and in whatever order the broadcasts come,
  the sequence numbers a client receives strictly increase.\<close>

theorem subscriber_order:
  assumes "sub_open cs conn_tape d pend = Some (ch, s0)" "seq_inv d" "reach lib fmt_sec ch s0 s"
  shows "sorted_wrt (<) (delivered s)"
  using reach_inv [OF assms(3) sub_open_inv [OF assms(1,2)]]
  by (simp add: sys_inv_def order_inv_def ordered_conn_def delivered_def)

section \<open>Delivery without gaps\<close>

text \<open>
  What has to hold of a run for its session to miss nothing: broadcasts come in the order of the
  commits and find room in the buffer, and no event newer than the session's start is trimmed
  before its backfill has read the log (\<open>trim_keeps_window\<close> shows that trimming takes 72 hours).
\<close>

definition buffer :: "nat \<Rightarrow> sys \<Rightarrow> msg list" where
  "buffer ch s = (case map_of (subs (sLog s)) ch of None \<Rightarrow> [] | Some ms \<Rightarrow> ms)"

definition waiting :: "nat \<Rightarrow> sys \<Rightarrow> int list" where
  "waiting ch s = map mSeq (buffer ch s @ sPend s)"

definition keeps_new :: "sys \<Rightarrow> seqdb \<Rightarrow> bool" where
  "keeps_new s d \<longleftrightarrow> last_seq d \<in> evSeq ` set (events d) \<and> (case sPc s of
     PEarliest c \<Rightarrow> \<forall>r \<in> set (events (sLog s)). sSeen s < evSeq r \<longrightarrow> r \<in> set (events d)
   | PBackfill c \<Rightarrow> \<forall>r \<in> set (events (sLog s)). sSeen s < evSeq r \<longrightarrow> r \<in> set (events d)
   | _ \<Rightarrow> True)"

inductive calm :: "cbor_lib \<Rightarrow> (int \<Rightarrow> string) \<Rightarrow> nat \<Rightarrow> sys \<Rightarrow> sys \<Rightarrow> bool" for lib fmt_sec ch where
  CSession: "calm lib fmt_sec ch s (sess_step lib ch s)"
| CDisconnect: "calm lib fmt_sec ch s (finish ch s)"
| CCommit: "append_tx lib fmt_sec now did evt (sLog s) = (Inr x, d) \<Longrightarrow> keeps_new s d \<Longrightarrow>
    calm lib fmt_sec ch s (s\<lparr>sLog := d, sPend := sPend s @ [msg_of x]\<rparr>)"
| CFail: "append_tx lib fmt_sec now did evt (sLog s) = (Inl e, d) \<Longrightarrow> calm lib fmt_sec ch s (s\<lparr>sLog := d\<rparr>)"
| CBroadcast: "sPend s = m # ys \<Longrightarrow> length (buffer ch s) < chan_cap \<Longrightarrow>
    calm lib fmt_sec ch s (s\<lparr>sLog := broadcast (mSeq m) (mPayload m) (sLog s), sPend := ys\<rparr>)"

lemma calm_step: "calm lib fmt_sec ch s s' \<Longrightarrow> step lib fmt_sec ch s s'"
proof (induction rule: calm.induct)
  case (CBroadcast s m ys)
  then show ?case using Broadcast [of s "[]" m ys] by simp
qed (auto intro: step.intros)

inductive calm_reach :: "cbor_lib \<Rightarrow> (int \<Rightarrow> string) \<Rightarrow> nat \<Rightarrow> sys \<Rightarrow> sys \<Rightarrow> bool" for lib fmt_sec ch s0 where
  CStart: "calm_reach lib fmt_sec ch s0 s0"
| CNext: "calm_reach lib fmt_sec ch s0 s \<Longrightarrow> calm lib fmt_sec ch s s' \<Longrightarrow> calm_reach lib fmt_sec ch s0 s'"

text \<open>The newest event is in the table, unless there has been none.\<close>

definition tip_ok :: "seqdb \<Rightarrow> bool" where
  "tip_ok d \<longleftrightarrow> (if events d = [] then last_seq d = 0 else last_seq d \<in> evSeq ` set (events d))"

definition covered :: "int \<Rightarrow> sys \<Rightarrow> bool" where
  "covered k s \<longleftrightarrow> (\<forall>n. sSeen s < n \<longrightarrow> n \<le> last_seq (sLog s) \<longrightarrow>
     n \<in> set (delivered s) \<or> (k < n \<and> sLast (sConn s) < n))"

lemma coveredD: "covered k s \<Longrightarrow> sSeen s < n \<Longrightarrow> n \<le> last_seq (sLog s) \<Longrightarrow>
    n \<in> set (delivered s) \<or> (k < n \<and> sLast (sConn s) < n)"
  by (simp add: covered_def)

definition seen_ok :: "int \<Rightarrow> int \<Rightarrow> sys \<Rightarrow> bool" where
  "seen_ok c k s \<longleftrightarrow> c \<le> sSeen s \<and> k \<le> sSeen s \<and> sSeen s \<le> last_seq (sLog s)
     \<and> {sSeen s <.. last_seq (sLog s)} \<subseteq> evSeq ` set (events (sLog s))"

definition phase_ok :: "int \<Rightarrow> sys \<Rightarrow> bool" where
  "phase_ok k s \<longleftrightarrow> (case sPc s of
     PLive \<Rightarrow> covered k s \<and> sLast (sConn s) \<le> last_seq (sLog s)
   | PEarliest c \<Rightarrow> seen_ok c k s \<and> sLast (sConn s) = 0
   | PBackfill c \<Rightarrow> seen_ok c k s \<and> sLast (sConn s) = 0
   | PEnd \<Rightarrow> True
   | _ \<Rightarrow> sLast (sConn s) = 0)"

text \<open>The invariant: what waits for the client is the run of numbers after \<open>k\<close>.\<close>

definition open_ok :: "nat \<Rightarrow> int \<Rightarrow> sys \<Rightarrow> bool" where
  "open_ok ch k s \<longleftrightarrow> ch \<in> fst ` set (subs (sLog s)) \<and> waiting ch s = [k + 1 .. last_seq (sLog s)]
     \<and> k \<le> last_seq (sLog s) \<and> phase_ok k s"

definition calm_inv :: "nat \<Rightarrow> sys \<Rightarrow> bool" where
  "calm_inv ch s \<longleftrightarrow> sys_inv s \<and> tip_ok (sLog s) \<and> (sPc s = PEnd \<or> (\<exists>k. open_ok ch k s))"

lemma calm_invI: "sys_inv s \<Longrightarrow> tip_ok (sLog s) \<Longrightarrow> open_ok ch k s \<Longrightarrow> calm_inv ch s"
  by (auto simp: calm_inv_def)

lemma LatestSeq_tip:
  assumes "LatestSeq d = (Inr n, d')" "seq_inv d" "tip_ok d"
  shows "n = last_seq d"
proof -
  have n: "n = (if events d = [] then 0 else Max (evSeq ` set (events d)))"
    using assms(1) by (auto simp: LatestSeq_def query_row_def stmt_Inr_iff)
  show ?thesis
  proof (cases "events d = []")
    case True
    then show ?thesis using n assms(3) by (simp add: tip_ok_def)
  next
    case False
    then have "Max (evSeq ` set (events d)) = last_seq d"
      using assms(2,3) by (intro Max_eqI) (auto simp: seq_inv_def tip_ok_def)
    then show ?thesis using n False by simp
  qed
qed

lemma upto_head:
  assumes "m # ms = [k + 1 .. l]"
  shows "m = k + 1 \<and> ms = [m + 1 .. l] \<and> m \<le> l"
proof -
  have "k + 1 \<le> l" using assms by (cases "k + 1 \<le> l") auto
  then show ?thesis using assms upto_rec1 [of "k + 1" l] by simp
qed

lemma map_of_subs_update:
  "map_of (map (\<lambda>(c, buf). if c = ch then (c, ms) else (c, buf)) xs) ch =
     (if ch \<in> fst ` set xs then Some ms else None)"
  by (induction xs) auto

lemma map_of_subs_map: "map_of (map (\<lambda>(c, buf). (c, f buf)) xs) ch = map_option f (map_of xs ch)"
  for f :: "msg list \<Rightarrow> msg list"
  by (induction xs) auto

lemma receive_buffer:
  assumes "receive ch (sLog s) = (Some m, d)"
  shows "buffer ch s = m # buffer ch (s\<lparr>sLog := d\<rparr>) \<and> fst ` set (subs d) = fst ` set (subs (sLog s))"
proof -
  obtain ms where l: "map_of (subs (sLog s)) ch = Some (m # ms)"
    and d: "d = (sLog s)\<lparr>subs := map (\<lambda>(c, buf). if c = ch then (c, ms) else (c, buf)) (subs (sLog s))\<rparr>"
    using assms by (auto simp: receive_def split: option.splits list.splits)
  have "fst ` set (map (\<lambda>(c, buf). if c = ch then (c, ms) else (c, buf)) (subs (sLog s))) = fst ` set (subs (sLog s))"
    by (force simp: image_iff)
  moreover have "ch \<in> fst ` set (subs (sLog s))" using l by (force dest: map_of_SomeD)
  ultimately show ?thesis using l by (simp add: buffer_def d map_of_subs_update)
qed

lemma buffer_cong: "subs (sLog s') = subs (sLog s) \<Longrightarrow> buffer ch s' = buffer ch s"
  by (simp add: buffer_def)

lemma calm_live:
  assumes "calm_inv ch s" "sPc s = PLive"
  shows "calm_inv ch (live_step ch s)"
proof (cases "receive ch (sLog s)")
  case (Pair mo d)
  obtain k where k: "open_ok ch k s" and inv: "sys_inv s" "tip_ok (sLog s)"
    using assms by (auto simp: calm_inv_def)
  have cov: "covered k s" "sLast (sConn s) \<le> last_seq (sLog s)"
    using k assms(2) by (auto simp: open_ok_def phase_ok_def)
  have si: "sys_inv (live_step ch s)" "same_log (sLog s) (sLog (live_step ch s))"
    using sess_step_inv [of s _ ch] inv assms(2) by (simp_all add: sess_step_def)
  have tip: "tip_ok (sLog (live_step ch s))" using si(2) inv by (simp add: tip_ok_def same_log_def)
  show ?thesis
  proof (cases mo)
    case None
    then show ?thesis using assms Pair by (simp add: live_step_def)
  next
    case (Some m)
    have b: "buffer ch s = m # buffer ch (s\<lparr>sLog := d\<rparr>)" "fst ` set (subs d) = fst ` set (subs (sLog s))"
      using receive_buffer Pair Some by auto
    have ld: "last_seq d = last_seq (sLog s)" using same_log_receive [OF Pair] by (simp add: same_log_def)
    have "mSeq m # map mSeq (buffer ch (s\<lparr>sLog := d\<rparr>) @ sPend s) = [k + 1 .. last_seq (sLog s)]"
      using k b(1) by (simp add: waiting_def open_ok_def)
    from upto_head [OF this] have w: "mSeq m = k + 1" "mSeq m \<le> last_seq (sLog s)"
      "map mSeq (buffer ch (s\<lparr>sLog := d\<rparr>) @ sPend s) = [mSeq m + 1 .. last_seq (sLog s)]"
      by auto
    have wait: "waiting ch s' = [mSeq m + 1 .. last_seq (sLog s)]" if "sLog s' = d" "sPend s' = sPend s" for s'
      using w(3) that by (simp add: waiting_def buffer_def)
    have rest: "open_ok ch (mSeq m) s'"
      if "sLog s' = d" "sPend s' = sPend s" "sPc s' = PLive" "covered (mSeq m) s'" "sLast (sConn s') \<le> last_seq d" for s'
      using that wait [OF that(1,2)] b(2) k w(2) ld by (simp add: open_ok_def phase_ok_def)
    show ?thesis
    proof (cases "mSeq m \<le> sLast (sConn s)")
      case True
      then have st: "live_step ch s = s\<lparr>sLog := d\<rparr>" using Pair Some by (simp add: live_step_def)
      have "n \<in> set (delivered s) \<or> (mSeq m < n \<and> sLast (sConn s) < n)"
        if "sSeen s < n" "n \<le> last_seq (sLog s)" for n
        using coveredD [OF cov(1) that] True by auto
      then have "covered (mSeq m) (s\<lparr>sLog := d\<rparr>)" by (simp add: covered_def delivered_def ld)
      then show ?thesis
        using si tip rest [of "s\<lparr>sLog := d\<rparr>"] cov(2) assms(2) ld unfolding st by (intro calm_invI) auto
    next
      case False
      obtain r c where e: "emit_event (mSeq m, mPayload m) (sConn s) = (r, c)" by fastforce
      show ?thesis
      proof (cases r)
        case (Inl err)
        then have "sPc (live_step ch s) = PEnd" using Pair Some False e by (simp add: live_step_def Let_def)
        then show ?thesis using si tip by (simp add: calm_inv_def)
      next
        case (Inr u)
        let ?s' = "s\<lparr>sLog := d, sConn := c\<rparr>"
        have st: "live_step ch s = ?s'" using Pair Some False e Inr by (simp add: live_step_def Let_def)
        have c: "delivered_of c = delivered_of (sConn s) @ [mSeq m]" "sLast c = mSeq m"
          using emit_event_delivers [OF e] Inr by auto
        have "n \<in> set (delivered_of c) \<or> mSeq m < n" if "sSeen s < n" "n \<le> last_seq (sLog s)" for n
          using coveredD [OF cov(1) that] w(1) c(1) by (auto simp: delivered_def)
        then have "covered (mSeq m) ?s'" by (simp add: covered_def delivered_def ld c(2))
        then show ?thesis
          using si tip rest [of ?s'] assms(2) ld w(2) c(2) unfolding st by (intro calm_invI) auto
      qed
    qed
  qed
qed

text \<open>A step of the session that leaves the log's contents and the subscriptions alone keeps what is
  waiting.\<close>

lemma open_ok_same:
  assumes "open_ok ch k s" "same_log (sLog s) (sLog s')" "subs (sLog s') = subs (sLog s)" "sPend s' = sPend s"
    "phase_ok k s'"
  shows "open_ok ch k s'"
  using assms by (simp add: open_ok_def waiting_def buffer_def same_log_def)

lemma calm_session:
  assumes inv: "calm_inv ch s"
  shows "calm_inv ch (sess_step lib ch s)"
proof (cases "sPc s = PEnd \<or> sPc s = PLive")
  case True
  then show ?thesis using calm_live inv by (auto simp: sess_step_def)
next
  case early: False
  have si: "sys_inv (sess_step lib ch s)" "same_log (sLog s) (sLog (sess_step lib ch s))"
    using sess_step_inv [of s lib ch] inv by (simp_all add: calm_inv_def)
  have tip: "tip_ok (sLog (sess_step lib ch s))"
    using si(2) inv by (simp add: tip_ok_def same_log_def calm_inv_def)
  have ended: ?thesis if "sPc (sess_step lib ch s) = PEnd" using that si tip by (simp add: calm_inv_def)
  obtain k where k: "open_ok ch k s" using inv early by (auto simp: calm_inv_def)
  then have kl: "k \<le> last_seq (sLog s)" and ph: "phase_ok k s" by (simp_all add: open_ok_def)
  have step: ?thesis if "sess_step lib ch s = s'" "subs (sLog s') = subs (sLog s)" "sPend s' = sPend s" "phase_ok k s'" for s'
    using calm_invI [OF si(1) tip, of ch k] open_ok_same [OF k, of s'] si(2) that by simp
  show ?thesis
  proof (cases "sPc s")
    case PNoCursor
    obtain r d where l: "LatestSeq (sLog s) = (r, d)" by fastforce
    have d: "same_log (sLog s) d" "subs d = subs (sLog s)" using same_log_reads(1) [OF l] by auto
    show ?thesis
    proof (cases r)
      case (Inl e)
      then show ?thesis using ended l PNoCursor by (simp add: sess_step_def)
    next
      case (Inr n)
      have n: "n = last_seq (sLog s)" using LatestSeq_tip l Inr inv by (simp add: calm_inv_def sys_inv_def)
      let ?s' = "s\<lparr>sLog := d, sSeen := n, sConn := (sConn s)\<lparr>sLast := n\<rparr>, sPc := PLive\<rparr>"
      have "phase_ok k ?s'" using n d by (simp add: phase_ok_def covered_def same_log_def)
      then show ?thesis using step [of ?s'] l Inr PNoCursor d by (simp add: sess_step_def)
    qed
  next
    case (PCursor c)
    obtain r d where l: "LatestSeq (sLog s) = (r, d)" by fastforce
    have d: "same_log (sLog s) d" "subs d = subs (sLog s)" using same_log_reads(1) [OF l] by auto
    show ?thesis
    proof (cases "\<exists>n. r = Inr n \<and> c \<le> n")
      case False
      then show ?thesis using ended l PCursor by (auto simp: sess_step_def split: sum.split)
    next
      case True
      then obtain n where r: "r = Inr n" "c \<le> n" by blast
      have n: "n = last_seq (sLog s)" using LatestSeq_tip l r inv by (simp add: calm_inv_def sys_inv_def)
      let ?s' = "s\<lparr>sLog := d, sSeen := n, sPc := PEarliest c\<rparr>"
      have "phase_ok k ?s'" using n d r(2) kl ph PCursor by (simp add: phase_ok_def seen_ok_def same_log_def)
      then show ?thesis using step [of ?s'] l r PCursor d by (simp add: sess_step_def)
    qed
  next
    case (PEarliest c)
    have so: "seen_ok c k s" "sLast (sConn s) = 0" using ph PEarliest by (simp_all add: phase_ok_def)
    obtain r d where l: "EarliestSeq (sLog s) = (r, d)" by fastforce
    have d: "same_log (sLog s) d" "subs d = subs (sLog s)" using same_log_reads(2) [OF l] by auto
    show ?thesis
    proof (cases r)
      case (Inl e)
      then show ?thesis using ended l PEarliest by (simp add: sess_step_def)
    next
      case (Inr n)
      let ?skip = "s\<lparr>sLog := d, sConn := (sendFrame lib outdated_cursor (sConn s))\<lparr>sLast := sSeen s\<rparr>, sPc := PLive\<rparr>"
      let ?fill = "s\<lparr>sLog := d, sPc := PBackfill c\<rparr>"
      have "sess_step lib ch s = (if 0 < n \<and> c < n - 1 then ?skip else ?fill)"
        using l Inr PEarliest by (simp add: sess_step_def)
      moreover have "phase_ok k ?skip" using so d by (auto simp: phase_ok_def seen_ok_def covered_def same_log_def)
      moreover have "phase_ok k ?fill" using so d by (simp add: phase_ok_def seen_ok_def same_log_def)
      ultimately show ?thesis using step [of ?skip] step [of ?fill] d by (cases "0 < n \<and> c < n - 1") auto
    qed
  next
    case (PBackfill c)
    have so: "seen_ok c k s" "sLast (sConn s) = 0" using ph PBackfill by (simp_all add: phase_ok_def)
    obtain y d where b: "Backfill c emit_event (sConn s) (sLog s) = (y, d)" by fastforce
    have d: "same_log (sLog s) d" "subs d = subs (sLog s)" using same_log_reads(3) [OF b] by auto
    show ?thesis
    proof (cases "\<exists>c'. y = Inr (Inr (), c')")
      case False
      then show ?thesis using ended b PBackfill by (auto simp: sess_step_def split: sum.split prod.split)
    next
      case True
      then obtain c' where y: "y = Inr (Inr (), c')" by blast
      let ?s' = "s\<lparr>sLog := d, sConn := c', sPc := PLive\<rparr>"
      have "seq_inv (sLog s)" using inv by (simp add: calm_inv_def sys_inv_def)
      moreover have "ordered_conn (sConn s)" "delivered_of (sConn s) = []"
        using inv PBackfill by (auto simp: calm_inv_def sys_inv_def order_inv_def fresh_pc_def)
      ultimately have dl: "delivered_of c' = map evSeq (filter (\<lambda>e. c < evSeq e) (events (sLog s)))"
        "sLast c' = (if delivered_of c' = [] then 0 else last (delivered_of c'))"
        using backfill_conn [OF _ b [unfolded y]] so(2) by auto
      have "\<forall>n \<in> set (delivered_of c'). n \<le> last_seq (sLog s)"
        using \<open>seq_inv (sLog s)\<close> by (auto simp: dl(1) seq_inv_def)
      then have "sLast c' \<le> last_seq (sLog s)" using dl(2) \<open>seq_inv (sLog s)\<close> by (auto simp: seq_inv_def)
      moreover have "n \<in> set (delivered_of c')" if "sSeen s < n" "n \<le> last_seq (sLog s)" for n
      proof -
        have "n \<in> evSeq ` set (events (sLog s))" "c < n" using so(1) that by (auto simp: seen_ok_def subset_iff)
        then show ?thesis by (auto simp: dl(1))
      qed
      ultimately have "phase_ok k ?s'" using d by (auto simp: phase_ok_def covered_def delivered_def same_log_def)
      then show ?thesis using step [of ?s'] b y PBackfill d by (simp add: sess_step_def)
    qed
  qed (use early in auto)
qed

lemma upto_snoc: "k \<le> n \<Longrightarrow> [k + 1 .. n] @ [n + 1] = [k + 1 .. n + 1]"
  by (simp add: upto_rec2)

lemma calm_commit:
  assumes inv: "calm_inv ch s" and run: "append_tx lib fmt_sec now did evt (sLog s) = (Inr x, d)"
    and keep: "keeps_new s d"
  shows "calm_inv ch (s\<lparr>sLog := d, sPend := sPend s @ [msg_of x]\<rparr>)" (is "calm_inv ch ?s'")
proof -
  obtain n p where x: "x = (n, p)" by (cases x)
  have i: "seq_inv (sLog s)" "order_inv s" using inv by (simp_all add: calm_inv_def sys_inv_def)
  obtain ty where a: "n = last_seq (sLog s) + 1" "last_seq d = n" "subs d = subs (sLog s)"
    "events d = filter (retained fmt_sec now) (events (sLog s) @ [new_row fmt_sec now did n ty p])"
    using append_tx_ok [OF run [unfolded x] i(1)] by auto
  have si: "sys_inv ?s'" using append_tx_inv [OF run i(1)] i(2) by (simp add: sys_inv_def order_inv_def)
  have tip: "tip_ok (sLog ?s')" using keep by (auto simp: keeps_new_def tip_ok_def)
  show ?thesis
  proof (cases "sPc s = PEnd")
    case True
    then show ?thesis using si tip by (simp add: calm_inv_def)
  next
    case False
    then obtain k where k: "open_ok ch k s" using inv by (auto simp: calm_inv_def)
    have w: "waiting ch ?s' = waiting ch s @ [n]"
      using a(3) by (simp add: waiting_def buffer_def msg_of_def x)
    have seen: "seen_ok c k ?s'" if "seen_ok c k s"
      "\<forall>r \<in> set (events (sLog s)). sSeen s < evSeq r \<longrightarrow> r \<in> set (events d)" for c
    proof -
      have "j \<in> evSeq ` set (events d)" if j: "sSeen s < j" "j \<le> n" for j
      proof (cases "j = n")
        case True
        then show ?thesis using keep a(2) by (simp add: keeps_new_def)
      next
        case False
        then have "j \<in> evSeq ` set (events (sLog s))"
          using \<open>seen_ok c k s\<close> j a(1) by (auto simp: seen_ok_def subset_iff)
        then show ?thesis using that(2) j(1)
          using \<open>\<forall>r \<in> set (events (sLog s)). sSeen s < evSeq r \<longrightarrow> r \<in> set (events d)\<close> by auto
      qed
      then show ?thesis using \<open>seen_ok c k s\<close> a(1,2) by (auto simp: seen_ok_def)
    qed
    have live: "covered k ?s'" if c: "covered k s" "sLast (sConn s) \<le> last_seq (sLog s)"
      unfolding covered_def
    proof (intro allI impI)
      fix j assume "sSeen ?s' < j" "j \<le> last_seq (sLog ?s')"
      then have "sSeen s < j" "j \<le> last_seq (sLog s) \<or> j = n" using a(1,2) by auto
      then show "j \<in> set (delivered ?s') \<or> k < j \<and> sLast (sConn ?s') < j"
        using coveredD [OF c(1), of j] c(2) k a(1) by (auto simp: open_ok_def delivered_def)
    qed
    have "phase_ok k ?s'"
      using k seen keep live a(1,2) by (auto simp: phase_ok_def open_ok_def keeps_new_def split: pc.splits)
    then have "open_ok ch k ?s'"
      using k a(1,2,3) w upto_snoc [of k "last_seq (sLog s)"] by (simp add: open_ok_def)
    then show ?thesis using si tip by (rule calm_invI [rotated 2])
  qed
qed

lemma offer_room: "length buf < chan_cap \<Longrightarrow> offer m buf = buf @ [m]"
  by (simp add: offer_def)

lemma calm_broadcast:
  assumes inv: "calm_inv ch s" and pend: "sPend s = m # ys" and room: "length (buffer ch s) < chan_cap"
  shows "calm_inv ch (s\<lparr>sLog := broadcast (mSeq m) (mPayload m) (sLog s), sPend := ys\<rparr>)" (is "calm_inv ch ?s'")
proof -
  have si: "sys_inv ?s'" "tip_ok (sLog ?s')"
    using inv by (simp_all add: calm_inv_def sys_inv_def order_inv_def broadcast_def seq_inv_def tip_ok_def)
  show ?thesis
  proof (cases "sPc s = PEnd")
    case True
    then show ?thesis using si by (simp add: calm_inv_def)
  next
    case False
    then obtain k where k: "open_ok ch k s" using inv by (auto simp: calm_inv_def)
    have chs: "fst ` set (subs (sLog ?s')) = fst ` set (subs (sLog s))" by (force simp: broadcast_def image_iff)
    obtain ms where ms: "map_of (subs (sLog s)) ch = Some ms"
      using k by (auto simp: open_ok_def dest: weak_map_of_SomeI)
    have "buffer ch ?s' = buffer ch s @ [m]"
      using ms room by (simp add: buffer_def broadcast_def map_of_subs_map offer_room)
    then have w: "waiting ch ?s' = waiting ch s" by (simp add: waiting_def pend)
    have "phase_ok k ?s'"
      using k by (auto simp: open_ok_def phase_ok_def broadcast_def seen_ok_def covered_def delivered_def split: pc.splits)
    then have "open_ok ch k ?s'" using k w chs by (simp add: open_ok_def broadcast_def)
    then show ?thesis using si by (rule calm_invI [rotated 2])
  qed
qed

lemma calm_fail:
  assumes inv: "calm_inv ch s" and run: "append_tx lib fmt_sec now did evt (sLog s) = (Inl e, d)"
  shows "calm_inv ch (s\<lparr>sLog := d\<rparr>)"
proof -
  obtain t where d: "d = (sLog s)\<lparr>tape := t\<rparr>" using append_tx_err [OF run] by blast
  have same: "same_log (sLog s) d" "subs d = subs (sLog s)" by (simp_all add: d same_log_def)
  have phase: "phase_ok k (s\<lparr>sLog := d\<rparr>)" if "phase_ok k s" for k
    using that same(1)
    by (simp add: phase_ok_def seen_ok_def covered_def delivered_def same_log_def split: pc.splits)
  have "open_ok ch k (s\<lparr>sLog := d\<rparr>)" if "open_ok ch k s" for k
    using open_ok_same [OF that, of "s\<lparr>sLog := d\<rparr>"] same phase that by (simp add: open_ok_def)
  moreover have "sys_inv (s\<lparr>sLog := d\<rparr>)" "tip_ok d"
    using inv same seq_inv_cong [of d "sLog s"]
    by (simp_all add: calm_inv_def sys_inv_def order_inv_def tip_ok_def same_log_def)
  ultimately show ?thesis using inv by (auto simp: calm_inv_def)
qed

lemma calm_step_inv: "calm lib fmt_sec ch s s' \<Longrightarrow> calm_inv ch s \<Longrightarrow> calm_inv ch s'"
proof (induction rule: calm.induct)
  case (CDisconnect s)
  then have "sys_inv (finish ch s)" using step_inv [OF Disconnect] by (simp add: calm_inv_def)
  then show ?case using CDisconnect by (simp add: calm_inv_def tip_ok_def finish_def cancel_sub_def)
qed (simp_all add: calm_session calm_commit calm_fail calm_broadcast)

lemma calm_reach_inv: "calm_reach lib fmt_sec ch s0 s \<Longrightarrow> calm_inv ch s0 \<Longrightarrow> calm_inv ch s"
  by (induction rule: calm_reach.induct) (auto intro: calm_step_inv)

text \<open>A server at rest: the newest event is stored and what is committed has been broadcast.\<close>

definition at_rest :: "seqdb \<Rightarrow> bool" where
  "at_rest d \<longleftrightarrow> seq_inv d \<and> tip_ok d"

lemma sub_open_calm:
  assumes "sub_open cs ct d [] = Some (ch, s0)" "at_rest d"
  shows "calm_inv ch s0"
proof -
  obtain d' p where d: "Subscribe d = (Inr ch, d')" and p: "parse_cursor cs = Some p"
    and s0: "s0 = \<lparr>sLog = d', sPend = [], sPc = p, sSeen = 0, sConn = \<lparr>tape = ct, sLast = 0, sOut = []\<rparr>\<rparr>"
    using assms(1) by (auto simp: sub_open_def split: option.splits sum.splits prod.splits)
  have d': "d' = d\<lparr>subs := (ch, []) # subs d\<rparr>" using d by (auto simp: Subscribe_def Let_def)
  have "sys_inv s0" using sub_open_inv assms by (auto simp: at_rest_def)
  moreover have "tip_ok (sLog s0)" using assms(2) by (simp add: s0 d' at_rest_def tip_ok_def)
  moreover have "open_ok ch (last_seq d) s0"
    using p by (auto simp: open_ok_def s0 d' waiting_def buffer_def phase_ok_def parse_cursor_def split: if_splits)
  ultimately show ?thesis by (rule calm_invI)
qed

text \<open>C26. A firehose session misses nothing while it keeps up: when broadcasts come in the order of the
  commits, the subscriber's buffer has room for them and no event is trimmed before the backfill has
  read it, every event committed after the session looked at the log has been sent to the client
  once the session is live, or still waits for it.\<close>

theorem subscriber_no_gaps:
  assumes "sub_open cs conn_tape d [] = Some (ch, s0)" "at_rest d" "calm_reach lib fmt_sec ch s0 s"
    "sPc s = PLive" "sSeen s < n" "n \<le> last_seq (sLog s)"
  shows "n \<in> set (delivered s) \<or> n \<in> set (waiting ch s)"
proof -
  have "calm_inv ch s" using calm_reach_inv [OF assms(3) sub_open_calm [OF assms(1,2)]] .
  then obtain k where k: "open_ok ch k s" using assms(4) by (auto simp: calm_inv_def)
  then have "covered k s" using assms(4) by (simp add: open_ok_def phase_ok_def)
  from coveredD [OF this assms(5,6)] show ?thesis using k assms(6) by (auto simp: open_ok_def)
qed

section \<open>A broadcast that comes late\<close>

text \<open>Once live, a session only adds to what it has delivered.\<close>

definition grown :: "sys \<Rightarrow> sys \<Rightarrow> bool" where
  "grown s s' \<longleftrightarrow> sPc s' \<in> {PLive, PEnd} \<and> (\<exists>xs. delivered s' = delivered s @ xs)"

lemma grown_same: "sPc s' \<in> {PLive, PEnd} \<Longrightarrow> sConn s' = sConn s \<Longrightarrow> grown s s'"
  by (simp add: grown_def delivered_def)

lemma grown_live:
  assumes "sPc s = PLive"
  shows "grown s (live_step ch s)"
proof (cases "receive ch (sLog s)")
  case (Pair mo d)
  show ?thesis
  proof (cases mo)
    case None
    then show ?thesis using assms Pair by (simp add: live_step_def grown_same)
  next
    case (Some m)
    obtain r c where e: "emit_event (mSeq m, mPayload m) (sConn s) = (r, c)" by fastforce
    then show ?thesis using assms Pair Some emit_event_delivers [OF e]
      by (auto simp: live_step_def Let_def grown_def delivered_def finish_def split: sum.split)
  qed
qed

lemma grown_step: "step lib fmt_sec ch s s' \<Longrightarrow> sPc s \<in> {PLive, PEnd} \<Longrightarrow> grown s s'"
proof (induction rule: step.induct)
  case (Session s)
  then show ?case by (auto simp: sess_step_def grown_live intro: grown_same)
qed (auto intro: grown_same)

lemma grown_reach: "reach lib fmt_sec ch s s' \<Longrightarrow> sPc s \<in> {PLive, PEnd} \<Longrightarrow> grown s s'"
proof (induction rule: reach.induct)
  case (Next s1 s2)
  then have "grown s s1" by simp
  moreover from this have "grown s1 s2" using Next.hyps(2) by (intro grown_step) (simp_all add: grown_def)
  ultimately show ?case by (auto simp: grown_def)
qed (simp add: grown_same)

text \<open>What is passed over once is never delivered.\<close>

lemma passed_over:
  assumes "reach lib fmt_sec ch s t" "sys_inv s" "sPc s \<in> {PLive, PEnd}" "n \<notin> set (delivered s)" "n' \<in> set (delivered s)" "n < n'"
  shows "n \<notin> set (delivered t)"
proof -
  obtain xs where t: "delivered t = delivered s @ xs" using grown_reach [OF assms(1,3)] by (auto simp: grown_def)
  have "sorted_wrt (<) (delivered t)"
    using reach_inv [OF assms(1,2)] by (simp add: sys_inv_def order_inv_def ordered_conn_def delivered_def)
  then have "\<forall>x \<in> set xs. n' < x" using assms(5) by (auto simp: t sorted_wrt_append)
  then show ?thesis using assms(4,6) by (auto simp: t)
qed

text \<open>A live session reads the one message in its buffer.\<close>

lemma live_one:
  assumes "map_of (subs (sLog s)) ch = Some [m]" "sPc s = PLive" "mSeq m \<le> sLast (sConn s) \<or> \<not> next_fault (tape (sConn s))"
  obtains d c where "sess_step lib ch s = s\<lparr>sLog := d, sConn := c\<rparr>" "map_of (subs d) ch = Some []" "last_seq d = last_seq (sLog s)"
    "if mSeq m \<le> sLast (sConn s) then c = sConn s else sLast c = mSeq m \<and> delivered_of c = delivered_of (sConn s) @ [mSeq m]"
proof -
  let ?d = "(sLog s)\<lparr>subs := map (\<lambda>(c, buf). if c = ch then (c, []) else (c, buf)) (subs (sLog s))\<rparr>"
  have ch: "ch \<in> fst ` set (subs (sLog s))" using assms(1) by (force dest: map_of_SomeD)
  have recv: "receive ch (sLog s) = (Some m, ?d)" using assms(1) by (simp add: receive_def)
  have sub: "map_of (subs ?d) ch = Some []" "last_seq ?d = last_seq (sLog s)" using ch by (simp_all add: map_of_subs_update)
  show thesis
  proof (cases "mSeq m \<le> sLast (sConn s)")
    case True
    then show thesis using recv assms(2) sub by (intro that [of "sConn s" ?d]) (simp_all add: sess_step_def live_step_def)
  next
    case False
    obtain r c where e: "emit_event (mSeq m, mPayload m) (sConn s) = (r, c)" by fastforce
    then have "r = Inr ()" using assms(3) False by (simp add: emit_event_eq)
    then show thesis using recv assms(2) sub False e emit_event_delivers [OF e]
      by (intro that [of c ?d]) (simp_all add: sess_step_def live_step_def Let_def)
  qed
qed

lemma broadcast_buffer: "map_of (subs d) ch = Some [] \<Longrightarrow> map_of (subs (broadcast n p d)) ch = Some [\<lparr>mSeq = n, mPayload = p\<rparr>]"
  by (simp add: broadcast_def map_of_subs_map offer_def chan_cap_def)

text \<open>C27. A late broadcast loses its event. Take any session that is live and has kept up: nothing waits for it. If
  two appends commit and then broadcast in the other order, which nothing in \<^verbatim>\<open>Append\<close> prevents, the session is
  sent the later event and passes over the earlier one; nothing waits for it any more, and whatever happens
  afterwards, the earlier event is never sent.\<close>

theorem late_broadcast_loses_event:
  assumes "sub_open cs conn_tape d0 [] = Some (ch, s0)" "at_rest d0" "calm_reach lib fmt_sec ch s0 s"
    and "sPc s = PLive" "waiting ch s = []" "\<not> next_fault (tape (sConn s))"
    and "append_tx lib fmt_sec now did evt (sLog s) = (Inr (n, p), d1)"
    and "append_tx lib fmt_sec now' did' evt' d1 = (Inr (n', p'), d2)"
  shows "n = last_seq (sLog s) + 1 \<and> n' = n + 1
    \<and> (\<exists>s'. reach lib fmt_sec ch s s' \<and> sPc s' = PLive \<and> last_seq (sLog s') = n'
         \<and> delivered s' = delivered s @ [n'] \<and> waiting ch s' = []
         \<and> (\<forall>t. reach lib fmt_sec ch s' t \<longrightarrow> n \<notin> set (delivered t)))"
proof -
  have inv: "calm_inv ch s" using calm_reach_inv [OF assms(3) sub_open_calm [OF assms(1,2)]] .
  then obtain k where si: "sys_inv s" and k: "open_ok ch k s" using assms(4) by (auto simp: calm_inv_def)
  have sl: "sLast (sConn s) \<le> last_seq (sLog s)" and ch: "ch \<in> fst ` set (subs (sLog s))"
    using k assms(4) by (simp_all add: open_ok_def phase_ok_def)
  have pend: "sPend s = []" and buf: "map_of (subs (sLog s)) ch = Some []"
    using assms(5) ch by (auto simp: waiting_def buffer_def split: option.splits dest: weak_map_of_SomeI)
  have i: "seq_inv (sLog s)" using si by (simp add: sys_inv_def)
  have n: "n = last_seq (sLog s) + 1" "last_seq d1 = n" "subs d1 = subs (sLog s)" using append_tx_ok [OF assms(7) i] by auto
  have n': "n' = n + 1" "last_seq d2 = n'" "subs d2 = subs (sLog s)"
    using append_tx_ok [OF assms(8) append_tx_inv [OF assms(7) i]] n by auto
  let ?s2 = "s\<lparr>sLog := d2, sPend := [msg_of (n, p), msg_of (n', p')]\<rparr>"
  let ?s3 = "?s2\<lparr>sLog := broadcast n' p' d2, sPend := [msg_of (n, p)]\<rparr>"
  have "step lib fmt_sec ch s (s\<lparr>sLog := d1, sPend := [msg_of (n, p)]\<rparr>)" using Commit [OF assms(7)] pend by simp
  moreover have "step lib fmt_sec ch (s\<lparr>sLog := d1, sPend := [msg_of (n, p)]\<rparr>) ?s2"
    using Commit [of lib fmt_sec now' did' evt' "s\<lparr>sLog := d1, sPend := [msg_of (n, p)]\<rparr>" "(n', p')" d2 ch] assms(8) by simp
  moreover have "step lib fmt_sec ch ?s2 ?s3"
    using Broadcast [of ?s2 "[msg_of (n, p)]" "msg_of (n', p')" "[]" lib fmt_sec ch] by (simp add: msg_of_def)
  ultimately have r3: "reach lib fmt_sec ch s ?s3" by (meson reach.intros)
  have one: "map_of (subs (sLog ?s3)) ch = Some [\<lparr>mSeq = n', mPayload = p'\<rparr>]" using broadcast_buffer buf n'(3) by simp
  have "sPc ?s3 = PLive" "mSeq \<lparr>mSeq = n', mPayload = p'\<rparr> \<le> sLast (sConn ?s3) \<or> \<not> next_fault (tape (sConn ?s3))"
    using assms(4,6) by simp_all
  from live_one [OF one this, of lib] obtain d c where
    s4: "sess_step lib ch ?s3 = ?s3\<lparr>sLog := d, sConn := c\<rparr>" "map_of (subs d) ch = Some []" "last_seq d = last_seq (sLog ?s3)"
      "if mSeq \<lparr>mSeq = n', mPayload = p'\<rparr> \<le> sLast (sConn ?s3) then c = sConn ?s3
       else sLast c = mSeq \<lparr>mSeq = n', mPayload = p'\<rparr> \<and> delivered_of c = delivered_of (sConn ?s3) @ [mSeq \<lparr>mSeq = n', mPayload = p'\<rparr>]" .
  have c: "sLast c = n'" "delivered_of c = delivered_of (sConn s) @ [n']" and ld: "last_seq d = n'"
    using s4(3,4) sl n n' by (simp_all add: broadcast_def)
  let ?s4 = "?s3\<lparr>sLog := d, sConn := c\<rparr>"
  let ?s5 = "?s4\<lparr>sLog := broadcast n p d, sPend := []\<rparr>"
  have r5: "reach lib fmt_sec ch s ?s5"
  proof -
    have "reach lib fmt_sec ch s ?s4" using Next [OF r3 Session] s4(1) by simp
    moreover have "step lib fmt_sec ch ?s4 ?s5" using Broadcast [of ?s4 "[]" "msg_of (n, p)" "[]" lib fmt_sec ch] by (simp add: msg_of_def)
    ultimately show ?thesis by (rule Next)
  qed
  have one: "map_of (subs (sLog ?s5)) ch = Some [\<lparr>mSeq = n, mPayload = p\<rparr>]" using broadcast_buffer s4(2) by simp
  have "sPc ?s5 = PLive" "mSeq \<lparr>mSeq = n, mPayload = p\<rparr> \<le> sLast (sConn ?s5) \<or> \<not> next_fault (tape (sConn ?s5))"
    using assms(4) c(1) n'(1) by simp_all
  from live_one [OF one this, of lib] obtain d' c' where
    s5: "sess_step lib ch ?s5 = ?s5\<lparr>sLog := d', sConn := c'\<rparr>" "map_of (subs d') ch = Some []" "last_seq d' = last_seq (sLog ?s5)"
      "if mSeq \<lparr>mSeq = n, mPayload = p\<rparr> \<le> sLast (sConn ?s5) then c' = sConn ?s5
       else sLast c' = mSeq \<lparr>mSeq = n, mPayload = p\<rparr> \<and> delivered_of c' = delivered_of (sConn ?s5) @ [mSeq \<lparr>mSeq = n, mPayload = p\<rparr>]" .
  have s6: "sess_step lib ch ?s5 = ?s5\<lparr>sLog := d', sConn := c\<rparr>" "map_of (subs d') ch = Some []" "last_seq d' = n'"
    using s5 c(1) n'(1) ld by (simp_all add: broadcast_def)
  let ?s6 = "?s5\<lparr>sLog := d', sConn := c\<rparr>"
  have r6: "reach lib fmt_sec ch s ?s6" using Next [OF r5 Session] s6(1) by simp
  have "delivered ?s6 = delivered s @ [n']" using c(2) by (simp add: delivered_def)
  moreover have "n \<notin> set (delivered s)"
    using si sl n(1) by (fastforce simp: sys_inv_def order_inv_def ordered_conn_def delivered_def)
  moreover have "waiting ch ?s6 = []" using s6(2) by (simp add: waiting_def buffer_def)
  ultimately show ?thesis
    using n(1) n'(1) r6 s6(3) assms(4) passed_over [OF _ reach_inv [OF r6 si], of lib fmt_sec ch _ n n'] by (auto intro!: exI [of _ ?s6])
qed

section \<open>Runs on an example\<close>

text \<open>A session on \<open>demo_log\<close>, and two requests that commit and broadcast.\<close>

definition demo_commit :: "sys \<Rightarrow> sys" where
  "demo_commit s = (case append_tx demo_cbor demo_fmt 6000000000 ''did:plc:a'' demo_account_event (sLog s) of
     (Inl e, d) \<Rightarrow> s\<lparr>sLog := d\<rparr>
   | (Inr x, d) \<Rightarrow> s\<lparr>sLog := d, sPend := sPend s @ [msg_of x]\<rparr>)"

definition demo_open :: "pc \<Rightarrow> sys" where
  "demo_open p = \<lparr>sLog = demo_log\<lparr>subs := (2, []) # subs demo_log\<rparr>, sPend = [], sPc = p, sSeen = 0,
     sConn = \<lparr>tape = [], sLast = 0, sOut = []\<rparr>\<rparr>"

abbreviation demo_session :: "sys \<Rightarrow> sys" where "demo_session \<equiv> sess_step demo_cbor 2"

abbreviation demo_reach :: "sys \<Rightarrow> sys \<Rightarrow> bool" where "demo_reach \<equiv> reach demo_cbor demo_fmt 2"

lemma demo_steps:
  assumes r: "demo_reach s0 s"
  shows "demo_reach s0 (demo_session s)" "demo_reach s0 (demo_commit s)"
proof -
  show "demo_reach s0 (demo_session s)" using Next [OF r Session] .
  show "demo_reach s0 (demo_commit s)"
    using Next [OF r Commit] Next [OF r Fail] by (auto simp: demo_commit_def split: prod.split sum.split)
qed

lemma demo_calm_steps:
  assumes r: "calm_reach demo_cbor demo_fmt 2 s0 s"
  shows "calm_reach demo_cbor demo_fmt 2 s0 (demo_session s)"
    "keeps_new s (sLog (demo_commit s)) \<Longrightarrow> calm_reach demo_cbor demo_fmt 2 s0 (demo_commit s)"
proof -
  show "calm_reach demo_cbor demo_fmt 2 s0 (demo_session s)" using CNext [OF r CSession] .
  assume "keeps_new s (sLog (demo_commit s))"
  then show "calm_reach demo_cbor demo_fmt 2 s0 (demo_commit s)"
    using CNext [OF r CCommit] CNext [OF r CFail]
    by (auto simp: demo_commit_def split: prod.splits sum.splits)
qed

lemma demo_open_eq:
  "sub_open '''' [] demo_log [] = Some (2, demo_open PNoCursor)"
  "sub_open ''2'' [] demo_log [] = Some (2, demo_open (PCursor 2))"
  by code_simp+

lemma demo_at_rest: "at_rest demo_log"
  using demo_log_inv by (simp add: at_rest_def tip_ok_def demo_log_def new_row_def)

definition cursor_run :: sys where
  "cursor_run = demo_commit (demo_session (demo_session (demo_session (demo_open (PCursor 2)))))"

theorem subscriber_order_witness:
  "sorted_wrt (<) (delivered cursor_run) \<and> delivered cursor_run = [3]"
proof -
  have "demo_reach (demo_open (PCursor 2)) cursor_run"
    unfolding cursor_run_def by (intro demo_steps(1,2) reach.Start)
  from subscriber_order [OF demo_open_eq(2) demo_log_inv(1) this]
  have "sorted_wrt (<) (delivered cursor_run)" .
  moreover have "delivered cursor_run = [3]" by code_simp
  ultimately show ?thesis by blast
qed

theorem subscriber_no_gaps_witness:
  "(4 \<in> set (delivered cursor_run) \<or> 4 \<in> set (waiting 2 cursor_run)) \<and> waiting 2 cursor_run = [4]"
proof -
  have "calm_reach demo_cbor demo_fmt 2 (demo_open (PCursor 2)) cursor_run"
    unfolding cursor_run_def by (intro demo_calm_steps calm_reach.CStart) code_simp
  note run = subscriber_no_gaps [OF demo_open_eq(2) demo_at_rest this, of 4]
  have "sPc cursor_run = PLive" "sSeen cursor_run < 4" "4 \<le> last_seq (sLog cursor_run)" "waiting 2 cursor_run = [4]"
    by code_simp+
  then show ?thesis using run by blast
qed

text \<open>The session without a cursor is live after one step; events 4 and 5 are committed.\<close>

lemma demo_two_commits: "(case append_tx demo_cbor demo_fmt 6000000000 ''did:plc:a'' demo_account_event (sLog (demo_session (demo_open PNoCursor))) of
     (Inl e, d) \<Rightarrow> False
   | (Inr x, d) \<Rightarrow> (case append_tx demo_cbor demo_fmt 6000000000 ''did:plc:a'' demo_account_event d of (Inl e, _) \<Rightarrow> False | (Inr y, _) \<Rightarrow> True))"
  by code_simp

theorem late_broadcast_loses_event_witness:
  "\<exists>s. demo_reach (demo_session (demo_open PNoCursor)) s \<and> sPc s = PLive \<and> last_seq (sLog s) = 5
     \<and> delivered s = [5] \<and> (\<forall>t. demo_reach s t \<longrightarrow> 4 \<notin> set (delivered t))"
proof -
  let ?s = "demo_session (demo_open PNoCursor)"
  have calm: "calm_reach demo_cbor demo_fmt 2 (demo_open PNoCursor) ?s" by (intro demo_calm_steps(1) calm_reach.CStart)
  have s: "sPc ?s = PLive" "waiting 2 ?s = []" "\<not> next_fault (tape (sConn ?s))" "last_seq (sLog ?s) = 3" "delivered ?s = []"
    by code_simp+
  obtain n p d1 n' p' d2 where
    a: "append_tx demo_cbor demo_fmt 6000000000 ''did:plc:a'' demo_account_event (sLog ?s) = (Inr (n, p), d1)"
      "append_tx demo_cbor demo_fmt 6000000000 ''did:plc:a'' demo_account_event d1 = (Inr (n', p'), d2)"
    using demo_two_commits by (auto split: prod.splits sum.splits)
  from late_broadcast_loses_event [OF demo_open_eq(1) demo_at_rest calm s(1-3) a] show ?thesis using s(4,5) by fastforce
qed

end
