(* ===== verification/SafeDial.thy ===== *)
theory SafeDial
  imports ClientIP
begin

text \<open>
  \<^verbatim>\<open>internal/xrpc/safedial.go\<close>: the guard of outbound connections whose target a client chooses
  (service proxying, handle and did:web resolution). The resolver and the dialer are
  parameters; a run of \<open>safeDialContext\<close> yields the addresses it dialled as well, in order.
\<close>

section \<open>Public addresses\<close>

definition mustPrefixes :: "string list \<Rightarrow> prefix list" where
  "mustPrefixes vs = map (\<lambda>v. the (ParsePrefix v)) vs"

definition nonPublicPrefixes :: "prefix list" where
  "nonPublicPrefixes = mustPrefixes [
     ''0.0.0.0/8'', ''10.0.0.0/8'', ''100.64.0.0/10'', ''127.0.0.0/8'',
     ''169.254.0.0/16'', ''172.16.0.0/12'', ''192.0.0.0/24'', ''192.0.2.0/24'',
     ''192.88.99.0/24'', ''192.168.0.0/16'', ''198.18.0.0/15'', ''198.51.100.0/24'',
     ''203.0.113.0/24'', ''224.0.0.0/4'', ''240.0.0.0/4'',
     ''::/128'', ''::1/128'', ''::ffff:0:0/96'', ''64:ff9b:1::/48'', ''100::/64'',
     ''2001:2::/48'', ''2001:db8::/32'', ''fc00::/7'', ''fe80::/10'', ''ff00::/8'']"

definition isPublicIP :: "bytes \<Rightarrow> bool" where
  "isPublicIP ip = (case AddrFromSlice ip of
     None \<Rightarrow> False
   | Some a \<Rightarrow> (let u = addr_unmap a in IsGlobalUnicast u \<and> \<not> addrInPrefixes u nonPublicPrefixes))"

subsection \<open>The prefixes as numbers\<close>

definition px_v4 :: "prefix \<Rightarrow> (int \<times> nat) option" where
  "px_v4 p = (case pxAddr p of V4 w \<Rightarrow> Some (uint w, pxBits p) | _ \<Rightarrow> None)"

definition px_v6 :: "prefix \<Rightarrow> (int \<times> nat) option" where
  "px_v6 p = (case pxAddr p of V6 w z \<Rightarrow> Some (uint w, pxBits p) | _ \<Rightarrow> None)"

lemma uint_div_eq: "drop_bit n (w XOR v) = 0 \<longleftrightarrow> uint w div 2 ^ n = uint v div 2 ^ n"
  for v w :: "'a::len word"
proof -
  have "uint x div 2 ^ n = int (unat x div 2 ^ n)" for x :: "'a::len word"
    by (simp add: zdiv_int)
  then show ?thesis unfolding prefix_interval by simp
qed

lemma contains_v4:
  "prefix_contains p (V4 w) \<longleftrightarrow> (case px_v4 p of None \<Rightarrow> False
     | Some (n, b) \<Rightarrow> uint w div 2 ^ (32 - b) = n div 2 ^ (32 - b))"
  by (auto simp: prefix_contains_def px_v4_def uint_div_eq simp del: drop_bit_xor split: addr.split)

lemma contains_v6:
  "prefix_contains p (V6 w '''') \<longleftrightarrow> (case px_v6 p of None \<Rightarrow> False
     | Some (n, b) \<Rightarrow> uint w div 2 ^ (128 - b) = n div 2 ^ (128 - b))"
  by (auto simp: prefix_contains_def px_v6_def uint_div_eq simp del: drop_bit_xor split: addr.split)

lemma in_prefixes_v4:
  "addrInPrefixes (V4 w) ps \<longleftrightarrow>
     list_ex (\<lambda>(n, b). uint w div 2 ^ (32 - b) = n div 2 ^ (32 - b)) (List.map_filter px_v4 ps)"
  by (induction ps) (auto simp: addrInPrefixes_def contains_v4 List.map_filter_simps split: option.split)

lemma in_prefixes_v6:
  "addrInPrefixes (V6 w '''') ps \<longleftrightarrow>
     list_ex (\<lambda>(n, b). uint w div 2 ^ (128 - b) = n div 2 ^ (128 - b)) (List.map_filter px_v6 ps)"
  by (induction ps) (auto simp: addrInPrefixes_def contains_v6 List.map_filter_simps split: option.split)

lemma v4_prefixes:
  "List.map_filter px_v4 nonPublicPrefixes =
     [(0, 8), (167772160, 8), (1681915904, 10), (2130706432, 8), (2851995648, 16), (2886729728, 12),
      (3221225472, 24), (3221225984, 24), (3227017984, 24), (3232235520, 16), (3323068416, 15),
      (3325256704, 24), (3405803776, 24), (3758096384, 4), (4026531840, 4)]"
  by code_simp

lemma v6_prefixes:
  "List.map_filter px_v6 nonPublicPrefixes =
     [(0, 128), (1, 128), (0xffff00000000, 96), (0x64ff9b000100000000000000000000, 48), (0x1000000 * 2 ^ 96, 64),
      (0x20010002000000000000000000000000, 48), (0x20010db8000000000000000000000000, 32),
      (0xfc000000000000000000000000000000, 7), (0xfe800000000000000000000000000000, 10),
      (0xff000000000000000000000000000000, 8)]"
  by code_simp

subsection \<open>Which IPv4 addresses are public\<close>

definition slice_value :: "bytes \<Rightarrow> int" where
  "slice_value bs = foldl (\<lambda>v b. 256 * v + uint b) 0 bs"

definition v4_at :: "int \<Rightarrow> int \<Rightarrow> int \<Rightarrow> int \<Rightarrow> int" where
  "v4_at a b c d = 256 * (256 * (256 * a + b) + c) + d"

text \<open>The special-purpose blocks of IPv4 as intervals, from the first address up to, not including, the last bound.\<close>

definition special_v4 :: "int \<Rightarrow> bool" where
  "special_v4 n \<longleftrightarrow> n < v4_at 1 0 0 0
     \<or> v4_at 10 0 0 0 \<le> n \<and> n < v4_at 11 0 0 0
     \<or> v4_at 100 64 0 0 \<le> n \<and> n < v4_at 100 128 0 0
     \<or> v4_at 127 0 0 0 \<le> n \<and> n < v4_at 128 0 0 0
     \<or> v4_at 169 254 0 0 \<le> n \<and> n < v4_at 169 255 0 0
     \<or> v4_at 172 16 0 0 \<le> n \<and> n < v4_at 172 32 0 0
     \<or> v4_at 192 0 0 0 \<le> n \<and> n < v4_at 192 0 1 0
     \<or> v4_at 192 0 2 0 \<le> n \<and> n < v4_at 192 0 3 0
     \<or> v4_at 192 88 99 0 \<le> n \<and> n < v4_at 192 88 100 0
     \<or> v4_at 192 168 0 0 \<le> n \<and> n < v4_at 192 169 0 0
     \<or> v4_at 198 18 0 0 \<le> n \<and> n < v4_at 198 20 0 0
     \<or> v4_at 198 51 100 0 \<le> n \<and> n < v4_at 198 51 101 0
     \<or> v4_at 203 0 113 0 \<le> n \<and> n < v4_at 203 0 114 0
     \<or> v4_at 224 0 0 0 \<le> n \<and> n < v4_at 240 0 0 0
     \<or> v4_at 240 0 0 0 \<le> n"

lemma div_at: "0 < (k::int) \<Longrightarrow> x div k = q \<longleftrightarrow> q * k \<le> x \<and> x < (q + 1) * k"
proof -
  assume k: "0 < k"
  show ?thesis
  proof
    assume "x div k = q"
    then have "x = q * k + x mod k" by (metis div_mult_mod_eq)
    then show "q * k \<le> x \<and> x < (q + 1) * k"
      using pos_mod_sign [OF k, of x] pos_mod_bound [OF k, of x] by (simp add: distrib_right)
  next
    assume "q * k \<le> x \<and> x < (q + 1) * k"
    then show "x div k = q" using k by (intro int_div_pos_eq [of _ _ _ "x - q * k"]) (auto simp: algebra_simps)
  qed
qed

lemma special_v4_prefixes:
  assumes "0 \<le> n" "n < 2 ^ 32"
  shows "list_ex (\<lambda>(v, b). n div 2 ^ (32 - b) = v div 2 ^ (32 - b)) (List.map_filter px_v4 nonPublicPrefixes)
    \<longleftrightarrow> special_v4 n"
  using assms by (simp add: v4_prefixes div_at special_v4_def v4_at_def)

lemma uint_drop_bit: "uint (drop_bit n w) = uint w div 2 ^ n"
  for w :: "'a::len word"
  by (subst unsigned_drop_bit_eq) (simp add: drop_bit_eq_div take_bit_int_eq_self)

lemma global_v4:
  assumes "\<not> special_v4 (uint w)"
  shows "IsGlobalUnicast (V4 w)"
proof -

  note special = special_v4_def [of "uint w", unfolded v4_at_def, simplified]
  have "\<not> (2130706432 \<le> uint w \<and> uint w < 2147483648)" "\<not> (3758096384 \<le> uint w \<and> uint w < 4026531840)"
    "\<not> (2851995648 \<le> uint w \<and> uint w < 2852061184)" "\<not> uint w < 16777216" "\<not> 4026531840 \<le> uint w"
    using assms unfolding special by blast+
  then have "uint w div 2 ^ 24 \<noteq> 127" "uint w div 2 ^ 28 \<noteq> 0xe" "uint w div 2 ^ 16 \<noteq> 0xa9fe"
    "uint w \<noteq> 0" "uint w \<noteq> 0xffffffff"
    by (simp_all add: div_at)
  then have "uint (drop_bit 24 w) \<noteq> 127" "uint (drop_bit 28 w) \<noteq> 0xe" "uint (drop_bit 16 w) \<noteq> 0xa9fe"
    "uint w \<noteq> uint (0 :: 32 word)" "uint w \<noteq> uint (0xffffffff :: 32 word)"
    by (simp_all only: uint_drop_bit) simp_all
  then have "drop_bit 24 w \<noteq> 127" "drop_bit 28 w \<noteq> 0xe" "drop_bit 16 w \<noteq> 0xa9fe" "w \<noteq> 0" "w \<noteq> 0xffffffff"
    by auto
  then show ?thesis
    by (simp add: IsGlobalUnicast_def IsLoopback_def IsMulticast_def IsLinkLocalUnicast_def addr_unmap_def)
qed

lemma public_v4: "(IsGlobalUnicast (V4 w) \<and> \<not> addrInPrefixes (V4 w) nonPublicPrefixes) \<longleftrightarrow> \<not> special_v4 (uint w)"
proof -
  have "addrInPrefixes (V4 w) nonPublicPrefixes \<longleftrightarrow> special_v4 (uint w)"
    unfolding in_prefixes_v4 by (rule special_v4_prefixes) (use uint_bounded [of w] in simp_all)
  then show ?thesis using global_v4 by blast
qed

lemma slice_value_bound: "0 \<le> slice_value bs \<and> slice_value bs < 256 ^ length bs"
proof (induction bs rule: rev_induct)
  case (snoc b bs)
  then show ?case using uint_bounded [of b] by (simp add: slice_value_def)
qed (simp add: slice_value_def)

lemma slice_v4:
  assumes "length ip = 4"
  shows "AddrFromSlice ip = Some (V4 (word_of_int (slice_value ip)))"
    "uint (word_of_int (slice_value ip) :: 32 word) = slice_value ip"
proof -
  show "AddrFromSlice ip = Some (V4 (word_of_int (slice_value ip)))"
    using assms by (simp add: AddrFromSlice_def slice_value_def)
  show "uint (word_of_int (slice_value ip) :: 32 word) = slice_value ip"
    using slice_value_bound [of ip] assms by (simp add: uint_word_of_int)
qed

text \<open>C33. The SSRF guard lets an IPv4 address through exactly when it lies outside every special-purpose
  block (this network, private, carrier-grade NAT, loopback, link-local, documentation, benchmark,
  multicast, reserved), stated as intervals of addresses.\<close>

theorem public_ipv4_exact:
  assumes "length ip = 4"
  shows "isPublicIP ip \<longleftrightarrow> \<not> special_v4 (slice_value ip)"
  using slice_v4 [OF assms] public_v4 [of "word_of_int (slice_value ip)"]
  by (simp add: isPublicIP_def addr_unmap_def)

theorem public_ipv4_exact_witness:
  "isPublicIP [8, 8, 8, 8] \<longleftrightarrow> True" 
  using public_ipv4_exact [of "[8, 8, 8, 8]"] by (simp add: slice_value_def special_v4_def v4_at_def)

text \<open>An IPv4 address in its IPv6-mapped form is judged as the IPv4 address.\<close>

lemma foldl_shift: "foldl (\<lambda>v b. 256 * v + uint b) a bs = a * 256 ^ length bs + slice_value bs"
proof (induction bs rule: rev_induct)
  case (snoc b bs)
  then show ?case by (simp add: slice_value_def algebra_simps)
qed (simp add: slice_value_def)

lemma slice_value_append: "slice_value (xs @ ys) = slice_value xs * 256 ^ length ys + slice_value ys"
proof -
  have "slice_value (xs @ ys) = foldl (\<lambda>v b. 256 * v + uint b) (slice_value xs) ys"
    by (simp add: slice_value_def)
  then show ?thesis unfolding foldl_shift .
qed

definition mapped_form :: "bytes \<Rightarrow> bytes" where
  "mapped_form ip = [0, 0, 0, 0, 0, 0, 0, 0, 0, 0, 255, 255] @ ip"

lemma mapped_unmap:
  assumes "0 \<le> n" "n < 2 ^ 32"
  shows "addr_unmap (V6 (word_of_int (0xffff * 2 ^ 32 + n)) z) = V4 (word_of_int n)"
proof -
  let ?w = "word_of_int (0xffff * 2 ^ 32 + n) :: 128 word"
  have u: "uint ?w = 0xffff * 2 ^ 32 + n" unfolding uint_word_of_int using assms by simp
  have "uint (drop_bit 32 ?w) = (0xffff * 2 ^ 32 + n) div 2 ^ 32"
    using u by (simp only: uint_drop_bit)
  then have "uint (drop_bit 32 ?w) = 0xffff" using assms by simp
  then have d: "drop_bit 32 ?w = 0xffff" by (simp add: word_uint_eq_iff)
  have "(0xffff * 2 ^ 32 + n) mod 2 ^ 32 = n" using assms by (simp only: mod_mult_self3 mod_pos_pos_trivial)
  then have "uint (ucast ?w :: 32 word) = n" unfolding unsigned_ucast_eq u take_bit_eq_mod by simp
  then have "(ucast ?w :: 32 word) = word_of_int n" by (metis word_of_int_uint)
  then show ?thesis using d by (simp add: addr_unmap_def)
qed

text \<open>Wrapping an IPv4 address into IPv6 does not get it past the guard: the IPv4-mapped form of an
  address is let through exactly when the address is.\<close>

theorem mapped_form_no_bypass:
  assumes "length ip = 4"
  shows "isPublicIP (mapped_form ip) = isPublicIP ip"
proof -
  have v: "slice_value (mapped_form ip) = 0xffff * 2 ^ 32 + slice_value ip"
    using assms unfolding mapped_form_def slice_value_append by (simp add: slice_value_def)
  have "AddrFromSlice (mapped_form ip) = Some (V6 (word_of_int (slice_value (mapped_form ip))) '''')"
    using assms by (simp add: AddrFromSlice_def slice_value_def mapped_form_def)
  moreover have "addr_unmap (V6 (word_of_int (slice_value (mapped_form ip))) '''') = V4 (word_of_int (slice_value ip))"
    unfolding v by (rule mapped_unmap) (use slice_value_bound [of ip] assms in auto)
  ultimately show ?thesis using slice_v4(1) [OF assms] by (simp add: isPublicIP_def addr_unmap_def)
qed

theorem mapped_form_no_bypass_witness: "\<not> isPublicIP (mapped_form [127, 0, 0, 1])"
  using mapped_form_no_bypass [of "[127, 0, 0, 1]"] public_v4 [of 2130706433]
  by (simp add: isPublicIP_def AddrFromSlice_def special_v4_def v4_at_def addr_unmap_def)

section \<open>Dialling\<close>

text \<open>The candidates of one lookup, tried in order: the first connection, or the last error.\<close>

record 'c net_lib =
  lookup_ips :: "string \<Rightarrow> go_error + bytes list"
  dial_ip :: "bytes \<Rightarrow> string \<Rightarrow> go_error + 'c"

fun dial_all :: "'c net_lib \<Rightarrow> string \<Rightarrow> bytes list \<Rightarrow> go_error \<Rightarrow> (go_error + 'c) \<times> bytes list" where
  "dial_all lib port [] lastErr = (Inl lastErr, [])"
| "dial_all lib port (ip # ips) lastErr =
     (if \<not> isPublicIP ip then
        dial_all lib port ips (ErrMsg ''refusing to connect to non-public address'')
      else (case dial_ip lib ip port of
         Inr c \<Rightarrow> (Inr c, [ip])
       | Inl e \<Rightarrow> (case dial_all lib port ips e of (r, tried) \<Rightarrow> (r, ip # tried))))"

definition safeDialContext :: "'c net_lib \<Rightarrow> string \<Rightarrow> (go_error + 'c) \<times> bytes list" where
  "safeDialContext lib hostport = (case SplitHostPort hostport of
     None \<Rightarrow> (Inl (ErrMsg ''address: missing port or malformed''), [])
   | Some (host, port) \<Rightarrow> (case lookup_ips lib host of
        Inl e \<Rightarrow> (Inl e, [])
      | Inr ips \<Rightarrow> if ips = [] then (Inl (ErrMsg (''no addresses for host '' @ host)), [])
          else dial_all lib port ips (ErrMsg '''')))"

lemma dial_all_spec:
  "dial_all lib port ips e = (r, tried) \<Longrightarrow>
     set tried \<subseteq> {ip \<in> set ips. isPublicIP ip} \<and>
     (case r of Inr c \<Rightarrow> \<exists>ip \<in> set ips. isPublicIP ip \<and> dial_ip lib ip port = Inr c
      | Inl _ \<Rightarrow> \<forall>ip \<in> set ips. isPublicIP ip \<longrightarrow> (\<exists>e. dial_ip lib ip port = Inl e))"
proof (induction ips arbitrary: e r tried)
  case Nil
  then show ?case by auto
next
  case (Cons ip ips)
  show ?case
  proof (cases "isPublicIP ip")
    case False
    then have "dial_all lib port ips (ErrMsg ''refusing to connect to non-public address'') = (r, tried)"
      using Cons.prems by simp
    from Cons.IH [OF this] show ?thesis using False by (auto split: sum.splits)
  next
    case True
    show ?thesis
    proof (cases "dial_ip lib ip port")
      case (Inr c)
      then have "r = Inr c" "tried = [ip]" using Cons.prems True by auto
      then show ?thesis using True Inr by auto
    next
      case (Inl e')
      obtain r' tried' where rest: "dial_all lib port ips e' = (r', tried')" by fastforce
      then have "r = r'" "tried = ip # tried'" using Cons.prems True Inl by auto
      then show ?thesis using Cons.IH [OF rest] True Inl by (auto split: sum.splits)
    qed
  qed
qed

text \<open>C34. No server-side request forgery through name resolution: whatever a name resolves to, only
  addresses that were checked and found public are dialled, the connection that is returned goes to
  one of them, and the call fails only if every public candidate refuses.\<close>

theorem dials_public_only:
  assumes "SplitHostPort hostport = Some (host, port)" "lookup_ips lib host = Inr ips"
    "safeDialContext lib hostport = (r, tried)"
  shows "set tried \<subseteq> {ip \<in> set ips. isPublicIP ip} \<and>
    (case r of Inr c \<Rightarrow> \<exists>ip \<in> set ips. isPublicIP ip \<and> dial_ip lib ip port = Inr c
     | Inl _ \<Rightarrow> \<forall>ip \<in> set ips. isPublicIP ip \<longrightarrow> (\<exists>e. dial_ip lib ip port = Inl e))"
proof (cases "ips = []")
  case True
  then show ?thesis using assms by (auto simp: safeDialContext_def)
next
  case False
  then have "dial_all lib port ips (ErrMsg '''') = (r, tried)" using assms by (simp add: safeDialContext_def)
  then show ?thesis by (rule dial_all_spec)
qed

definition demo_net :: "bytes net_lib" where
  "demo_net = \<lparr>lookup_ips = (\<lambda>h. Inr [[127, 0, 0, 1], [8, 8, 8, 8]]), dial_ip = (\<lambda>ip port. Inr ip)\<rparr>"

theorem dials_public_only_witness:
  "\<exists>c. fst (safeDialContext demo_net ''evil.test:443'') = Inr c \<and> isPublicIP c \<and> [127, 0, 0, 1] \<noteq> c"
proof -
  obtain r tried where run: "safeDialContext demo_net ''evil.test:443'' = (r, tried)" by fastforce
  have hp: "SplitHostPort ''evil.test:443'' = Some (''evil.test'', ''443'')" by code_simp
  have pub: "isPublicIP [8, 8, 8, 8]" "\<not> isPublicIP [127, 0, 0, 1]"
    using public_v4 [of 134744072] public_v4 [of 2130706433]
    by (simp_all add: isPublicIP_def AddrFromSlice_def addr_unmap_def special_v4_def v4_at_def Let_def)
  have "case r of Inr c \<Rightarrow> \<exists>ip \<in> set [[127, 0, 0, 1], [8, 8, 8, 8]]. isPublicIP ip \<and> dial_ip demo_net ip ''443'' = Inr c
     | Inl _ \<Rightarrow> \<forall>ip \<in> set [[127, 0, 0, 1], [8, 8, 8, 8]]. isPublicIP ip \<longrightarrow> (\<exists>e. dial_ip demo_net ip ''443'' = Inl e)"
    using dials_public_only [OF hp _ run] by (simp add: demo_net_def)
  then show ?thesis using pub run by (cases r) (auto simp: demo_net_def)
qed

section \<open>Redirects and response bodies\<close>

text \<open>\<^verbatim>\<open>sameHTTPSOriginRedirect\<close>: \<open>False\<close> is \<^verbatim>\<open>http.ErrUseLastResponse\<close>; a request is its URL's scheme and host.\<close>

record url_ref =
  uScheme :: string
  uHost :: string

definition sameHTTPSOriginRedirect :: "url_ref \<Rightarrow> url_ref list \<Rightarrow> bool" where
  "sameHTTPSOriginRedirect req via \<longleftrightarrow>
     \<not> (uScheme req \<noteq> ''https'' \<or> length via = 0 \<or> uHost req \<noteq> uHost (hd via))"

text \<open>The client follows redirects one by one; \<open>via\<close> are the requests made so far, oldest first.\<close>

fun follow :: "url_ref list \<Rightarrow> url_ref list \<Rightarrow> url_ref list" where
  "follow via [] = via"
| "follow via (u # us) = (if sameHTTPSOriginRedirect u via then follow (via @ [u]) us else via)"

lemma follow_same_host:
  "via \<noteq> [] \<Longrightarrow> \<forall>u \<in> set (follow via us). u \<in> set via \<or> (uScheme u = ''https'' \<and> uHost u = uHost (hd via))"
proof (induction us arbitrary: via)
  case (Cons u us)
  then show ?case using Cons.IH [of "via @ [u]"] by (auto simp: sameHTTPSOriginRedirect_def)
qed simp

text \<open>
  \<^verbatim>\<open>maxReadCloser\<close>: the underlying reader is what is still to come, the error (or EOF) after it and a
  plan of the reads, as far as \<^verbatim>\<open>io.Reader\<close> leaves them to the reader: an entry \<open>(k, e)\<close> says how many bytes
  the read yields at most (none with no error is allowed), and whether the end is told together with
  the last bytes. After the plan a read fills its buffer and the end comes alone. The result of a read
  is its bytes and its error.
\<close>

datatype read_err = ReadEOF | ReadErr go_error

record reader =
  rdRest :: bytes
  rdEnd :: read_err
  rdPlan :: "(nat \<times> bool) list"

definition raw_read :: "nat \<Rightarrow> reader \<Rightarrow> bytes \<times> read_err option \<times> reader" where
  "raw_read n r = (let
     (k, e) = (case rdPlan r of [] \<Rightarrow> (n, False) | x # _ \<Rightarrow> x);
     m = min n k;
     rest = drop m (rdRest r)
   in (take m (rdRest r),
       if rest = [] \<and> (e \<or> (0 < m \<and> rdRest r = [])) then Some (rdEnd r) else None,
       r\<lparr>rdRest := rest, rdPlan := tl (rdPlan r)\<rparr>))"

text \<open>\<^verbatim>\<open>maxReadCloser.Read\<close> into a buffer of \<open>n\<close> bytes; the state is the reader and \<^verbatim>\<open>remaining\<close>. At the limit it asks
  for one byte more, and a byte it gets counts before the error that came with it.\<close>

definition capped_read :: "nat \<Rightarrow> reader \<times> int \<Rightarrow> bytes \<times> read_err option \<times> (reader \<times> int)" where
  "capped_read n st = (case st of (r, remaining) \<Rightarrow>
     if remaining \<le> 0 then
       (case raw_read 1 r of (extra, err, r') \<Rightarrow>
          if length extra > 0 then ([], Some (ReadErr (ErrMsg ''response body exceeds limit'')), (r', remaining))
          else ([], err, (r', remaining)))
     else
       (let p = (if int n > remaining then nat remaining else n) in
        case raw_read p r of (out, err, r') \<Rightarrow> (out, err, (r', remaining - int (length out)))))"

text \<open>\<^verbatim>\<open>maxResponseBodyTransport.RoundTrip\<close> on a response with the declared length \<open>len\<close> (-1 if unknown).\<close>

definition RoundTrip :: "int \<Rightarrow> go_error + int \<times> reader \<Rightarrow> go_error + reader \<times> int" where
  "RoundTrip limit resp = (case resp of
     Inl e \<Rightarrow> Inl e
   | Inr (len, body) \<Rightarrow> if len > limit then Inl (ErrMsg ''response body exceeds byte limit'')
       else Inr (body, limit))"

text \<open>\<^verbatim>\<open>io.ReadAll\<close> over the capped reader: it reads until an error, and EOF is success. \<open>fuel\<close> bounds the number
  of reads and numbers them; \<open>buf\<close> is the room of the buffer at each.\<close>

fun read_all :: "nat \<Rightarrow> (nat \<Rightarrow> nat) \<Rightarrow> reader \<times> int \<Rightarrow> (go_error + bytes) option" where
  "read_all 0 buf st = None"
| "read_all (Suc fuel) buf st = (case capped_read (buf fuel) st of
     (out, Some ReadEOF, st') \<Rightarrow> Some (Inr out)
   | (out, Some (ReadErr e), st') \<Rightarrow> Some (Inl e)
   | (out, None, st') \<Rightarrow> map_option (map_sum id (\<lambda>rest. out @ rest)) (read_all fuel buf st'))"

text \<open>A read below the limit: it takes bytes from the front, ends only with the body, and one that does not
  end has used up an entry of the plan or a byte. One at the limit yields no byte.\<close>

definition reads_left :: "reader \<Rightarrow> nat" where
  "reads_left r = length (rdPlan r) + length (rdRest r)"

lemma raw_read_cases:
  assumes "raw_read n r = (out, err, r')"
  shows "rdRest r = out @ rdRest r'"
    and "rdEnd r' = rdEnd r"
    and "err \<noteq> None \<longrightarrow> err = Some (rdEnd r) \<and> rdRest r' = []"
    and "length out \<le> n"
    and "0 < n \<longrightarrow> err = None \<longrightarrow> reads_left r' < reads_left r"
  using assms
  by (cases "rdPlan r"; cases "rdRest r"; auto simp: raw_read_def Let_def reads_left_def split: if_splits prod.splits)+

lemma capped_read_limit:
  assumes "remaining \<le> 0" "capped_read n (r, remaining) = (out, err, r', remaining')"
  shows "out = []" "rdRest r = [] \<longrightarrow> err = None \<or> err = Some (rdEnd r)"
    "rdRest r \<noteq> [] \<longrightarrow> err = None \<or> err = Some (ReadErr (ErrMsg ''response body exceeds limit''))"
    "err = None \<longrightarrow> rdRest r' = rdRest r \<and> rdEnd r' = rdEnd r \<and> remaining' = remaining \<and> reads_left r' < reads_left r"
proof -
  obtain extra e r1 where raw: "raw_read 1 r = (extra, e, r1)" by (cases "raw_read 1 r")
  note c = raw_read_cases [OF raw]
  show "out = []" "rdRest r = [] \<longrightarrow> err = None \<or> err = Some (rdEnd r)"
    "rdRest r \<noteq> [] \<longrightarrow> err = None \<or> err = Some (ReadErr (ErrMsg ''response body exceeds limit''))"
    "err = None \<longrightarrow> rdRest r' = rdRest r \<and> rdEnd r' = rdEnd r \<and> remaining' = remaining \<and> reads_left r' < reads_left r"
    using assms raw c by (auto simp: capped_read_def split: if_splits)
qed

lemma capped_read_below:
  assumes "0 < remaining" "0 < n" "capped_read n (r, remaining) = (out, err, r', remaining')"
  shows "rdRest r = out @ rdRest r'" "rdEnd r' = rdEnd r" "remaining' = remaining - int (length out)" "0 \<le> remaining'"
    "err \<noteq> None \<longrightarrow> err = Some (rdEnd r) \<and> rdRest r' = []" "err = None \<longrightarrow> reads_left r' < reads_left r"
proof -
  define p where "p = (if int n > remaining then nat remaining else n)"
  obtain o1 e r1 where raw: "raw_read p r = (o1, e, r1)" by (cases "raw_read p r")
  have p: "0 < p" "int p \<le> remaining" using assms(1,2) by (auto simp: p_def)
  note c = raw_read_cases [OF raw]
  show "rdRest r = out @ rdRest r'" "rdEnd r' = rdEnd r" "remaining' = remaining - int (length out)" "0 \<le> remaining'"
    "err \<noteq> None \<longrightarrow> err = Some (rdEnd r) \<and> rdRest r' = []" "err = None \<longrightarrow> reads_left r' < reads_left r"
    using assms raw p c by (auto simp: capped_read_def Let_def simp flip: p_def)
qed

lemma read_all_steps:
  "reads_left r < fuel \<Longrightarrow> (\<And>i. 0 < buf i) \<Longrightarrow> read_all fuel buf (r, remaining) =
     Some (if int (length (rdRest r)) \<le> max 0 remaining
           then (case rdEnd r of ReadEOF \<Rightarrow> Inr (rdRest r) | ReadErr e \<Rightarrow> Inl e)
           else Inl (ErrMsg ''response body exceeds limit''))"
proof (induction fuel arbitrary: r remaining)
  case 0
  then show ?case by simp
next
  case (Suc fuel)
  obtain out err r' remaining' where rd: "capped_read (buf fuel) (r, remaining) = (out, err, r', remaining')"
    by (cases "capped_read (buf fuel) (r, remaining)") auto
  show ?case
  proof (cases "remaining \<le> 0")
    case True
    note c = capped_read_limit [OF True rd]
    show ?thesis
    proof (cases err)
      case None
      then show ?thesis using Suc.IH [of r' remaining'] Suc.prems c rd by (auto split: read_err.split)
    next
      case (Some e)
      then show ?thesis using True c rd by (cases "rdRest r = []") (auto split: read_err.split)
    qed
  next
    case False
    then have pos: "0 < remaining" by simp
    note c = capped_read_below [OF pos Suc.prems(2) rd]
    show ?thesis
    proof (cases err)
      case None
      then show ?thesis using Suc.IH [of r' remaining'] Suc.prems c rd by (auto split: read_err.split)
    next
      case (Some e)
      then show ?thesis using pos c rd by (auto split: read_err.split)
    qed
  qed
qed

text \<open>C35. Reading a response of an untrusted server ends, after at most one read per byte, per read the
  server planned and one more, whatever the sizes of the reads and of the buffers and whether the end
  is told with the last bytes or after them. A body that fits the limit is read as a whole, or its
  error is reported; a longer one, even by one byte, is the limit's error: never a truncated body that
  looks complete.\<close>

theorem capped_body_exact:
  assumes "RoundTrip limit (Inr (len, body)) = Inr st" "\<And>i. 0 < buf i"
  shows "read_all (length (rdPlan body) + length (rdRest body) + 1) buf st =
    Some (if int (length (rdRest body)) \<le> max 0 limit
      then (case rdEnd body of ReadEOF \<Rightarrow> Inr (rdRest body) | ReadErr e \<Rightarrow> Inl e)
      else Inl (ErrMsg ''response body exceeds limit''))"
proof -
  have "st = (body, limit)" using assms(1) by (simp add: RoundTrip_def split: if_splits)
  then show ?thesis
    using read_all_steps [of body "length (rdPlan body) + length (rdRest body) + 1" buf limit] assms(2)
    by (simp add: reads_left_def)
qed

text \<open>The last byte of a body one byte too long comes together with EOF, after an empty read.\<close>

theorem capped_body_exact_witness:
  "read_all 8 Suc (\<lparr>rdRest = [1, 2, 3], rdEnd = ReadEOF, rdPlan = [(1, False), (0, False), (1, True), (1, True)]\<rparr>, 2) =
     Some (Inl (ErrMsg ''response body exceeds limit''))"
  using capped_body_exact [of 2 "-1" "\<lparr>rdRest = [1, 2, 3], rdEnd = ReadEOF, rdPlan = [(1, False), (0, False), (1, True), (1, True)]\<rparr>"
      "(\<lparr>rdRest = [1, 2, 3], rdEnd = ReadEOF, rdPlan = [(1, False), (0, False), (1, True), (1, True)]\<rparr>, 2)" Suc]
  by (simp add: RoundTrip_def numeral_eq_Suc)

section \<open>The HTTP clients\<close>

text \<open>The literals of the clients, in seconds; \<open>tpHeaderTimeout\<close> is 0 where none is set. A client without a
  \<^verbatim>\<open>CheckRedirect\<close> follows every redirect the library follows.\<close>

datatype dialer = DefaultDial | SafeDialContext

record transport =
  tpProxyFromEnv :: bool
  tpDial :: dialer
  tpMaxIdleConns :: nat
  tpIdleConnTimeout :: nat
  tpTLSHandshakeTimeout :: nat
  tpHeaderTimeout :: nat
  tpExpectContinueTimeout :: nat

datatype round_tripper = Plain transport | MaxBody round_tripper nat

record http_client =
  hcTimeout :: nat
  hcTransport :: round_tripper
  hcSameOriginOnly :: bool

definition untrustedResolutionTimeout :: nat where
  "untrustedResolutionTimeout = 10"

definition maxDIDDocumentBytes :: nat where
  "maxDIDDocumentBytes = 2 ^ 20"

definition proxyHTTPClient :: http_client where
  "proxyHTTPClient = \<lparr>hcTimeout = 30, hcTransport = Plain \<lparr>tpProxyFromEnv = False, tpDial = SafeDialContext, tpMaxIdleConns = 100,
     tpIdleConnTimeout = 90, tpTLSHandshakeTimeout = 10, tpHeaderTimeout = 0, tpExpectContinueTimeout = 1\<rparr>,
     hcSameOriginOnly = False\<rparr>"

definition trustedHTTPClient :: http_client where
  "trustedHTTPClient = \<lparr>hcTimeout = 30, hcTransport = Plain \<lparr>tpProxyFromEnv = True, tpDial = DefaultDial, tpMaxIdleConns = 100,
     tpIdleConnTimeout = 90, tpTLSHandshakeTimeout = 10, tpHeaderTimeout = 15, tpExpectContinueTimeout = 1\<rparr>,
     hcSameOriginOnly = False\<rparr>"

definition newSafeTransport :: transport where
  "newSafeTransport = \<lparr>tpProxyFromEnv = False, tpDial = SafeDialContext, tpMaxIdleConns = 100,
     tpIdleConnTimeout = 90, tpTLSHandshakeTimeout = 10, tpHeaderTimeout = 0, tpExpectContinueTimeout = 1\<rparr>"

definition newUntrustedResolutionHTTPClient :: http_client where
  "newUntrustedResolutionHTTPClient = \<lparr>hcTimeout = untrustedResolutionTimeout,
     hcTransport = MaxBody (Plain newSafeTransport) maxDIDDocumentBytes, hcSameOriginOnly = True\<rparr>"

text \<open>The choice of \<^verbatim>\<open>handleProxy\<close>.\<close>

definition proxy_client :: "bool \<Rightarrow> http_client" where
  "proxy_client trusted = (if trusted then trustedHTTPClient else proxyHTTPClient)"

text \<open>What a client does with an address, a redirect and a response: without a dialer of its own it connects to
  whatever the name resolves to, and through a proxy of the environment it does not connect itself.\<close>

fun base_transport :: "round_tripper \<Rightarrow> transport" where
  "base_transport (Plain t) = t"
| "base_transport (MaxBody b n) = base_transport b"

fun body_cap :: "round_tripper \<Rightarrow> nat option" where
  "body_cap (Plain t) = None"
| "body_cap (MaxBody b n) = Some (case body_cap b of None \<Rightarrow> n | Some m \<Rightarrow> min m n)"

fun dial_any :: "'c net_lib \<Rightarrow> string \<Rightarrow> bytes list \<Rightarrow> go_error \<Rightarrow> (go_error + 'c) \<times> bytes list" where
  "dial_any lib port [] lastErr = (Inl lastErr, [])"
| "dial_any lib port (ip # ips) lastErr = (case dial_ip lib ip port of
     Inr c \<Rightarrow> (Inr c, [ip])
   | Inl e \<Rightarrow> (case dial_any lib port ips e of (r, tried) \<Rightarrow> (r, ip # tried)))"

definition client_dial :: "'c net_lib \<Rightarrow> http_client \<Rightarrow> string \<Rightarrow> (go_error + 'c) \<times> bytes list" where
  "client_dial lib c hostport = (case tpDial (base_transport (hcTransport c)) of
     SafeDialContext \<Rightarrow> safeDialContext lib hostport
   | DefaultDial \<Rightarrow> (case SplitHostPort hostport of
       None \<Rightarrow> (Inl (ErrMsg ''address: missing port or malformed''), [])
     | Some (host, port) \<Rightarrow> (case lookup_ips lib host of
         Inl e \<Rightarrow> (Inl e, []) | Inr ips \<Rightarrow> dial_any lib port ips (ErrMsg ''no addresses''))))"

definition client_redirects :: "http_client \<Rightarrow> url_ref list \<Rightarrow> url_ref list \<Rightarrow> url_ref list" where
  "client_redirects c via us = (if hcSameOriginOnly c then follow via us else via @ us)"

lemmas client_literals = proxy_client_def proxyHTTPClient_def trustedHTTPClient_def newUntrustedResolutionHTTPClient_def newSafeTransport_def
  untrustedResolutionTimeout_def maxDIDDocumentBytes_def

text \<open>Both clients for targets that a caller chooses connect by themselves, to public addresses only, and the one
  for identities stays at its host and caps the body at one mebibyte.\<close>

lemma untrusted_clients_guarded:
  assumes "c \<in> {proxy_client False, newUntrustedResolutionHTTPClient}"
    and "client_dial lib c hostport = (r, tried)"
  shows "\<not> tpProxyFromEnv (base_transport (hcTransport c)) \<and> (\<forall>ip \<in> set tried. isPublicIP ip)"
proof -
  have c: "tpDial (base_transport (hcTransport c)) = SafeDialContext" "\<not> tpProxyFromEnv (base_transport (hcTransport c))"
    using assms(1) by (auto simp: client_literals)
  then have "safeDialContext lib hostport = (r, tried)" using assms(2) by (simp add: client_dial_def)
  then have "\<forall>ip \<in> set tried. isPublicIP ip"
    by (auto simp: safeDialContext_def split: option.splits sum.splits prod.splits if_splits dest!: dial_all_spec)
  then show ?thesis using c(2) by simp
qed

lemma resolution_client_bounded:
  "body_cap (hcTransport newUntrustedResolutionHTTPClient) = Some 1048576"
  "via \<noteq> [] \<Longrightarrow> u \<in> set (client_redirects newUntrustedResolutionHTTPClient via us) \<Longrightarrow>
    u \<in> set via \<or> (uScheme u = ''https'' \<and> uHost u = uHost (hd via))"
  using follow_same_host [of via us] by (auto simp: client_literals client_redirects_def)

end
