(* ===== verification/Spec2Isabelle.thy ===== *)
theory Spec2Isabelle
  imports ServerSpec PageSpec PrivateSpec ImportRace ProxySpec IdentitySpec RaceSpec WriteErrors CliSpec Subscribe SafeDial
begin

text \<open>
  \<^bold>\<open>Robby, a personal data server of the AT Protocol.\<close>

  The program keeps accounts in one SQLite file (\<^verbatim>\<open>accounts.db\<close>), the repository of every account in an SQLite
  file and a directory of blobs of its own, and the events of the network's firehose in a table of
  \<^verbatim>\<open>accounts.db\<close>. HTTP handlers read and write them; websocket subscribers read the firehose; an
  administration CLI talks to the server over HTTP. This development models all of it, from the SQL statements
  to the table of routes, and proves what each part promises and what the whole keeps.

  \<^bold>\<open>Layers and where they are.\<close>

  \<^item> \<open>Prelude\<close>: Go errors as values (\<open>go_error\<close>, with \<^verbatim>\<open>errors.Is\<close> and the text), operations that pass a
    state and may fail (\<open>op\<close>, \<open>gobind\<close>, \<open>wrapf\<close>, \<open>goeach\<close>) and the rules on predicates they preserve.
    \<open>Sql\<close>: statements on tables, transactions, constraints and the tape of failures. \<open>GoStd\<close> and \<open>Net\<close>: what
    the code uses of the Go library (base64, hex, decimal, \<^verbatim>\<open>netip\<close>, \<^verbatim>\<open>net.SplitHostPort\<close>).
  \<^item> \<open>Store\<close>, \<open>Schema\<close> (\<^verbatim>\<open>internal/store/store.go\<close>): the tables and methods of the account store, and its
    migrations one level below, on columns and rows; \<open>StoreSpec\<close> has its contracts.
  \<^item> \<open>ActorStore\<close> (\<^verbatim>\<open>internal/actorstore\<close>): the store of one account, the manager of all of them, paths;
    \<open>ActorSpec\<close>.
  \<^item> \<open>Auth\<close> (\<^verbatim>\<open>internal/auth/auth.go\<close>): password hashes and tokens.
  \<^item> \<open>Firehose\<close> (\<^verbatim>\<open>internal/firehose/event.go\<close>, \<^verbatim>\<open>internal/carutil/car.go\<close>) and \<open>Sequencer\<close>
    (\<^verbatim>\<open>internal/sequencer/sequencer.go\<close>): frames, the log, its trimming, backfill and broadcasts;
    \<open>SequencerSpec\<close>.
  \<^item> \<open>RepoOps\<close> (\<^verbatim>\<open>internal/repoops/writer.go\<close>, \<^verbatim>\<open>internal/lexicon/catalog.go\<close>): the write path of a
    repository; \<open>RepoSpec\<close> (one batch), \<open>RepoSync\<close> (histories of batches and their events), \<open>Concurrent\<close> and
    \<open>ConcurrentSpec\<close> (writers that overlap, as a step relation), \<open>ImportRace\<close> (an import beside a writer).
  \<^item> \<open>World\<close>: the state of the server, \<open>wAcct\<close> (accounts.db), \<open>wMgr\<close> (the actor stores), \<open>wSeq\<close> (the log and
    its subscribers) and \<open>wSent\<close> (what went to the PLC directory). \<open>Http\<close>: requests, responses and handlers
    as steps that may end with a response (\<open>hbind\<close>, \<open>attempt\<close>, \<open>guard\<close>, \<open>serve\<close>), JSON decoding with Go's
    field matching, CORS. \<open>Server\<close>: configuration and libraries.
  \<^item> The handlers of \<^verbatim>\<open>internal/xrpc\<close>: \<open>Session\<close> (session.go, apppassword.go), \<open>RepoApi\<close> (repo.go),
    \<open>Sync\<close> (sync.go), \<open>Private\<close> (preferences.go, serviceauth.go), \<open>Plc\<close> (\<^verbatim>\<open>internal/plc/plc.go\<close>),
    \<open>Admin\<close> (admin.go), \<open>Identity\<close> (identity.go), \<open>Migration\<close> (migration.go), \<open>Proxy\<close> (proxy.go),
    \<open>ClientIP\<close> (clientip.go), \<open>SafeDial\<close> (safedial.go), \<open>Subscribe\<close> (subscribe.go, a step relation), and
    \<open>Routes\<close> (server.go), whose \<open>Handler\<close> is the whole server as a function on its state.
  \<^item> \<open>Config\<close> (\<^verbatim>\<open>internal/config/config.go\<close>) over a file system, \<open>Cli\<close> (\<^verbatim>\<open>cmd/robby/account.go\<close>,
    \<^verbatim>\<open>relay.go\<close>, \<^verbatim>\<open>version.go\<close>, \<^verbatim>\<open>internal/relay/relay.go\<close>) and \<open>Startup\<close> (\<^verbatim>\<open>cmd/robby/serve.go\<close>, \<^verbatim>\<open>main.go\<close>).

  One definition models one function of the source, under its name where Isabelle allows it, with the same
  order of statements, checks and early returns; an SQL statement is one \<open>stmt\<close>.

  \<^bold>\<open>Failures.\<close> Every database and file system call takes a boolean from the tape of its connection and fails when
  it is true. No theorem restricts the tape unless it says so, so the theorems hold however the driver fails,
  between the statements of a function that has no transaction too. A store that is created on the way has a tape
  of its own (\<open>fresh\<close>). A store that is created on the way has a tape
  of its own (\<open>fresh\<close>).

  \<^bold>\<open>What is proved.\<close>

  \<^item> The whole server (\<open>HandlerInv\<close>, \<open>ServerSpec\<close>). The locale \<open>server_predicate\<close> takes predicates of the
    tables and the laws by which the operations keep them, and shows once, handler by handler, that every
    route keeps them. Its interpretations give: every constraint of every database holds after every sequence
    of requests; requests of others leave an account alone; a takedown is final; the counter of the log only grows,
    its past is never altered, and an event is deleted only when the retention window has passed.
  \<^item> Repositories (\<open>RepoSpec\<close>, \<open>RepoSync\<close>): a batch is all or nothing and its results are true, the index
    agrees with the signed tree after every history, revisions increase, one event per batch describes it.
    \<open>Concurrent\<close>: whatever the interleaving of the goroutines that write one repository, it is a sequence of
    whole batches (\<open>serial\<close> is the specification, \<open>winv\<close> the invariant of the refinement) and no update is lost;
    the two things the lock does not order are the announcements and an import.
  \<^item> Sessions and credentials (\<open>StoreSpec\<close>, \<open>SessionSpec\<close>, \<open>Auth\<close>): round trips of passwords and tokens, tokens
    for one use (the locale \<open>one_shot\<close>), who a request may act for, the claims of the tokens that a login or a
    refresh hands out, logout and revocation, rotation.
  \<^item> The firehose (\<open>SequencerSpec\<close>, \<open>Subscribe\<close>): appending is all or nothing, backfill is exact, what a
    subscriber sees is in order and without gaps under a stated condition, and the two ways in which the
    code falls short of its comments: trimming within the cutoff's second, and, for every live session, an event
    whose broadcast comes late.
  \<^item> Migration, identity, proxy, service tokens, preferences (\<open>MigrationSpec\<close>, \<open>IdentitySpec\<close>, \<open>ProxySpec\<close>,
    \<open>PrivateSpec\<close>), public reads (\<open>SyncSpec\<close>) and their cursors (\<open>PageSpec\<close>), the errors of writes (\<open>WriteErrors\<close>).
  \<^item> The network edge (\<open>ClientIP\<close>, \<open>SafeDial\<close>): client addresses, the limiter against a reference bucket,
    addresses that may be dialled, redirects, capped bodies, and which HTTP client is guarded how.
  \<^item> The start and the CLI (\<open>Schema\<close>, \<open>CliSpec\<close>): upgrades of old files, also after an interruption, and a
    command of the CLI having the effect that the user asked for, through the routes, the guard and the decoder.

  Every property with hypotheses has a witness on the example server of \<open>Demo\<close> or a smaller example.

  \<^bold>\<open>Parameters.\<close> Code outside the repository is an argument: the JSON, CBOR, CAR, JWT, TOML and SQLite libraries, scrypt
  and SHA-256, the token bucket, and of the indigo library the Merkle search tree, the TID clock, commits,
  identifiers, keys, DID and handle resolution and lexicons. What a theorem needs of one is a named
  hypothesis (that the tree is a map, the clock increases, decoding inverts encoding), shown satisfiable by its
  witness. Clocks and random numbers are arguments of each request: \<open>svNow\<close> are the readings that its handler
  makes, \<open>svTid\<close> those that the TID clock of its write makes, and each batch of a history or goroutine has
  readings of its own (\<open>baTimes\<close>), so that two writes from the same revision may choose different TIDs. The
  emitters of events read the clock twice in a row, for the time in the event and for the row of the log; the
  model has one reading for both.

  \<^bold>\<open>Bounds.\<close> The loops of the source run over lists that are there, so the definitions are total without fuel. Only the
  reader of a capped body (\<open>read_all\<close> in \<open>SafeDial\<close>) has fuel, a read for each unit. The reader below it is any
  that \<^verbatim>\<open>io.Reader\<close> allows: a plan says for each read how many bytes it yields, none included, and whether the end
  comes with the last bytes. The property gives fuel for the plan, the bytes and one read more, because every
  read but the last uses up an entry of the plan or a byte. Sequence numbers stop at \<open>2 ^ 63 - 1\<close> as SQLite's do, the channel of a subscriber has the source's
  256 slots, addresses are 32 and 128 bit words, body caps are the source's.

  \<^bold>\<open>Concurrency.\<close> A request is one step of the server, so the theorems on sequences of requests, the one on takedowns
  among them, speak of requests that do not overlap. The two interleavings that the code handles itself are step
  relations: subscribers beside appends and broadcasts in \<open>Subscribe\<close>, the writers of one repository under the
  mutex of \<^verbatim>\<open>WithLock\<close> in \<open>Concurrent\<close>, where a step is a statement outside a transaction or a whole
  transaction, because the pool of an actor's database has one connection, and requests without the mutex are
  environment steps that keep the repository's tables (\<open>unlocked_writes\<close>). Of other handlers that overlap,
  \<open>ImportRace\<close> and \<open>RaceSpec\<close> show one case each, an import beside a writer and an activation that undoes a
  takedown; the rest is not modelled, except as failures that cut a handler off.

  \<^bold>\<open>Not modelled.\<close> Redirects of \<^verbatim>\<open>http.ServeMux\<close>, the websocket handshake, the effect of HTTP client and server
  timeouts, signal delivery, argument parsing and help texts of cobra, the duration in the request log,
  \<^verbatim>\<open>AllKeysChan\<close> (which nothing calls), closing of databases. They are input and output of libraries that the
  source only calls.
\<close>

end
